theory Spec2Isabelle
  imports Complex_Main
begin

section \<open>Numeric values and arrays\<close>

text \<open>
  The program computes with numpy \<open>float64\<close> arrays. A float is modelled as an exact real
  number or one of the three special values of IEEE arithmetic; rounding, overflow and the
  sign of zero are not modelled. numpy never raises on a float division by zero: the result
  is an infinity or a NaN, and the computation goes on.
\<close>

datatype npf = Fin real | PInf | NInf | NaN

datatype error = IndexError | ValueError | ZeroDivisionError

definition ebind :: "error + 'a \<Rightarrow> ('a \<Rightarrow> error + 'b) \<Rightarrow> error + 'b" where
  "ebind m f = (case m of Inl e \<Rightarrow> Inl e | Inr x \<Rightarrow> f x)"

definition is_pos :: "npf \<Rightarrow> bool" where
  "is_pos a = (case a of Fin x \<Rightarrow> 0 < x | PInf \<Rightarrow> True | _ \<Rightarrow> False)"

definition is_zero :: "npf \<Rightarrow> bool" where
  "is_zero a = (case a of Fin x \<Rightarrow> x = 0 | _ \<Rightarrow> False)"

definition np_neg :: "npf \<Rightarrow> npf" where
  "np_neg a = (case a of Fin x \<Rightarrow> Fin (- x) | PInf \<Rightarrow> NInf | NInf \<Rightarrow> PInf | NaN \<Rightarrow> NaN)"

definition np_add :: "npf \<Rightarrow> npf \<Rightarrow> npf" where
  "np_add a b =
     (case (a, b) of
        (Fin x, Fin y) \<Rightarrow> Fin (x + y)
      | (NaN, _) \<Rightarrow> NaN
      | (_, NaN) \<Rightarrow> NaN
      | (PInf, NInf) \<Rightarrow> NaN
      | (NInf, PInf) \<Rightarrow> NaN
      | (PInf, _) \<Rightarrow> PInf
      | (_, PInf) \<Rightarrow> PInf
      | (NInf, _) \<Rightarrow> NInf
      | (_, NInf) \<Rightarrow> NInf)"

definition np_sub :: "npf \<Rightarrow> npf \<Rightarrow> npf" where
  "np_sub a b = np_add a (np_neg b)"

definition np_mul :: "npf \<Rightarrow> npf \<Rightarrow> npf" where
  "np_mul a b =
     (case (a, b) of
        (Fin x, Fin y) \<Rightarrow> Fin (x * y)
      | _ \<Rightarrow> if a = NaN \<or> b = NaN \<or> is_zero a \<or> is_zero b then NaN
             else if is_pos a = is_pos b then PInf else NInf)"

definition np_div :: "npf \<Rightarrow> npf \<Rightarrow> npf" where
  "np_div a b =
     (case (a, b) of
        (Fin x, Fin y) \<Rightarrow>
          if y \<noteq> 0 then Fin (x / y)
          else if x = 0 then NaN else if 0 < x then PInf else NInf
      | (NaN, _) \<Rightarrow> NaN
      | (_, NaN) \<Rightarrow> NaN
      | (Fin x, _) \<Rightarrow> Fin 0
      | (_, Fin y) \<Rightarrow> if is_pos a = (0 \<le> y) then PInf else NInf
      | _ \<Rightarrow> NaN)"

definition np_sqrt :: "npf \<Rightarrow> npf" where
  "np_sqrt a = (case a of Fin x \<Rightarrow> if 0 \<le> x then Fin (sqrt x) else NaN | PInf \<Rightarrow> PInf | _ \<Rightarrow> NaN)"

definition np_gt :: "npf \<Rightarrow> npf \<Rightarrow> bool" where
  "np_gt a b =
     (case (a, b) of
        (Fin x, Fin y) \<Rightarrow> y < x
      | (NaN, _) \<Rightarrow> False
      | (_, NaN) \<Rightarrow> False
      | (PInf, PInf) \<Rightarrow> False
      | (PInf, _) \<Rightarrow> True
      | (_, NInf) \<Rightarrow> b \<noteq> a
      | _ \<Rightarrow> False)"

definition np_sum :: "npf list \<Rightarrow> npf" where
  "np_sum xs = foldl np_add (Fin 0) xs"

text \<open>
  An array is its shape and its cells. A cell is addressed by the list of its indices;
  cells outside the shape are never read by the operations below.
\<close>

record ndarray =
  shape :: "nat list"
  cells :: "nat list \<Rightarrow> npf"

definition np_zeros :: "nat list \<Rightarrow> ndarray" where
  "np_zeros sh = \<lparr>shape = sh, cells = (\<lambda>_. Fin 0)\<rparr>"

text \<open>An index \<open>i\<close> on an axis of length \<open>n\<close>: negative indices count from the end, anything
  outside \<open>-n \<le> i < n\<close> raises IndexError.\<close>

definition np_index :: "nat \<Rightarrow> int \<Rightarrow> nat option" where
  "np_index n i =
     (if 0 \<le> i \<and> i < int n then Some (nat i)
      else if - int n \<le> i \<and> i < 0 then Some (nat (i + int n))
      else None)"

fun np_indices :: "nat list \<Rightarrow> int list \<Rightarrow> nat list option" where
  "np_indices [] [] = Some []"
| "np_indices (n # ns) (i # js) =
     (case np_index n i of
        None \<Rightarrow> None
      | Some j \<Rightarrow> (case np_indices ns js of None \<Rightarrow> None | Some ks \<Rightarrow> Some (j # ks)))"
| "np_indices _ _ = None"

definition setitem :: "ndarray \<Rightarrow> int list \<Rightarrow> npf \<Rightarrow> error + ndarray" where
  "setitem a idx v =
     (case np_indices (shape a) idx of
        None \<Rightarrow> Inl IndexError
      | Some ks \<Rightarrow> Inr (a\<lparr>cells := (cells a)(ks := v)\<rparr>))"

definition getitem :: "ndarray \<Rightarrow> int list \<Rightarrow> error + npf" where
  "getitem a idx =
     (case np_indices (shape a) idx of
        None \<Rightarrow> Inl IndexError
      | Some ks \<Rightarrow> Inr (cells a ks))"

definition py_floordiv :: "int \<Rightarrow> int \<Rightarrow> error + int" where
  "py_floordiv a b = (if b = 0 then Inl ZeroDivisionError else Inr (a div b))"

definition py_mod :: "int \<Rightarrow> int \<Rightarrow> error + int" where
  "py_mod a b = (if b = 0 then Inl ZeroDivisionError else Inr (a mod b))"

section \<open>The test-day model\<close>

text \<open>
  What the constructor of \<open>TestDayModel\<close> is given and what the renumbering step
  (\<open>self.renum\<close>, not part of this engine) and the variance estimator supply.
  \<open>n_fixed_effects\<close> is \<open>len(self.fixed_effects)\<close>.
\<close>

record config =
  n_fixed_effects :: nat
  fixed_degree :: nat
  random_degree :: nat
  number_of_traits :: nat
  lactation_dim :: nat
  animal_count :: nat
  dim_range :: "int \<times> int"
  inbreeding :: bool
  inbreeding_coefficients :: "npf list"
  sires :: "int list"
  dams :: "int list"
  mat_G :: ndarray
  mat_P :: ndarray
  mat_R :: ndarray

text \<open>The fields of the instance that the engine fills.\<close>

record tdm =
  FE :: "npf list"
  fixed_curve_coefficients :: ndarray
  additive_coefficients :: ndarray
  permanent_coefficients :: ndarray
  EBVs :: ndarray
  heritabilities :: ndarray
  repeatabilities :: ndarray
  var_G :: ndarray
  var_P :: ndarray
  var_R :: ndarray
  PEVs :: ndarray
  RELs :: ndarray
  PEV_PECs :: ndarray
  avg_heritabilities :: ndarray
  avg_repeatabilities :: ndarray
  avg_var_G :: ndarray
  avg_var_P :: ndarray
  avg_PEVs :: ndarray
  avg_RELs :: ndarray
  DRPs :: ndarray
  DRP_RELs :: ndarray
  DRP_weights :: ndarray
  scaled_dim_range :: "npf list"
  legendre_coefficients :: ndarray
  legendre_random_coefficients :: ndarray
  legendre_partial_sums :: ndarray
  legendre_random_sums :: ndarray

subsection \<open>Solution demultiplexer (\<open>__read_blupf90_solutions__\<close>)\<close>

text \<open>
  One record of the solutions file, after \<open>split\<close>, \<open>int\<close> and \<open>float\<close>:
  (trait, effect, level, solution). The index expressions are evaluated left to right
  before the store, so a model with no traits fails on the division.
\<close>

type_synonym solution = "int \<times> int \<times> int \<times> npf"

definition lact_trait :: "config \<Rightarrow> int \<Rightarrow> error + int \<times> int" where
  "lact_trait cfg trait =
     ebind (py_floordiv (trait - 1) (int (number_of_traits cfg))) (\<lambda>l.
     ebind (py_mod (trait - 1) (int (number_of_traits cfg))) (\<lambda>t. Inr (l, t)))"

definition read_solution :: "config \<Rightarrow> tdm \<Rightarrow> solution \<Rightarrow> error + tdm" where
  "read_solution cfg s rec =
     (case rec of (trait, effect, level, sol) \<Rightarrow>
        let F = int (n_fixed_effects cfg);
            fd = int (fixed_degree cfg);
            rd = int (random_degree cfg)
        in
        if effect \<le> F then Inr (s\<lparr>FE := FE s @ [sol]\<rparr>)
        else if effect \<le> F + fd + 1 then
          ebind (lact_trait cfg trait) (\<lambda>(l, t).
          ebind (setitem (fixed_curve_coefficients s) [l, t, effect - F - 1] sol) (\<lambda>a.
          Inr (s\<lparr>fixed_curve_coefficients := a\<rparr>)))
        else if effect \<le> F + fd + rd + 2 then
          ebind (lact_trait cfg trait) (\<lambda>(l, t).
          ebind (setitem (additive_coefficients s) [l, t, level - 1, effect - F - fd - 2] sol) (\<lambda>a.
          Inr (s\<lparr>additive_coefficients := a\<rparr>)))
        else
          ebind (lact_trait cfg trait) (\<lambda>(l, t).
          ebind (setitem (permanent_coefficients s) [l, t, level - 1, effect - F - fd - rd - 3] sol) (\<lambda>a.
          Inr (s\<lparr>permanent_coefficients := a\<rparr>))))"

fun read_blupf90_solutions :: "config \<Rightarrow> tdm \<Rightarrow> solution list \<Rightarrow> error + tdm" where
  "read_blupf90_solutions cfg s [] = Inr s"
| "read_blupf90_solutions cfg s (r # rs) =
     ebind (read_solution cfg s r) (\<lambda>s'. read_blupf90_solutions cfg s' rs)"

subsection \<open>Basis builder (\<open>__init__\<close>, \<open>__add_legendre_coefficients__\<close>)\<close>

text \<open>
  \<open>scipy.special.legendre(k)\<close> is a library function: it returns the Legendre polynomial
  of degree \<open>k\<close>, given here by Bonnet's recurrence. A polynomial is evaluated by Horner's
  scheme starting from \<open>0 * x\<close>, so an argument that is not finite gives NaN.
\<close>

fun legendre_poly :: "nat \<Rightarrow> real \<Rightarrow> real" where
  "legendre_poly 0 x = 1"
| "legendre_poly (Suc 0) x = x"
| "legendre_poly (Suc (Suc n)) x =
     ((2 * real n + 3) * x * legendre_poly (Suc n) x - (real n + 1) * legendre_poly n x)
       / (real n + 2)"

definition legendre :: "nat \<Rightarrow> npf \<Rightarrow> npf" where
  "legendre k a = (case a of Fin x \<Rightarrow> Fin (legendre_poly k x) | _ \<Rightarrow> NaN)"

definition degree :: "config \<Rightarrow> nat" where
  "degree cfg = max (fixed_degree cfg) (random_degree cfg)"

text \<open>\<open>-1 + 2 * (np.arange(lo, hi + 1) - lo) / (hi - lo)\<close>: integer arithmetic up to the
  division, which is numpy's true division.\<close>

definition scale_dim_range :: "int \<times> int \<Rightarrow> npf list" where
  "scale_dim_range dr =
     (case dr of (lo, hi) \<Rightarrow>
        map (\<lambda>x. np_add (Fin (- 1)) (np_div (Fin (of_int (2 * (x - lo)))) (Fin (of_int (hi - lo)))))
          [lo..hi])"

text \<open>The linear map of \<open>lo..hi\<close> onto [-1, 1]: where offset \<open>r\<close> of the DIM range lands.\<close>

definition grid_point :: "int \<Rightarrow> int \<Rightarrow> nat \<Rightarrow> real" where
  "grid_point lo hi r = - 1 + 2 * real r / real_of_int (hi - lo)"

text \<open>A one-dimensional value assigned to a lane of length \<open>d\<close> must have length \<open>d\<close>, or
  length 1 (it is then broadcast); anything else raises ValueError.\<close>

definition broadcast :: "nat \<Rightarrow> npf list \<Rightarrow> npf list option" where
  "broadcast d vec =
     (if length vec = d then Some vec
      else if length vec = 1 then Some (replicate d (hd vec))
      else None)"

text \<open>\<open>a[:, j] = vec\<close> on a matrix.\<close>

definition set_column :: "ndarray \<Rightarrow> int \<Rightarrow> npf list \<Rightarrow> error + ndarray" where
  "set_column a j vec =
     (case shape a of
        [d, c] \<Rightarrow>
          (case np_index c j of
             None \<Rightarrow> Inl IndexError
           | Some k \<Rightarrow>
               (case broadcast d vec of
                  None \<Rightarrow> Inl ValueError
                | Some w \<Rightarrow>
                    Inr (a\<lparr>cells := (\<lambda>idx. case idx of
                                         [r, k'] \<Rightarrow> if k' = k \<and> r < d then w ! r else cells a idx
                                       | _ \<Rightarrow> cells a idx)\<rparr>)))
      | _ \<Rightarrow> Inl IndexError)"

fun add_legendre_columns :: "tdm \<Rightarrow> nat list \<Rightarrow> error + tdm" where
  "add_legendre_columns s [] = Inr s"
| "add_legendre_columns s (i # js) =
     ebind (set_column (legendre_coefficients s) (int i)
              (map (\<lambda>x. np_mul (legendre i x) (np_sqrt (Fin (real i + 1 / 2)))) (scaled_dim_range s)))
       (\<lambda>a. add_legendre_columns (s\<lparr>legendre_coefficients := a\<rparr>) js)"

definition add_legendre_coefficients :: "config \<Rightarrow> tdm \<Rightarrow> error + tdm" where
  "add_legendre_coefficients cfg s = add_legendre_columns s [0..<degree cfg + 1]"

text \<open>\<open>a[:, range(n)]\<close>: the first \<open>n\<close> columns; a column index beyond the matrix raises
  IndexError.\<close>

definition take_columns :: "ndarray \<Rightarrow> nat \<Rightarrow> error + ndarray" where
  "take_columns a n =
     (case shape a of
        [d, c] \<Rightarrow>
          if n \<le> c
          then Inr \<lparr>shape = [d, n], cells = (\<lambda>idx. case idx of [r, k] \<Rightarrow> cells a [r, k] | _ \<Rightarrow> Fin 0)\<rparr>
          else Inl IndexError
      | _ \<Rightarrow> Inl IndexError)"

text \<open>\<open>np.cumsum(a, axis=0)\<close>: the running sum down each column.\<close>

fun running_sum :: "npf \<Rightarrow> npf list \<Rightarrow> npf list" where
  "running_sum acc [] = []"
| "running_sum acc (x # xs) = np_add acc x # running_sum (np_add acc x) xs"

definition cumsum_axis0 :: "ndarray \<Rightarrow> ndarray" where
  "cumsum_axis0 a =
     (case shape a of
        [d, c] \<Rightarrow>
          \<lparr>shape = [d, c],
           cells = (\<lambda>idx. case idx of
                       [r, k] \<Rightarrow> running_sum (Fin 0) (map (\<lambda>i. cells a [i, k]) [0..<d]) ! r
                     | _ \<Rightarrow> Fin 0)\<rparr>
      | _ \<Rightarrow> a)"

text \<open>
  The constructor, without the calls to the external programs: every tensor is allocated
  zero-filled with its final shape, then the basis tables are built. \<open>np.zeros\<close> rejects
  a negative dimension, which only the length of the DIM range can be.
\<close>

definition dim_count :: "config \<Rightarrow> int" where
  "dim_count cfg = snd (dim_range cfg) - fst (dim_range cfg) + 1"

definition allocate :: "config \<Rightarrow> tdm" where
  "allocate cfg =
     (let L = lactation_dim cfg; T = number_of_traits cfg; N = animal_count cfg;
          D = nat (dim_count cfg); K = random_degree cfg + 1
      in \<lparr>FE = [],
          fixed_curve_coefficients = np_zeros [L, T, fixed_degree cfg + 1],
          additive_coefficients = np_zeros [L, T, N, K],
          permanent_coefficients = np_zeros [L, T, N, K],
          EBVs = np_zeros [L, T, N, D],
          heritabilities = np_zeros [L, T, D],
          repeatabilities = np_zeros [L, T, D],
          var_G = np_zeros [L, T, D],
          var_P = np_zeros [L, T, D],
          var_R = np_zeros [L, T],
          PEVs = np_zeros [L, T, N, D],
          RELs = np_zeros [L, T, N, D],
          PEV_PECs = np_zeros [N, K * T * L, K * T * L],
          avg_heritabilities = np_zeros [L, T],
          avg_repeatabilities = np_zeros [L, T],
          avg_var_G = np_zeros [L, T],
          avg_var_P = np_zeros [L, T],
          avg_PEVs = np_zeros [L, T, N],
          avg_RELs = np_zeros [L, T, N],
          DRPs = np_zeros [L, T, N],
          DRP_RELs = np_zeros [L, T, N],
          DRP_weights = np_zeros [L, T, N],
          scaled_dim_range = scale_dim_range (dim_range cfg),
          legendre_coefficients = np_zeros [D, degree cfg + 1],
          legendre_random_coefficients = np_zeros [0, 0],
          legendre_partial_sums = np_zeros [0, 0],
          legendre_random_sums = np_zeros [0, 0]\<rparr>)"

definition build_basis :: "config \<Rightarrow> error + tdm" where
  "build_basis cfg =
     (if dim_count cfg < 0 then Inl ValueError
      else
        ebind (add_legendre_coefficients cfg (allocate cfg)) (\<lambda>s1.
        ebind (take_columns (legendre_coefficients s1) (random_degree cfg + 1)) (\<lambda>rc.
        let ps = cumsum_axis0 (legendre_coefficients s1) in
        ebind (take_columns ps (random_degree cfg + 1)) (\<lambda>rs.
        Inr (s1\<lparr>legendre_random_coefficients := rc,
                legendre_partial_sums := ps,
                legendre_random_sums := rs\<rparr>)))))"

text \<open>The smallest model: one trait, one lactation, one animal, degree 0, DIM range (5, 6).\<close>

definition tiny_config :: config where
  "tiny_config =
     \<lparr>n_fixed_effects = 0, fixed_degree = 0, random_degree = 0, number_of_traits = 1,
      lactation_dim = 1, animal_count = 1, dim_range = (5, 6), inbreeding = False,
      inbreeding_coefficients = [Fin 0], sires = [0], dams = [0],
      mat_G = \<lparr>shape = [1, 1], cells = (\<lambda>_. Fin 1)\<rparr>,
      mat_P = \<lparr>shape = [1, 1], cells = (\<lambda>_. Fin 1)\<rparr>,
      mat_R = \<lparr>shape = [1, 1], cells = (\<lambda>_. Fin 1)\<rparr>\<rparr>"

subsection \<open>PEV-PEC reader (\<open>__read_pev_pec__\<close>)\<close>

text \<open>
  One line of the file after \<open>split\<close>: the animal number and the values of the packed
  lower triangle. The values are stored while a (row, col) cursor walks the triangle row by
  row; then the transpose of the animal's matrix is added to it and its diagonal is halved.
  The in-place addition of the transposed view reads the matrix as it was before the
  addition (numpy buffers operands that overlap the output).
\<close>

type_synonym pev_pec_line = "int \<times> npf list"

fun store_triangle :: "ndarray \<Rightarrow> int \<Rightarrow> nat \<Rightarrow> nat \<Rightarrow> npf list \<Rightarrow> error + ndarray" where
  "store_triangle a animal row col [] = Inr a"
| "store_triangle a animal row col (elem # elems) =
     ebind (setitem a [animal, int row, int col] elem) (\<lambda>a'.
       if col = row then store_triangle a' animal (row + 1) 0 elems
       else store_triangle a' animal row (col + 1) elems)"

text \<open>\<open>a[animal, :, :] += a[animal, :, :].T\<close>: the two operands broadcast together only
  when the matrix is square.\<close>

definition add_transpose_cells :: "(nat list \<Rightarrow> npf) \<Rightarrow> nat \<Rightarrow> nat \<Rightarrow> nat list \<Rightarrow> npf" where
  "add_transpose_cells f k m idx =
     (case idx of
        [k', i, j] \<Rightarrow>
          if k' = k \<and> i < m \<and> j < m then np_add (f [k, i, j]) (f [k, j, i]) else f idx
      | _ \<Rightarrow> f idx)"

definition add_transpose :: "ndarray \<Rightarrow> int \<Rightarrow> error + ndarray" where
  "add_transpose a animal =
     (case shape a of
        [n, r, c] \<Rightarrow>
          (case np_index n animal of
             None \<Rightarrow> Inl IndexError
           | Some k \<Rightarrow>
               if r = c then Inr (a\<lparr>cells := add_transpose_cells (cells a) k r\<rparr>)
               else Inl ValueError)
      | _ \<Rightarrow> Inl IndexError)"

text \<open>\<open>a[animal, range(a.shape[1]), range(a.shape[2])] /= 2\<close>: the two index ranges are
  paired, so they must have the same length.\<close>

definition halve_diagonal_cells :: "(nat list \<Rightarrow> npf) \<Rightarrow> nat \<Rightarrow> nat \<Rightarrow> nat list \<Rightarrow> npf" where
  "halve_diagonal_cells f k m idx =
     (case idx of
        [k', i, j] \<Rightarrow> if k' = k \<and> i = j \<and> i < m then np_div (f [k, i, i]) (Fin 2) else f idx
      | _ \<Rightarrow> f idx)"

definition halve_diagonal :: "ndarray \<Rightarrow> int \<Rightarrow> error + ndarray" where
  "halve_diagonal a animal =
     (case shape a of
        [n, r, c] \<Rightarrow>
          (case np_index n animal of
             None \<Rightarrow> Inl IndexError
           | Some k \<Rightarrow>
               if r = c then Inr (a\<lparr>cells := halve_diagonal_cells (cells a) k r\<rparr>)
               else Inl IndexError)
      | _ \<Rightarrow> Inl IndexError)"

definition read_pev_pec_line :: "ndarray \<Rightarrow> pev_pec_line \<Rightarrow> error + ndarray" where
  "read_pev_pec_line a line =
     (case line of (number, elems) \<Rightarrow>
        let animal = number - 1 in
        ebind (store_triangle a animal 0 0 elems) (\<lambda>a1.
        ebind (add_transpose a1 animal) (\<lambda>a2.
        halve_diagonal a2 animal)))"

fun read_pev_pec_lines :: "ndarray \<Rightarrow> pev_pec_line list \<Rightarrow> error + ndarray" where
  "read_pev_pec_lines a [] = Inr a"
| "read_pev_pec_lines a (line # lines) =
     ebind (read_pev_pec_line a line) (\<lambda>a'. read_pev_pec_lines a' lines)"

definition read_pev_pec :: "tdm \<Rightarrow> pev_pec_line list \<Rightarrow> error + tdm" where
  "read_pev_pec s lines =
     ebind (read_pev_pec_lines (PEV_PECs s) lines) (\<lambda>a. Inr (s\<lparr>PEV_PECs := a\<rparr>))"

text \<open>Where the entry (i, j), \<open>j \<le> i\<close>, of a matrix sits in its row-major packed lower
  triangle (diagonal included).\<close>

definition packed_index :: "nat \<Rightarrow> nat \<Rightarrow> nat" where
  "packed_index i j = i * (i + 1) div 2 + j"

definition well_formed_line :: "nat \<Rightarrow> nat \<Rightarrow> pev_pec_line \<Rightarrow> bool" where
  "well_formed_line n k line =
     (1 \<le> fst line \<and> fst line \<le> int n \<and> length (snd line) \<le> packed_index k 0)"

text \<open>A model with linear random regressions: the PEV-PEC matrix of its animal is 2 x 2.\<close>

definition linear_config :: config where
  "linear_config =
     \<lparr>n_fixed_effects = 0, fixed_degree = 1, random_degree = 1, number_of_traits = 1,
      lactation_dim = 1, animal_count = 1, dim_range = (5, 6), inbreeding = False,
      inbreeding_coefficients = [Fin 0], sires = [0], dams = [0],
      mat_G = \<lparr>shape = [2, 2], cells = (\<lambda>idx. if idx = [0, 0] \<or> idx = [1, 1] then Fin 1 else Fin 0)\<rparr>,
      mat_P = \<lparr>shape = [2, 2], cells = (\<lambda>idx. if idx = [0, 0] \<or> idx = [1, 1] then Fin 1 else Fin 0)\<rparr>,
      mat_R = \<lparr>shape = [1, 1], cells = (\<lambda>_. Fin 1)\<rparr>\<rparr>"

text \<open>What the cursor walk stores: the cell (i, j) of the lower triangle receives the
  element at distance \<open>packed_index i j - packed_index row col\<close> from the cursor.\<close>

definition stored :: "ndarray \<Rightarrow> nat \<Rightarrow> nat \<Rightarrow> nat \<Rightarrow> npf list \<Rightarrow> nat list \<Rightarrow> npf" where
  "stored a k row col elems idx =
     (case idx of
        [k', i, j] \<Rightarrow>
          if k' = k \<and> j \<le> i \<and> packed_index row col \<le> packed_index i j
             \<and> packed_index i j < packed_index row col + length elems
          then elems ! (packed_index i j - packed_index row col)
          else cells a idx
      | _ \<Rightarrow> cells a idx)"

text \<open>The matrix of animal \<open>k\<close> after one line: \<open>f\<close> is the matrix with the triangle stored.\<close>

definition symmetrized :: "(nat list \<Rightarrow> npf) \<Rightarrow> (nat list \<Rightarrow> npf) \<Rightarrow> nat \<Rightarrow> nat \<Rightarrow> nat list \<Rightarrow> npf" where
  "symmetrized old f k m idx =
     (case idx of
        [k', i, j] \<Rightarrow>
          if k' = k \<and> i < m \<and> j < m
          then (if i = j then f [k, i, i] else np_add (f [k, i, j]) (f [k, j, i]))
          else old idx
      | _ \<Rightarrow> old idx)"

text \<open>An array of matrices all of which equal their transpose.\<close>

definition all_symmetric :: "ndarray \<Rightarrow> bool" where
  "all_symmetric a =
     (case shape a of
        [n, r, c] \<Rightarrow> r = c \<and> (\<forall>k<n. \<forall>i<r. \<forall>j<r. cells a [k, i, j] = cells a [k, j, i])
      | _ \<Rightarrow> False)"

subsection \<open>Matrix operations of numpy used by the engines\<close>

text \<open>\<open>a[lo:hi, lo:hi]\<close> on a matrix: a slice is clipped to the matrix, it never raises.\<close>

definition slice2_cells :: "(nat list \<Rightarrow> npf) \<Rightarrow> nat \<Rightarrow> nat list \<Rightarrow> npf" where
  "slice2_cells f lo idx = (case idx of [i, j] \<Rightarrow> f [lo + i, lo + j] | _ \<Rightarrow> Fin 0)"

definition slice2 :: "ndarray \<Rightarrow> nat \<Rightarrow> nat \<Rightarrow> error + ndarray" where
  "slice2 a lo hi =
     (case shape a of
        [r, c] \<Rightarrow> Inr \<lparr>shape = [min hi r - min lo r, min hi c - min lo c],
                       cells = slice2_cells (cells a) lo\<rparr>
      | _ \<Rightarrow> Inl IndexError)"

text \<open>\<open>a @ b\<close> on two matrices; the inner dimensions must agree.\<close>

definition matmul_cells :: "(nat list \<Rightarrow> npf) \<Rightarrow> (nat list \<Rightarrow> npf) \<Rightarrow> nat \<Rightarrow> nat list \<Rightarrow> npf" where
  "matmul_cells f g n idx =
     (case idx of
        [i, j] \<Rightarrow> np_sum (map (\<lambda>k. np_mul (f [i, k]) (g [k, j])) [0..<n])
      | _ \<Rightarrow> Fin 0)"

definition matmul :: "ndarray \<Rightarrow> ndarray \<Rightarrow> error + ndarray" where
  "matmul a b =
     (case (shape a, shape b) of
        ([m, n], [n', p]) \<Rightarrow>
          if n = n' then Inr \<lparr>shape = [m, p], cells = matmul_cells (cells a) (cells b) n\<rparr>
          else Inl ValueError
      | _ \<Rightarrow> Inl ValueError)"

definition transpose_cells :: "(nat list \<Rightarrow> npf) \<Rightarrow> nat list \<Rightarrow> npf" where
  "transpose_cells f idx = (case idx of [i, j] \<Rightarrow> f [j, i] | _ \<Rightarrow> Fin 0)"

definition transpose2 :: "ndarray \<Rightarrow> ndarray" where
  "transpose2 a =
     (case shape a of
        [r, c] \<Rightarrow> \<lparr>shape = [c, r], cells = transpose_cells (cells a)\<rparr>
      | _ \<Rightarrow> a)"

definition diagonal :: "ndarray \<Rightarrow> npf list" where
  "diagonal a = (case shape a of [r, c] \<Rightarrow> map (\<lambda>i. cells a [i, i]) [0..<min r c] | _ \<Rightarrow> [])"

text \<open>\<open>a.mean(axis=0)\<close> of a matrix: the mean of each column.\<close>

definition mean_axis0 :: "ndarray \<Rightarrow> npf list" where
  "mean_axis0 a =
     (case shape a of
        [r, c] \<Rightarrow> map (\<lambda>j. np_div (np_sum (map (\<lambda>i. cells a [i, j]) [0..<r])) (Fin (real r))) [0..<c]
      | _ \<Rightarrow> [])"

text \<open>\<open>a.mean(axis=n)\<close> for the last axis \<open>n\<close> of \<open>a\<close>.\<close>

definition mean_last :: "ndarray \<Rightarrow> ndarray" where
  "mean_last a =
     \<lparr>shape = butlast (shape a),
      cells = (\<lambda>idx. np_div (np_sum (map (\<lambda>d. cells a (idx @ [d])) [0..<last (shape a)]))
                              (Fin (real (last (shape a)))))\<rparr>"

text \<open>\<open>a[i, j, :] = vec\<close> and \<open>a[i, j, :]\<close>: the lane along the last axis at the given
  leading indices.\<close>

definition lane_update :: "(nat list \<Rightarrow> npf) \<Rightarrow> nat list \<Rightarrow> npf list \<Rightarrow> nat list \<Rightarrow> npf" where
  "lane_update f ks w idx =
     (if idx \<noteq> [] \<and> butlast idx = ks \<and> last idx < length w then w ! last idx else f idx)"

definition set_lane :: "ndarray \<Rightarrow> int list \<Rightarrow> npf list \<Rightarrow> error + ndarray" where
  "set_lane a pre vec =
     (if shape a = [] then Inl IndexError
      else case np_indices (butlast (shape a)) pre of
             None \<Rightarrow> Inl IndexError
           | Some ks \<Rightarrow>
               (case broadcast (last (shape a)) vec of
                  None \<Rightarrow> Inl ValueError
                | Some w \<Rightarrow> Inr (a\<lparr>cells := lane_update (cells a) ks w\<rparr>)))"

definition get_lane :: "ndarray \<Rightarrow> int list \<Rightarrow> error + npf list" where
  "get_lane a pre =
     (if shape a = [] then Inl IndexError
      else case np_indices (butlast (shape a)) pre of
             None \<Rightarrow> Inl IndexError
           | Some ks \<Rightarrow> Inr (map (\<lambda>d. cells a (ks @ [d])) [0..<last (shape a)]))"

text \<open>An elementwise operation on two one-dimensional arrays, with numpy's broadcasting.\<close>

definition vec_binop :: "(npf \<Rightarrow> npf \<Rightarrow> npf) \<Rightarrow> npf list \<Rightarrow> npf list \<Rightarrow> error + npf list" where
  "vec_binop f xs ys =
     (if length xs = length ys then Inr (map2 f xs ys)
      else if length xs = 1 then Inr (map (f (hd xs)) ys)
      else if length ys = 1 then Inr (map (\<lambda>x. f x (hd ys)) xs)
      else Inl ValueError)"

subsection \<open>Variance and heritability engine (\<open>__compute_variances_and_heritabilities__\<close>)\<close>

text \<open>
  \<open>B @ M[lo:hi, lo:hi] @ B.T\<close>, evaluated from the left. Then one pass of the loop over
  \<open>i\<close> in \<open>range(number_of_traits * lactation_dim)\<close>. The loop body runs only when there
  is at least one trait, so the divisions by the number of traits are defined. The
  averages are recomputed at the end of every pass.
\<close>

definition sandwich :: "ndarray \<Rightarrow> ndarray \<Rightarrow> error + ndarray" where
  "sandwich B M = ebind (matmul B M) (\<lambda>BM. matmul BM (transpose2 B))"

definition project_block :: "ndarray \<Rightarrow> ndarray \<Rightarrow> nat \<Rightarrow> nat \<Rightarrow> error + ndarray" where
  "project_block B M lo hi = ebind (slice2 M lo hi) (sandwich B)"

definition variance_step :: "config \<Rightarrow> tdm \<Rightarrow> nat \<Rightarrow> error + tdm" where
  "variance_step cfg s i =
     (let lactation = int (i div number_of_traits cfg);
          trait = int (i mod number_of_traits cfg);
          min_idx = i * (random_degree cfg + 1);
          max_idx = (i + 1) * (random_degree cfg + 1)
      in
      ebind (project_block (legendre_random_coefficients s) (mat_G cfg) min_idx max_idx) (\<lambda>BGB.
      ebind (set_lane (var_G s) [lactation, trait] (diagonal BGB)) (\<lambda>vG.
      ebind (project_block (legendre_random_coefficients s) (mat_P cfg) min_idx max_idx) (\<lambda>BPB.
      ebind (set_lane (var_P s) [lactation, trait] (diagonal BPB)) (\<lambda>vP.
      ebind (getitem (mat_R cfg) [int i, int i]) (\<lambda>r.
      ebind (setitem (var_R s) [lactation, trait] r) (\<lambda>vR.
      ebind (get_lane vG [lactation, trait]) (\<lambda>g.
      ebind (get_lane vP [lactation, trait]) (\<lambda>p.
      ebind (vec_binop np_add g p) (\<lambda>repeat_variance.
      ebind (getitem vR [lactation, trait]) (\<lambda>r'.
      let pheno_variance = map (\<lambda>x. np_add x r') repeat_variance in
      ebind (vec_binop np_div g pheno_variance) (\<lambda>h.
      ebind (set_lane (heritabilities s) [lactation, trait] h) (\<lambda>hs.
      ebind (vec_binop np_div repeat_variance pheno_variance) (\<lambda>rp.
      ebind (set_lane (repeatabilities s) [lactation, trait] rp) (\<lambda>rps.
      Inr (s\<lparr>var_G := vG, var_P := vP, var_R := vR,
              heritabilities := hs, repeatabilities := rps,
              avg_var_G := mean_last vG, avg_var_P := mean_last vP,
              avg_heritabilities := mean_last hs,
              avg_repeatabilities := mean_last rps\<rparr>))))))))))))))))"

fun variance_loop :: "config \<Rightarrow> tdm \<Rightarrow> nat list \<Rightarrow> error + tdm" where
  "variance_loop cfg s [] = Inr s"
| "variance_loop cfg s (i # js) = ebind (variance_step cfg s i) (\<lambda>s'. variance_loop cfg s' js)"

definition compute_variances_and_heritabilities :: "config \<Rightarrow> tdm \<Rightarrow> error + tdm" where
  "compute_variances_and_heritabilities cfg s =
     variance_loop cfg s [0..<number_of_traits cfg * lactation_dim cfg]"

text \<open>The value at DIM offset \<open>d\<close> of \<open>diag(B M[lo:lo+K, lo:lo+K] B\<^sup>T)\<close>, written out.\<close>

definition quad_form :: "ndarray \<Rightarrow> ndarray \<Rightarrow> nat \<Rightarrow> nat \<Rightarrow> nat \<Rightarrow> nat \<Rightarrow> npf" where
  "quad_form B M K lo d d' =
     np_sum (map (\<lambda>b. np_mul (np_sum (map (\<lambda>a. np_mul (cells B [d, a]) (cells M [lo + a, lo + b])) [0..<K]))
                              (cells B [d', b])) [0..<K])"

text \<open>The shapes the engines rely on: the tensors as the constructor allocates them, the
  random basis with one row per DIM offset, the (co)variance matrices with one
  \<open>K \<times> K\<close> block (G, P) or one entry (R) per trait and lactation.\<close>

definition well_shaped :: "config \<Rightarrow> tdm \<Rightarrow> bool" where
  "well_shaped cfg s =
     (let L = lactation_dim cfg; T = number_of_traits cfg; N = animal_count cfg;
          D = nat (dim_count cfg); K = random_degree cfg + 1
      in shape (var_G s) = [L, T, D] \<and> shape (var_P s) = [L, T, D] \<and> shape (var_R s) = [L, T]
       \<and> shape (heritabilities s) = [L, T, D] \<and> shape (repeatabilities s) = [L, T, D]
       \<and> shape (PEVs s) = [L, T, N, D] \<and> shape (RELs s) = [L, T, N, D]
       \<and> shape (PEV_PECs s) = [N, K * T * L, K * T * L]
       \<and> shape (EBVs s) = [L, T, N, D]
       \<and> shape (avg_RELs s) = [L, T, N] \<and> shape (avg_heritabilities s) = [L, T]
       \<and> shape (DRPs s) = [L, T, N] \<and> shape (DRP_RELs s) = [L, T, N]
       \<and> shape (DRP_weights s) = [L, T, N]
       \<and> shape (legendre_random_coefficients s) = [D, K]
       \<and> shape (mat_G cfg) = [K * T * L, K * T * L]
       \<and> shape (mat_P cfg) = [K * T * L, K * T * L]
       \<and> shape (mat_R cfg) = [T * L, T * L])"

text \<open>What one pass of the variance loop writes for the pair with flat index \<open>i\<close>: the
  genetic and permanent variance curves, the residual variance, and the two ratio curves.\<close>

definition var_G_row :: "config \<Rightarrow> tdm \<Rightarrow> nat \<Rightarrow> npf list" where
  "var_G_row cfg s i =
     map (\<lambda>d. quad_form (legendre_random_coefficients s) (mat_G cfg) (random_degree cfg + 1)
                 (i * (random_degree cfg + 1)) d d) [0..<nat (dim_count cfg)]"

definition var_P_row :: "config \<Rightarrow> tdm \<Rightarrow> nat \<Rightarrow> npf list" where
  "var_P_row cfg s i =
     map (\<lambda>d. quad_form (legendre_random_coefficients s) (mat_P cfg) (random_degree cfg + 1)
                 (i * (random_degree cfg + 1)) d d) [0..<nat (dim_count cfg)]"

definition pheno_row :: "config \<Rightarrow> tdm \<Rightarrow> nat \<Rightarrow> npf list" where
  "pheno_row cfg s i =
     map (\<lambda>x. np_add x (cells (mat_R cfg) [i, i])) (map2 np_add (var_G_row cfg s i) (var_P_row cfg s i))"

definition heritability_row :: "config \<Rightarrow> tdm \<Rightarrow> nat \<Rightarrow> npf list" where
  "heritability_row cfg s i = map2 np_div (var_G_row cfg s i) (pheno_row cfg s i)"

definition repeatability_row :: "config \<Rightarrow> tdm \<Rightarrow> nat \<Rightarrow> npf list" where
  "repeatability_row cfg s i =
     map2 np_div (map2 np_add (var_G_row cfg s i) (var_P_row cfg s i)) (pheno_row cfg s i)"

definition variance_update :: "config \<Rightarrow> tdm \<Rightarrow> nat \<Rightarrow> tdm" where
  "variance_update cfg s i =
     (let ks = [i div number_of_traits cfg, i mod number_of_traits cfg];
          vG = (var_G s)\<lparr>cells := lane_update (cells (var_G s)) ks (var_G_row cfg s i)\<rparr>;
          vP = (var_P s)\<lparr>cells := lane_update (cells (var_P s)) ks (var_P_row cfg s i)\<rparr>;
          vR = (var_R s)\<lparr>cells := (cells (var_R s))(ks := cells (mat_R cfg) [i, i])\<rparr>;
          hs = (heritabilities s)\<lparr>cells := lane_update (cells (heritabilities s)) ks
                                             (heritability_row cfg s i)\<rparr>;
          rps = (repeatabilities s)\<lparr>cells := lane_update (cells (repeatabilities s)) ks
                                              (repeatability_row cfg s i)\<rparr>
      in s\<lparr>var_G := vG, var_P := vP, var_R := vR,
           heritabilities := hs, repeatabilities := rps,
           avg_var_G := mean_last vG, avg_var_P := mean_last vP,
           avg_heritabilities := mean_last hs,
           avg_repeatabilities := mean_last rps\<rparr>)"

text \<open>The tiny model with another residual variance.\<close>

definition residual_config :: "real \<Rightarrow> config" where
  "residual_config r = tiny_config\<lparr>mat_R := \<lparr>shape = [1, 1], cells = (\<lambda>_. Fin r)\<rparr>\<rparr>"

text \<open>The constructor up to the variance engine, and a cell of a result.\<close>

definition variance_run :: "config \<Rightarrow> error + tdm" where
  "variance_run cfg = ebind (build_basis cfg) (compute_variances_and_heritabilities cfg)"

definition read_cell :: "(tdm \<Rightarrow> ndarray) \<Rightarrow> nat list \<Rightarrow> error + tdm \<Rightarrow> error + npf" where
  "read_cell field idx res = (case res of Inl e \<Rightarrow> Inl e | Inr s \<Rightarrow> Inr (cells (field s) idx))"

subsection \<open>PEV and reliability engine (\<open>__compute_pevs_rels__\<close>)\<close>

text \<open>\<open>a[j]\<close>: the sub-array at index \<open>j\<close> of the first axis.\<close>

definition select_first :: "ndarray \<Rightarrow> int \<Rightarrow> error + ndarray" where
  "select_first a j =
     (case shape a of
        [] \<Rightarrow> Inl IndexError
      | n # rest \<Rightarrow>
          (case np_index n j of
             None \<Rightarrow> Inl IndexError
           | Some k \<Rightarrow> Inr \<lparr>shape = rest, cells = (\<lambda>idx. cells a (k # idx))\<rparr>))"

text \<open>
  The body of the two nested loops, for the pair with flat index \<open>i\<close> and the animal \<open>j\<close>.
  \<open>self.renum.inbreeding\<close> is one flag for the whole model; the coefficient of animal \<open>j\<close>
  is read only when it is set.
\<close>

definition pev_rel_step :: "config \<Rightarrow> tdm \<Rightarrow> nat \<times> nat \<Rightarrow> error + tdm" where
  "pev_rel_step cfg s ij =
     (case ij of (i, j) \<Rightarrow>
      let lactation = int (i div number_of_traits cfg);
          trait = int (i mod number_of_traits cfg)
      in
      ebind (select_first (PEV_PECs s) (int j)) (\<lambda>M.
      ebind (project_block (legendre_random_coefficients s) M
               (i * (random_degree cfg + 1)) ((i + 1) * (random_degree cfg + 1))) (\<lambda>X.
      ebind (set_lane (PEVs s) [lactation, trait, int j] (mean_axis0 X)) (\<lambda>pevs.
      ebind (get_lane pevs [lactation, trait, int j]) (\<lambda>pev.
      ebind (get_lane (var_G s) [lactation, trait]) (\<lambda>vg.
      ebind (if inbreeding cfg
             then (if j < length (inbreeding_coefficients cfg)
                   then Inr (map (\<lambda>x. np_mul x (np_add (Fin 1) (inbreeding_coefficients cfg ! j))) vg)
                   else Inl IndexError)
             else Inr vg) (\<lambda>denominator.
      ebind (vec_binop np_div pev denominator) (\<lambda>ratio.
      ebind (set_lane (RELs s) [lactation, trait, int j] (map (np_sub (Fin 1)) ratio)) (\<lambda>rels.
      Inr (s\<lparr>PEVs := pevs, RELs := rels\<rparr>))))))))))"

fun pev_rel_loop :: "config \<Rightarrow> tdm \<Rightarrow> (nat \<times> nat) list \<Rightarrow> error + tdm" where
  "pev_rel_loop cfg s [] = Inr s"
| "pev_rel_loop cfg s (ij # rest) = ebind (pev_rel_step cfg s ij) (\<lambda>s'. pev_rel_loop cfg s' rest)"

definition compute_pevs_rels :: "config \<Rightarrow> tdm \<Rightarrow> error + tdm" where
  "compute_pevs_rels cfg s =
     ebind (pev_rel_loop cfg s
              (List.product [0..<lactation_dim cfg * number_of_traits cfg] [0..<animal_count cfg]))
       (\<lambda>s'. Inr (s'\<lparr>avg_PEVs := mean_last (PEVs s'), avg_RELs := mean_last (RELs s')\<rparr>))"

text \<open>The PEV-PEC matrix of animal \<open>j\<close>, and what one pass writes: the PEV curve (the mean
  over the basis rows \<open>r\<close> of \<open>(B M' B\<^sup>T)[r, d]\<close>) and the reliability curve.\<close>

definition animal_matrix :: "ndarray \<Rightarrow> nat \<Rightarrow> ndarray" where
  "animal_matrix a j = \<lparr>shape = tl (shape a), cells = (\<lambda>idx. cells a (j # idx))\<rparr>"

definition pev_row :: "config \<Rightarrow> tdm \<Rightarrow> nat \<Rightarrow> nat \<Rightarrow> npf list" where
  "pev_row cfg s i j =
     map (\<lambda>d. np_div
                 (np_sum (map (\<lambda>r. quad_form (legendre_random_coefficients s)
                                       (animal_matrix (PEV_PECs s) j) (random_degree cfg + 1)
                                       (i * (random_degree cfg + 1)) r d)
                            [0..<nat (dim_count cfg)]))
                 (Fin (real (nat (dim_count cfg)))))
       [0..<nat (dim_count cfg)]"

definition scaled_var_G :: "config \<Rightarrow> tdm \<Rightarrow> nat \<Rightarrow> nat \<Rightarrow> nat \<Rightarrow> nat \<Rightarrow> npf" where
  "scaled_var_G cfg s l t j d =
     (if inbreeding cfg
      then np_mul (cells (var_G s) [l, t, d]) (np_add (Fin 1) (inbreeding_coefficients cfg ! j))
      else cells (var_G s) [l, t, d])"

definition rel_row :: "config \<Rightarrow> tdm \<Rightarrow> nat \<Rightarrow> nat \<Rightarrow> npf list" where
  "rel_row cfg s i j =
     map (\<lambda>d. np_sub (Fin 1)
                 (np_div (pev_row cfg s i j ! d)
                    (scaled_var_G cfg s (i div number_of_traits cfg) (i mod number_of_traits cfg) j d)))
       [0..<nat (dim_count cfg)]"

definition pev_rel_update :: "config \<Rightarrow> tdm \<Rightarrow> nat \<times> nat \<Rightarrow> tdm" where
  "pev_rel_update cfg s ij =
     (case ij of (i, j) \<Rightarrow>
        let ks = [i div number_of_traits cfg, i mod number_of_traits cfg, j]
        in s\<lparr>PEVs := (PEVs s)\<lparr>cells := lane_update (cells (PEVs s)) ks (pev_row cfg s i j)\<rparr>,
             RELs := (RELs s)\<lparr>cells := lane_update (cells (RELs s)) ks (rel_row cfg s i j)\<rparr>\<rparr>)"

text \<open>The constructor up to the reliability engine: basis, PEV-PEC file, variances, PEVs
  and reliabilities. (The solution file and the curves do not bear on these fields.)\<close>

definition reliability_run :: "config \<Rightarrow> pev_pec_line list \<Rightarrow> error + tdm" where
  "reliability_run cfg lines =
     ebind (build_basis cfg) (\<lambda>s0.
     ebind (read_pev_pec s0 lines) (\<lambda>s1.
     ebind (compute_variances_and_heritabilities cfg s1) (\<lambda>s2.
     compute_pevs_rels cfg s2)))"

text \<open>The tiny model with a second animal.\<close>

definition two_animal_config :: config where
  "two_animal_config =
     tiny_config\<lparr>animal_count := 2, inbreeding_coefficients := [Fin 0, Fin 0],
                 sires := [0, 0], dams := [0, 0]\<rparr>"

text \<open>The claimed output of C9: one reliability average per (lactation, trait), over the
  DIM axis and the animal axis together.\<close>

definition rel_mean_over_dim_and_animals :: "config \<Rightarrow> tdm \<Rightarrow> nat \<Rightarrow> nat \<Rightarrow> npf" where
  "rel_mean_over_dim_and_animals cfg s l t =
     np_div
       (np_sum (concat (map (\<lambda>j. map (\<lambda>d. cells (RELs s) [l, t, j, d]) [0..<nat (dim_count cfg)])
                          [0..<animal_count cfg])))
       (Fin (real (animal_count cfg * nat (dim_count cfg))))"

text \<open>A model with two animals, one trait, one lactation, random degree 0, DIM range
  (5, 6) and unit (co)variances.\<close>

definition two_animal_model :: "config \<Rightarrow> bool" where
  "two_animal_model cfg =
     (dim_range cfg = (5, 6) \<and> random_degree cfg = 0 \<and> number_of_traits cfg = 1
      \<and> lactation_dim cfg = 1 \<and> animal_count cfg = 2
      \<and> mat_G cfg = \<lparr>shape = [1, 1], cells = (\<lambda>_. Fin 1)\<rparr>
      \<and> mat_P cfg = \<lparr>shape = [1, 1], cells = (\<lambda>_. Fin 1)\<rparr>
      \<and> mat_R cfg = \<lparr>shape = [1, 1], cells = (\<lambda>_. Fin 1)\<rparr>)"

text \<open>The two-animal model with inbreeding accounted for: the first animal has the
  inbreeding coefficient 1.\<close>

definition inbred_config :: config where
  "inbred_config = two_animal_config\<lparr>inbreeding := True, inbreeding_coefficients := [Fin 1, Fin 0]\<rparr>"

definition read_shape :: "(tdm \<Rightarrow> ndarray) \<Rightarrow> error + tdm \<Rightarrow> error + nat list" where
  "read_shape field res = (case res of Inl e \<Rightarrow> Inl e | Inr s \<Rightarrow> Inr (shape (field s)))"

definition read_rel_mean :: "config \<Rightarrow> nat \<Rightarrow> nat \<Rightarrow> error + tdm \<Rightarrow> error + npf" where
  "read_rel_mean cfg l t res =
     (case res of Inl e \<Rightarrow> Inl e | Inr s \<Rightarrow> Inr (rel_mean_over_dim_and_animals cfg s l t))"

subsection \<open>DRP engine (\<open>__compute_DRPs__\<close>)\<close>

text \<open>
  Index arrays: \<open>a[pre, idxs, post]\<close> gathers one value for each index of the list
  \<open>idxs\<close>; every index is checked against its axis. \<open>a[l, t, :, -1]\<close> reads the last cell
  of the last axis for every animal. \<open>np.where\<close> selects elementwise.
\<close>

fun get_each :: "ndarray \<Rightarrow> int list list \<Rightarrow> error + npf list" where
  "get_each a [] = Inr []"
| "get_each a (ix # ixs) =
     ebind (getitem a ix) (\<lambda>v. ebind (get_each a ixs) (\<lambda>vs. Inr (v # vs)))"

definition gather :: "ndarray \<Rightarrow> int list \<Rightarrow> int list \<Rightarrow> int list \<Rightarrow> error + npf list" where
  "gather a pre idxs post =
     (case np_indices (take (length pre) (shape a)) pre of
        None \<Rightarrow> Inl IndexError
      | Some _ \<Rightarrow> get_each a (map (\<lambda>i. pre @ [i] @ post) idxs))"

definition get_last_lane :: "ndarray \<Rightarrow> int list \<Rightarrow> error + npf list" where
  "get_last_lane a pre =
     (case shape a of
        [L, T, N, D] \<Rightarrow>
          (case np_indices [L, T, D] (pre @ [- 1]) of
             Some [l, t, d] \<Rightarrow> Inr (map (\<lambda>k. cells a [l, t, k, d]) [0..<N])
           | _ \<Rightarrow> Inl IndexError)
      | _ \<Rightarrow> Inl IndexError)"

definition where_pos :: "int list \<Rightarrow> npf list \<Rightarrow> npf list" where
  "where_pos parents xs = map2 (\<lambda>p x. if 0 < p then x else Fin 0) parents xs"

definition where_gt0 :: "npf list \<Rightarrow> npf list \<Rightarrow> error + npf list" where
  "where_gt0 ws xs = vec_binop (\<lambda>w x. if np_gt w (Fin 0) then x else Fin 0) ws xs"

text \<open>The body of \<open>__compute_DRPs__\<close> for one lactation and trait, vectorised over the
  animals as in the source; every line of the source is one binding.\<close>

definition compute_DRPs :: "config \<Rightarrow> tdm \<Rightarrow> nat \<Rightarrow> nat \<Rightarrow> error + tdm" where
  "compute_DRPs cfg s lactation trait =
     (let l = int lactation; t = int trait; half = Fin (1 / 2);
          sire_idx = map (\<lambda>p. p - 1) (sires cfg);
          dam_idx = map (\<lambda>p. p - 1) (dams cfg)
      in
      ebind (gather (avg_RELs s) [l, t] sire_idx []) (\<lambda>rel_s.
      ebind (gather (avg_RELs s) [l, t] dam_idx []) (\<lambda>rel_d.
      ebind (vec_binop np_add (where_pos (sires cfg) rel_s) (where_pos (dams cfg) rel_d)) (\<lambda>rel_sum.
      let r2_gm = map (\<lambda>x. np_div x (Fin 4)) rel_sum;
          alfa = map (\<lambda>x. np_div (Fin 1) (np_sub half x)) r2_gm
      in
      ebind (get_lane (avg_RELs s) [l, t]) (\<lambda>rel.
      ebind (vec_binop np_div (map (np_sub half) r2_gm) (map (np_sub (Fin 1)) rel)) (\<lambda>delta.
      ebind (vec_binop np_add (map (\<lambda>a. np_mul a a) alfa) (map (np_div (Fin 16)) delta)) (\<lambda>alfa_delta.
      ebind (getitem (avg_heritabilities s) [l, t]) (\<lambda>h2.
      let lambda_star = np_div (np_sub (Fin 1) h2) h2 in
      ebind (vec_binop np_add
               (map (\<lambda>a. np_mul lambda_star (np_sub (np_mul half a) (Fin 4))) alfa)
               (map (\<lambda>x. np_mul (np_mul half lambda_star) (np_sqrt x)) alfa_delta)) (\<lambda>Zlgm_Zgm.
      ebind (vec_binop np_mul delta Zlgm_Zgm) (\<lambda>dz.
      ebind (vec_binop np_add dz
               (map (\<lambda>d. np_mul (np_mul (Fin 2) lambda_star) (np_sub (np_mul (Fin 2) d) (Fin 1))) delta))
        (\<lambda>Zli_Zi.
      let r2i = map (\<lambda>z. np_sub (Fin 1) (np_div lambda_star (np_add z lambda_star))) Zli_Zi in
      ebind (gather (EBVs s) [l, t] sire_idx [- 1]) (\<lambda>ebv_s.
      ebind (gather (EBVs s) [l, t] dam_idx [- 1]) (\<lambda>ebv_d.
      ebind (vec_binop np_add (where_pos (sires cfg) ebv_s) (where_pos (dams cfg) ebv_d)) (\<lambda>ebv_sum.
      let gm = map (\<lambda>x. np_div x (Fin 2)) ebv_sum in
      ebind (get_last_lane (EBVs s) [l, t]) (\<lambda>ebv.
      ebind (vec_binop np_mul (map (\<lambda>z. np_add z (np_mul (Fin 2) lambda_star)) Zli_Zi) ebv) (\<lambda>ze.
      ebind (vec_binop np_add (map (np_mul (np_mul (Fin (- 2)) lambda_star)) gm) ze) (\<lambda>y1.
      ebind (vec_binop np_div y1 Zli_Zi) (\<lambda>DRP.
      let wi = map (\<lambda>r. np_div (np_sub (Fin 1) h2)
                            (np_mul (np_add half (np_div (np_sub (Fin 1) r) r)) h2)) r2i
      in
      ebind (where_gt0 wi DRP) (\<lambda>out_drp.
      ebind (set_lane (DRPs s) [l, t] out_drp) (\<lambda>drps.
      ebind (where_gt0 wi r2i) (\<lambda>out_rel.
      ebind (set_lane (DRP_RELs s) [l, t] out_rel) (\<lambda>drp_rels.
      ebind (where_gt0 wi wi) (\<lambda>out_w.
      ebind (set_lane (DRP_weights s) [l, t] out_w) (\<lambda>drp_weights.
      Inr (s\<lparr>DRPs := drps, DRP_RELs := drp_rels, DRP_weights := drp_weights\<rparr>)))))))))))))))))))))))))"

text \<open>
  Garrick's formulas for one animal, as the specification writes them: from the
  heritability \<open>h2\<close>, the reliabilities and terminal breeding values of the sire, the dam
  (0 for an unknown parent) and the animal itself, the triple (DRP, r2i, wi).
\<close>

definition garrick :: "npf \<Rightarrow> npf \<Rightarrow> npf \<Rightarrow> npf \<Rightarrow> npf \<Rightarrow> npf \<Rightarrow> npf \<Rightarrow> npf \<times> npf \<times> npf" where
  "garrick h2 rel_s rel_d rel_i ebv_s ebv_d ebv_i =
     (let half = Fin (1 / 2);
          r2_gm = np_div (np_add rel_s rel_d) (Fin 4);
          alfa = np_div (Fin 1) (np_sub half r2_gm);
          delta = np_div (np_sub half r2_gm) (np_sub (Fin 1) rel_i);
          alfa_delta = np_add (np_mul alfa alfa) (np_div (Fin 16) delta);
          lambda_star = np_div (np_sub (Fin 1) h2) h2;
          Zlgm_Zgm = np_add (np_mul lambda_star (np_sub (np_mul half alfa) (Fin 4)))
                            (np_mul (np_mul half lambda_star) (np_sqrt alfa_delta));
          Zli_Zi = np_add (np_mul delta Zlgm_Zgm)
                          (np_mul (np_mul (Fin 2) lambda_star) (np_sub (np_mul (Fin 2) delta) (Fin 1)));
          r2i = np_sub (Fin 1) (np_div lambda_star (np_add Zli_Zi lambda_star));
          gm = np_div (np_add ebv_s ebv_d) (Fin 2);
          y1 = np_add (np_mul (np_mul (Fin (- 2)) lambda_star) gm)
                      (np_mul (np_add Zli_Zi (np_mul (Fin 2) lambda_star)) ebv_i);
          DRP = np_div y1 Zli_Zi;
          wi = np_div (np_sub (Fin 1) h2)
                      (np_mul (np_add half (np_div (np_sub (Fin 1) r2i) r2i)) h2)
      in (DRP, r2i, wi))"

text \<open>The value of a parent: the cell of the parent when it is known, 0 otherwise.\<close>

definition parent_value :: "(nat \<Rightarrow> npf) \<Rightarrow> int \<Rightarrow> npf" where
  "parent_value f p = (if 0 < p then f (nat (p - 1)) else Fin 0)"

definition garrick_animal :: "config \<Rightarrow> tdm \<Rightarrow> nat \<Rightarrow> nat \<Rightarrow> nat \<Rightarrow> npf \<times> npf \<times> npf" where
  "garrick_animal cfg s l t k =
     (let D = nat (dim_count cfg);
          rel = (\<lambda>a. cells (avg_RELs s) [l, t, a]);
          ebv = (\<lambda>a. cells (EBVs s) [l, t, a, D - 1])
      in garrick (cells (avg_heritabilities s) [l, t])
           (parent_value rel (sires cfg ! k)) (parent_value rel (dams cfg ! k)) (rel k)
           (parent_value ebv (sires cfg ! k)) (parent_value ebv (dams cfg ! k)) (ebv k))"

definition np_le :: "npf \<Rightarrow> npf \<Rightarrow> bool" where
  "np_le a b =
     (case (a, b) of
        (Fin x, Fin y) \<Rightarrow> x \<le> y
      | (NaN, _) \<Rightarrow> False
      | (_, NaN) \<Rightarrow> False
      | (NInf, _) \<Rightarrow> True
      | (_, PInf) \<Rightarrow> True
      | _ \<Rightarrow> False)"

text \<open>Sires and dams as the renumbering supplies them: one entry per animal, 0 for an
  unknown parent, otherwise the number of an animal of the model.\<close>

definition pedigree_ok :: "config \<Rightarrow> bool" where
  "pedigree_ok cfg =
     (length (sires cfg) = animal_count cfg \<and> length (dams cfg) = animal_count cfg
      \<and> (\<forall>p \<in> set (sires cfg) \<union> set (dams cfg). 0 \<le> p \<and> p \<le> int (animal_count cfg)))"

text \<open>The three outputs of the DRP engine for animal \<open>k\<close>: Garrick's values when the weight
  is positive, zero otherwise.\<close>

definition drp_outputs :: "config \<Rightarrow> tdm \<Rightarrow> nat \<Rightarrow> nat \<Rightarrow> nat \<Rightarrow> npf \<times> npf \<times> npf" where
  "drp_outputs cfg s l t k =
     (case garrick_animal cfg s l t k of
        (drp, r2i, wi) \<Rightarrow> if np_gt wi (Fin 0) then (drp, r2i, wi) else (Fin 0, Fin 0, Fin 0))"

subsection \<open>Destinations of the solution records\<close>

text \<open>
  Where the layout sends a record, in the words of the specification: the fixed-effect
  estimates, or one cell of the fixed-curve, additive or permanent coefficients.
\<close>

datatype destination =
  To_fixed_effects | To_fixed_curve "nat list" | To_additive "nat list" | To_permanent "nat list"

definition destination_of :: "config \<Rightarrow> solution \<Rightarrow> destination" where
  "destination_of cfg rec =
     (case rec of (trait, effect, level, sol) \<Rightarrow>
        let F = int (n_fixed_effects cfg);
            fd = int (fixed_degree cfg);
            rd = int (random_degree cfg);
            l = nat ((trait - 1) div int (number_of_traits cfg));
            t = nat ((trait - 1) mod int (number_of_traits cfg))
        in
        if effect \<le> F then To_fixed_effects
        else if effect \<le> F + fd + 1 then To_fixed_curve [l, t, nat (effect - F - 1)]
        else if effect \<le> F + fd + rd + 2
        then To_additive [l, t, nat (level - 1), nat (effect - F - fd - 2)]
        else To_permanent [l, t, nat (level - 1), nat (effect - F - fd - rd - 3)])"

definition deliver :: "config \<Rightarrow> tdm \<Rightarrow> solution \<Rightarrow> tdm" where
  "deliver cfg s rec =
     (let sol = snd (snd (snd rec)) in
      case destination_of cfg rec of
        To_fixed_effects \<Rightarrow> s\<lparr>FE := FE s @ [sol]\<rparr>
      | To_fixed_curve idx \<Rightarrow>
          s\<lparr>fixed_curve_coefficients := (fixed_curve_coefficients s)
               \<lparr>cells := (cells (fixed_curve_coefficients s))(idx := sol)\<rparr>\<rparr>
      | To_additive idx \<Rightarrow>
          s\<lparr>additive_coefficients := (additive_coefficients s)
               \<lparr>cells := (cells (additive_coefficients s))(idx := sol)\<rparr>\<rparr>
      | To_permanent idx \<Rightarrow>
          s\<lparr>permanent_coefficients := (permanent_coefficients s)
               \<lparr>cells := (cells (permanent_coefficients s))(idx := sol)\<rparr>\<rparr>)"

text \<open>A record inside the layout: its effect is at most the last permanent coefficient;
  beyond the fixed effects its trait index is one of the \<open>L * T\<close> trait-lactation pairs;
  in the animal bands its level is an animal of the model.\<close>

definition in_layout :: "config \<Rightarrow> solution \<Rightarrow> bool" where
  "in_layout cfg rec =
     (case rec of (trait, effect, level, sol) \<Rightarrow>
        let F = int (n_fixed_effects cfg);
            fd = int (fixed_degree cfg);
            rd = int (random_degree cfg)
        in effect \<le> F + fd + 2 * rd + 3
         \<and> (F < effect \<longrightarrow>
               1 \<le> trait \<and> trait \<le> int (lactation_dim cfg) * int (number_of_traits cfg))
         \<and> (F + fd + 1 < effect \<longrightarrow> 1 \<le> level \<and> level \<le> int (animal_count cfg)))"

definition coefficient_shapes :: "config \<Rightarrow> tdm \<Rightarrow> bool" where
  "coefficient_shapes cfg s =
     (shape (fixed_curve_coefficients s) =
        [lactation_dim cfg, number_of_traits cfg, fixed_degree cfg + 1]
    \<and> shape (additive_coefficients s) =
        [lactation_dim cfg, number_of_traits cfg, animal_count cfg, random_degree cfg + 1]
    \<and> shape (permanent_coefficients s) =
        [lactation_dim cfg, number_of_traits cfg, animal_count cfg, random_degree cfg + 1])"

text \<open>The tiny model with one fixed effect: effect 1 is the fixed effect, 2 the fixed
  curve, 3 the additive and 4 the permanent coefficient.\<close>

definition one_effect_config :: config where
  "one_effect_config = tiny_config\<lparr>n_fixed_effects := 1\<rparr>"

section \<open>Properties\<close>

subsection \<open>Index arithmetic\<close>

lemma np_index_nat: "0 \<le> i \<Longrightarrow> i < int n \<Longrightarrow> np_index n i = Some (nat i)"
  by (simp add: np_index_def)

lemma int_div_less:
  assumes "0 < (b::int)" "a < c * b"
  shows "a div b < c"
proof -
  have "b * (a div b) + a mod b = a" by (rule mult_div_mod_eq)
  moreover have "0 \<le> a mod b" using assms(1) by simp
  ultimately have "b * (a div b) \<le> a" by linarith
  then have "b * (a div b) < b * c" using assms(2) by (simp add: mult.commute)
  then show ?thesis using assms(1) by (simp add: mult_less_cancel_left_pos)
qed

lemma lact_trait_ok:
  assumes "0 < number_of_traits cfg"
  shows "lact_trait cfg trait =
         Inr ((trait - 1) div int (number_of_traits cfg), (trait - 1) mod int (number_of_traits cfg))"
  using assms by (simp add: lact_trait_def py_floordiv_def py_mod_def ebind_def)

lemma lact_in_range:
  assumes "1 \<le> trait" "trait \<le> int L * int T"
  shows "0 < T"
    and "0 \<le> (trait - 1) div int T" and "(trait - 1) div int T < int L"
    and "0 \<le> (trait - 1) mod int T" and "(trait - 1) mod int T < int T"
proof -
  show T: "0 < T" using assms by (cases T) auto
  show "0 \<le> (trait - 1) div int T" using assms T by (simp add: pos_imp_zdiv_nonneg_iff)
  have "trait - 1 < int L * int T" using assms by simp
  then show "(trait - 1) div int T < int L" using T by (intro int_div_less) simp_all
  show "0 \<le> (trait - 1) mod int T" using T by simp
  show "(trait - 1) mod int T < int T" using T by simp
qed

subsection \<open>Solution demultiplexer\<close>

text \<open>
  One record inside the tensors the constructor allocates: each effect band gives exactly
  the stated store (or append) and leaves every other field as it was.
\<close>

lemma read_solution_bands:
  fixes cfg :: config and s :: tdm and trait effect level :: int and v :: npf
  assumes sh_f: "shape (fixed_curve_coefficients s) =
                   [lactation_dim cfg, number_of_traits cfg, fixed_degree cfg + 1]"
    and sh_a: "shape (additive_coefficients s) =
                   [lactation_dim cfg, number_of_traits cfg, animal_count cfg, random_degree cfg + 1]"
    and sh_p: "shape (permanent_coefficients s) =
                   [lactation_dim cfg, number_of_traits cfg, animal_count cfg, random_degree cfg + 1]"
  defines "F \<equiv> int (n_fixed_effects cfg)"
    and "fd \<equiv> int (fixed_degree cfg)"
    and "rd \<equiv> int (random_degree cfg)"
    and "l \<equiv> nat ((trait - 1) div int (number_of_traits cfg))"
    and "t \<equiv> nat ((trait - 1) mod int (number_of_traits cfg))"
    and "trait_ok \<equiv> 1 \<le> trait \<and> trait \<le> int (lactation_dim cfg) * int (number_of_traits cfg)"
    and "level_ok \<equiv> 1 \<le> level \<and> level \<le> int (animal_count cfg)"
  shows "(effect \<le> F \<longrightarrow>
            read_solution cfg s (trait, effect, level, v) = Inr (s\<lparr>FE := FE s @ [v]\<rparr>))
       \<and> (F < effect \<and> effect \<le> F + fd + 1 \<and> trait_ok \<longrightarrow>
            read_solution cfg s (trait, effect, level, v) =
              Inr (s\<lparr>fixed_curve_coefficients := (fixed_curve_coefficients s)
                     \<lparr>cells := (cells (fixed_curve_coefficients s))
                        ([l, t, nat (effect - F - 1)] := v)\<rparr>\<rparr>))
       \<and> (F + fd + 1 < effect \<and> effect \<le> F + fd + rd + 2 \<and> trait_ok \<and> level_ok \<longrightarrow>
            read_solution cfg s (trait, effect, level, v) =
              Inr (s\<lparr>additive_coefficients := (additive_coefficients s)
                     \<lparr>cells := (cells (additive_coefficients s))
                        ([l, t, nat (level - 1), nat (effect - F - fd - 2)] := v)\<rparr>\<rparr>))
       \<and> (F + fd + rd + 2 < effect \<and> effect \<le> F + fd + 2 * rd + 3 \<and> trait_ok \<and> level_ok \<longrightarrow>
            read_solution cfg s (trait, effect, level, v) =
              Inr (s\<lparr>permanent_coefficients := (permanent_coefficients s)
                     \<lparr>cells := (cells (permanent_coefficients s))
                        ([l, t, nat (level - 1), nat (effect - F - fd - rd - 3)] := v)\<rparr>\<rparr>))"
proof -
  have idx: "np_index (lactation_dim cfg) ((trait - 1) div int (number_of_traits cfg)) = Some l
           \<and> np_index (number_of_traits cfg) ((trait - 1) mod int (number_of_traits cfg)) = Some t
           \<and> lact_trait cfg trait =
               Inr ((trait - 1) div int (number_of_traits cfg),
                    (trait - 1) mod int (number_of_traits cfg))"
    if "trait_ok"
  proof -
    from that have tr: "1 \<le> trait" "trait \<le> int (lactation_dim cfg) * int (number_of_traits cfg)"
      by (simp_all add: trait_ok_def)
    note lt = lact_in_range[OF tr]
    show ?thesis unfolding l_def t_def using lt
      by (simp add: np_index_nat lact_trait_ok)
  qed
  note defs = read_solution_def ebind_def setitem_def F_def fd_def rd_def level_ok_def
  have c1: "effect \<le> F \<longrightarrow>
            read_solution cfg s (trait, effect, level, v) = Inr (s\<lparr>FE := FE s @ [v]\<rparr>)"
    by (simp add: defs)
  have c2: "F < effect \<and> effect \<le> F + fd + 1 \<and> trait_ok \<longrightarrow>
            read_solution cfg s (trait, effect, level, v) =
              Inr (s\<lparr>fixed_curve_coefficients := (fixed_curve_coefficients s)
                     \<lparr>cells := (cells (fixed_curve_coefficients s))
                        ([l, t, nat (effect - F - 1)] := v)\<rparr>\<rparr>)"
    using idx by (auto simp add: defs sh_f np_index_nat)
  have c3: "F + fd + 1 < effect \<and> effect \<le> F + fd + rd + 2 \<and> trait_ok \<and> level_ok \<longrightarrow>
            read_solution cfg s (trait, effect, level, v) =
              Inr (s\<lparr>additive_coefficients := (additive_coefficients s)
                     \<lparr>cells := (cells (additive_coefficients s))
                        ([l, t, nat (level - 1), nat (effect - F - fd - 2)] := v)\<rparr>\<rparr>)"
    using idx by (auto simp add: defs sh_a np_index_nat)
  have c4: "F + fd + rd + 2 < effect \<and> effect \<le> F + fd + 2 * rd + 3 \<and> trait_ok \<and> level_ok \<longrightarrow>
            read_solution cfg s (trait, effect, level, v) =
              Inr (s\<lparr>permanent_coefficients := (permanent_coefficients s)
                     \<lparr>cells := (cells (permanent_coefficients s))
                        ([l, t, nat (level - 1), nat (effect - F - fd - rd - 3)] := v)\<rparr>\<rparr>)"
    using idx by (auto simp add: defs sh_p np_index_nat)
  from c1 c2 c3 c4 show ?thesis by blast
qed

text \<open>Beyond the last band the store is attempted at the same place and numpy rejects it.\<close>

lemma read_solution_beyond_layout:
  assumes "shape (permanent_coefficients s) =
             [lactation_dim cfg, number_of_traits cfg, animal_count cfg, random_degree cfg + 1]"
    and "int (n_fixed_effects cfg) + int (fixed_degree cfg) + 2 * int (random_degree cfg) + 3 < effect"
    and "0 < number_of_traits cfg"
  shows "read_solution cfg s (trait, effect, level, v) = Inl IndexError"
  using assms
  by (auto simp add: read_solution_def ebind_def setitem_def lact_trait_ok np_index_def
           split: option.splits)

lemma read_solution_deliver:
  assumes sh: "coefficient_shapes cfg s" and lay: "in_layout cfg rec"
  shows "read_solution cfg s rec = Inr (deliver cfg s rec)"
proof -
  obtain trait effect level v where rec: "rec = (trait, effect, level, v)"
    by (cases rec) auto
  let ?F = "int (n_fixed_effects cfg)" and ?fd = "int (fixed_degree cfg)"
  let ?rd = "int (random_degree cfg)"
  have shs: "shape (fixed_curve_coefficients s) =
        [lactation_dim cfg, number_of_traits cfg, fixed_degree cfg + 1]"
    "shape (additive_coefficients s) =
        [lactation_dim cfg, number_of_traits cfg, animal_count cfg, random_degree cfg + 1]"
    "shape (permanent_coefficients s) =
        [lactation_dim cfg, number_of_traits cfg, animal_count cfg, random_degree cfg + 1]"
    using sh by (simp_all add: coefficient_shapes_def)
  note bands = read_solution_bands[OF shs, where trait = trait and effect = effect
      and level = level and v = v]
  have top: "effect \<le> ?F + ?fd + 2 * ?rd + 3"
    and tr: "?F < effect \<Longrightarrow>
               1 \<le> trait \<and> trait \<le> int (lactation_dim cfg) * int (number_of_traits cfg)"
    and lv: "?F + ?fd + 1 < effect \<Longrightarrow> 1 \<le> level \<and> level \<le> int (animal_count cfg)"
    using lay by (simp_all add: in_layout_def rec Let_def)
  consider (fe) "effect \<le> ?F"
    | (fc) "?F < effect" "effect \<le> ?F + ?fd + 1"
    | (ad) "?F + ?fd + 1 < effect" "effect \<le> ?F + ?fd + ?rd + 2"
    | (pe) "?F + ?fd + ?rd + 2 < effect"
    by linarith
  then show ?thesis
  proof cases
    case fe
    then show ?thesis using bands
      by (simp add: rec deliver_def destination_of_def Let_def)
  next
    case fc
    then have "read_solution cfg s (trait, effect, level, v) =
              Inr (s\<lparr>fixed_curve_coefficients := (fixed_curve_coefficients s)
                     \<lparr>cells := (cells (fixed_curve_coefficients s))
                        ([nat ((trait - 1) div int (number_of_traits cfg)),
                          nat ((trait - 1) mod int (number_of_traits cfg)),
                          nat (effect - ?F - 1)] := v)\<rparr>\<rparr>)"
      using bands tr by blast
    then show ?thesis using fc
      by (simp add: rec deliver_def destination_of_def Let_def)
  next
    case ad
    then have "?F < effect" by linarith
    then have "read_solution cfg s (trait, effect, level, v) =
              Inr (s\<lparr>additive_coefficients := (additive_coefficients s)
                     \<lparr>cells := (cells (additive_coefficients s))
                        ([nat ((trait - 1) div int (number_of_traits cfg)),
                          nat ((trait - 1) mod int (number_of_traits cfg)),
                          nat (level - 1), nat (effect - ?F - ?fd - 2)] := v)\<rparr>\<rparr>)"
      using bands tr lv ad by blast
    then show ?thesis using ad
      by (simp add: rec deliver_def destination_of_def Let_def)
  next
    case pe
    then have "?F < effect" "?F + ?fd + 1 < effect" by linarith+
    then have "read_solution cfg s (trait, effect, level, v) =
              Inr (s\<lparr>permanent_coefficients := (permanent_coefficients s)
                     \<lparr>cells := (cells (permanent_coefficients s))
                        ([nat ((trait - 1) div int (number_of_traits cfg)),
                          nat ((trait - 1) mod int (number_of_traits cfg)),
                          nat (level - 1), nat (effect - ?F - ?fd - ?rd - 3)] := v)\<rparr>\<rparr>)"
      using bands tr lv pe top by blast
    then show ?thesis using pe
      by (simp add: rec deliver_def destination_of_def Let_def)
  qed
qed

lemma coefficient_shapes_deliver:
  "coefficient_shapes cfg s \<Longrightarrow> coefficient_shapes cfg (deliver cfg s rec)"
  by (simp add: coefficient_shapes_def deliver_def Let_def split: destination.splits)

lemma FE_deliver:
  "FE (deliver cfg s rec) =
     (if fst (snd rec) \<le> int (n_fixed_effects cfg) then FE s @ [snd (snd (snd rec))] else FE s)"
  by (cases rec) (simp add: deliver_def destination_of_def Let_def)

lemma FE_foldl_deliver:
  "FE (foldl (deliver cfg) s rs) =
     FE s @ map (\<lambda>r. snd (snd (snd r))) (filter (\<lambda>r. fst (snd r) \<le> int (n_fixed_effects cfg)) rs)"
  by (induction rs arbitrary: s) (simp_all add: FE_deliver)

lemma read_blupf90_solutions_deliver:
  assumes "coefficient_shapes cfg s" "\<forall>r \<in> set rs. in_layout cfg r"
  shows "read_blupf90_solutions cfg s rs = Inr (foldl (deliver cfg) s rs)"
  using assms
proof (induction rs arbitrary: s)
  case Nil
  then show ?case by simp
next
  case (Cons r rs)
  have "read_solution cfg s r = Inr (deliver cfg s r)"
    using Cons.prems by (intro read_solution_deliver) simp_all
  moreover have "read_blupf90_solutions cfg (deliver cfg s r) rs
                 = Inr (foldl (deliver cfg) (deliver cfg s r) rs)"
    using Cons.prems by (intro Cons.IH coefficient_shapes_deliver) simp_all
  ultimately show ?case by (simp add: ebind_def)
qed


lemma deliver_bands:
  "deliver cfg s (trait, effect, level, v) =
     (if effect \<le> int (n_fixed_effects cfg) then s\<lparr>FE := FE s @ [v]\<rparr>
      else if effect \<le> int (n_fixed_effects cfg) + int (fixed_degree cfg) + 1 then
        s\<lparr>fixed_curve_coefficients := (fixed_curve_coefficients s)
            \<lparr>cells := (cells (fixed_curve_coefficients s))
               ([nat ((trait - 1) div int (number_of_traits cfg)),
                 nat ((trait - 1) mod int (number_of_traits cfg)),
                 nat (effect - int (n_fixed_effects cfg) - 1)] := v)\<rparr>\<rparr>
      else if effect \<le> int (n_fixed_effects cfg) + int (fixed_degree cfg)
                          + int (random_degree cfg) + 2 then
        s\<lparr>additive_coefficients := (additive_coefficients s)
            \<lparr>cells := (cells (additive_coefficients s))
               ([nat ((trait - 1) div int (number_of_traits cfg)),
                 nat ((trait - 1) mod int (number_of_traits cfg)),
                 nat (level - 1),
                 nat (effect - int (n_fixed_effects cfg) - int (fixed_degree cfg) - 2)] := v)\<rparr>\<rparr>
      else
        s\<lparr>permanent_coefficients := (permanent_coefficients s)
            \<lparr>cells := (cells (permanent_coefficients s))
               ([nat ((trait - 1) div int (number_of_traits cfg)),
                 nat ((trait - 1) mod int (number_of_traits cfg)),
                 nat (level - 1),
                 nat (effect - int (n_fixed_effects cfg) - int (fixed_degree cfg)
                        - int (random_degree cfg) - 3)] := v)\<rparr>\<rparr>)"
  by (simp add: deliver_def destination_of_def Let_def)

lemma cells_deliver:
  "cells (fixed_curve_coefficients (deliver cfg s r)) idx =
     (if destination_of cfg r = To_fixed_curve idx then snd (snd (snd r))
      else cells (fixed_curve_coefficients s) idx)"
  "cells (additive_coefficients (deliver cfg s r)) idx =
     (if destination_of cfg r = To_additive idx then snd (snd (snd r))
      else cells (additive_coefficients s) idx)"
  "cells (permanent_coefficients (deliver cfg s r)) idx =
     (if destination_of cfg r = To_permanent idx then snd (snd (snd r))
      else cells (permanent_coefficients s) idx)"
  by (auto simp add: deliver_def Let_def split: destination.splits)

lemma cells_foldl_deliver:
  "cells (fixed_curve_coefficients (foldl (deliver cfg) s rs)) idx =
     (case find (\<lambda>r. destination_of cfg r = To_fixed_curve idx) (rev rs) of
        Some r \<Rightarrow> snd (snd (snd r)) | None \<Rightarrow> cells (fixed_curve_coefficients s) idx)"
  "cells (additive_coefficients (foldl (deliver cfg) s rs)) idx =
     (case find (\<lambda>r. destination_of cfg r = To_additive idx) (rev rs) of
        Some r \<Rightarrow> snd (snd (snd r)) | None \<Rightarrow> cells (additive_coefficients s) idx)"
  "cells (permanent_coefficients (foldl (deliver cfg) s rs)) idx =
     (case find (\<lambda>r. destination_of cfg r = To_permanent idx) (rev rs) of
        Some r \<Rightarrow> snd (snd (snd r)) | None \<Rightarrow> cells (permanent_coefficients s) idx)"
  by (induction rs rule: rev_induct) (simp_all add: cells_deliver)

text \<open>
  C1. The demultiplexer routes every record of an in-layout stream to exactly one destination,
  chosen by its effect band.  Started in the tensors the constructor allocates, the loop of
  \<open>__read_blupf90_solutions__\<close> raises on no record of the stream and ends in the state that
  delivering the records one after the other, in stream order, gives.  Delivering the record
  (trait, effect, level, value) changes one thing only: with F fixed effects, effect \<le> F appends
  the value to FE; F < effect \<le> F + fixed_degree + 1 stores it in the fixed-curve tensor at
  [(trait - 1) div T, (trait - 1) mod T, effect - F - 1]; the next band, up to
  F + fixed_degree + random_degree + 2, stores it in the additive tensor at
  [(trait - 1) div T, (trait - 1) mod T, level - 1, effect - F - fixed_degree - 2]; any other
  effect stores it in the permanent tensor at
  [(trait - 1) div T, (trait - 1) mod T, level - 1, effect - F - fixed_degree - random_degree - 3].
  So after the stream FE is the old FE followed by the values of the fixed-effect records in
  stream order, and a cell of a coefficient tensor holds the value of the last record routed to
  it, or what it held before when no record is.
\<close>

theorem read_blupf90_solutions_routes_by_effect_band:
  fixes cfg :: config and s :: tdm and rs :: "solution list"
  assumes sh: "coefficient_shapes cfg s"
    and lay: "\<forall>r \<in> set rs. in_layout cfg r"
  defines "F \<equiv> int (n_fixed_effects cfg)"
    and "fd \<equiv> int (fixed_degree cfg)"
    and "rd \<equiv> int (random_degree cfg)"
    and "l \<equiv> \<lambda>trait :: int. nat ((trait - 1) div int (number_of_traits cfg))"
    and "t \<equiv> \<lambda>trait :: int. nat ((trait - 1) mod int (number_of_traits cfg))"
  shows
    "read_blupf90_solutions cfg s rs = Inr (foldl (deliver cfg) s rs)
     \<and> (\<forall>s0 r. coefficient_shapes cfg s0 \<and> in_layout cfg r \<longrightarrow>
            read_solution cfg s0 r = Inr (deliver cfg s0 r)
            \<and> coefficient_shapes cfg (deliver cfg s0 r))
     \<and> (\<forall>s0 trait effect level v.
          deliver cfg s0 (trait, effect, level, v) =
            (if effect \<le> F then s0\<lparr>FE := FE s0 @ [v]\<rparr>
             else if effect \<le> F + fd + 1 then
               s0\<lparr>fixed_curve_coefficients := (fixed_curve_coefficients s0)
                   \<lparr>cells := (cells (fixed_curve_coefficients s0))
                      ([l trait, t trait, nat (effect - F - 1)] := v)\<rparr>\<rparr>
             else if effect \<le> F + fd + rd + 2 then
               s0\<lparr>additive_coefficients := (additive_coefficients s0)
                   \<lparr>cells := (cells (additive_coefficients s0))
                      ([l trait, t trait, nat (level - 1), nat (effect - F - fd - 2)] := v)\<rparr>\<rparr>
             else
               s0\<lparr>permanent_coefficients := (permanent_coefficients s0)
                   \<lparr>cells := (cells (permanent_coefficients s0))
                      ([l trait, t trait, nat (level - 1),
                        nat (effect - F - fd - rd - 3)] := v)\<rparr>\<rparr>))
     \<and> FE (foldl (deliver cfg) s rs) =
         FE s @ map (\<lambda>r. snd (snd (snd r))) (filter (\<lambda>r. fst (snd r) \<le> F) rs)
     \<and> (\<forall>idx. cells (fixed_curve_coefficients (foldl (deliver cfg) s rs)) idx =
           (case find (\<lambda>r. destination_of cfg r = To_fixed_curve idx) (rev rs) of
              Some r \<Rightarrow> snd (snd (snd r))
            | None \<Rightarrow> cells (fixed_curve_coefficients s) idx))
     \<and> (\<forall>idx. cells (additive_coefficients (foldl (deliver cfg) s rs)) idx =
           (case find (\<lambda>r. destination_of cfg r = To_additive idx) (rev rs) of
              Some r \<Rightarrow> snd (snd (snd r))
            | None \<Rightarrow> cells (additive_coefficients s) idx))
     \<and> (\<forall>idx. cells (permanent_coefficients (foldl (deliver cfg) s rs)) idx =
           (case find (\<lambda>r. destination_of cfg r = To_permanent idx) (rev rs) of
              Some r \<Rightarrow> snd (snd (snd r))
            | None \<Rightarrow> cells (permanent_coefficients s) idx))"
proof -
  have a: "read_blupf90_solutions cfg s rs = Inr (foldl (deliver cfg) s rs)"
    using sh lay by (rule read_blupf90_solutions_deliver)
  have b: "\<forall>s0 r. coefficient_shapes cfg s0 \<and> in_layout cfg r \<longrightarrow>
            read_solution cfg s0 r = Inr (deliver cfg s0 r)
            \<and> coefficient_shapes cfg (deliver cfg s0 r)"
    by (simp add: read_solution_deliver coefficient_shapes_deliver)
  have c: "\<forall>s0 trait effect level v.
          deliver cfg s0 (trait, effect, level, v) =
            (if effect \<le> F then s0\<lparr>FE := FE s0 @ [v]\<rparr>
             else if effect \<le> F + fd + 1 then
               s0\<lparr>fixed_curve_coefficients := (fixed_curve_coefficients s0)
                   \<lparr>cells := (cells (fixed_curve_coefficients s0))
                      ([l trait, t trait, nat (effect - F - 1)] := v)\<rparr>\<rparr>
             else if effect \<le> F + fd + rd + 2 then
               s0\<lparr>additive_coefficients := (additive_coefficients s0)
                   \<lparr>cells := (cells (additive_coefficients s0))
                      ([l trait, t trait, nat (level - 1), nat (effect - F - fd - 2)] := v)\<rparr>\<rparr>
             else
               s0\<lparr>permanent_coefficients := (permanent_coefficients s0)
                   \<lparr>cells := (cells (permanent_coefficients s0))
                      ([l trait, t trait, nat (level - 1),
                        nat (effect - F - fd - rd - 3)] := v)\<rparr>\<rparr>)"
    unfolding F_def fd_def rd_def l_def t_def by (simp only: deliver_bands) simp
  have d: "FE (foldl (deliver cfg) s rs) =
         FE s @ map (\<lambda>r. snd (snd (snd r))) (filter (\<lambda>r. fst (snd r) \<le> F) rs)"
    unfolding F_def by (rule FE_foldl_deliver)
  show ?thesis
    using a b c d cells_foldl_deliver[of cfg s rs] by (simp only: simp_thms)
qed

text \<open>A stream of five records for one trait, one lactation, one animal, degrees 0 and one
  fixed effect: effects 1, 2, 1, 3, 4.  The two fixed-effect values come out in stream order and
  the three coefficients land in their tensors.\<close>

theorem read_blupf90_solutions_routes_witness:
  "\<exists>s'. read_blupf90_solutions one_effect_config (allocate one_effect_config)
          [(1, 1, 1, Fin 5), (1, 2, 1, Fin 2), (1, 1, 2, Fin 6), (1, 3, 1, Fin 3), (1, 4, 1, Fin 4)]
        = Inr s'
      \<and> FE s' = [Fin 5, Fin 6]
      \<and> cells (fixed_curve_coefficients s') [0, 0, 0] = Fin 2
      \<and> cells (additive_coefficients s') [0, 0, 0, 0] = Fin 3
      \<and> cells (permanent_coefficients s') [0, 0, 0, 0] = Fin 4"
proof -
  let ?rs = "[(1, 1, 1, Fin 5), (1, 2, 1, Fin 2), (1, 1, 2, Fin 6), (1, 3, 1, Fin 3),
              (1, 4, 1, Fin 4)] :: solution list"
  have sh: "coefficient_shapes one_effect_config (allocate one_effect_config)"
    by (simp add: coefficient_shapes_def allocate_def one_effect_config_def tiny_config_def
          np_zeros_def Let_def)
  have lay: "\<forall>r \<in> set ?rs. in_layout one_effect_config r"
    by (simp add: in_layout_def one_effect_config_def tiny_config_def Let_def)
  have fe0: "FE (allocate one_effect_config) = []"
    by (simp add: allocate_def Let_def)
  have dest: "destination_of one_effect_config (1, 1, 1, Fin 5) = To_fixed_effects"
    "destination_of one_effect_config (1, 2, 1, Fin 2) = To_fixed_curve [0, 0, 0]"
    "destination_of one_effect_config (1, 1, 2, Fin 6) = To_fixed_effects"
    "destination_of one_effect_config (1, 3, 1, Fin 3) = To_additive [0, 0, 0, 0]"
    "destination_of one_effect_config (1, 4, 1, Fin 4) = To_permanent [0, 0, 0, 0]"
    by (simp_all add: destination_of_def one_effect_config_def tiny_config_def Let_def)
  have F: "n_fixed_effects one_effect_config = 1"
    by (simp add: one_effect_config_def)
  from read_blupf90_solutions_routes_by_effect_band [OF sh lay]
  show ?thesis
    by (simp add: fe0 dest F del: foldl_Cons)
qed

subsection \<open>Basis builder\<close>



lemma legendre_poly_2: "legendre_poly 2 x = (3 * x\<^sup>2 - 1) / 2"
  by (simp add: numeral_2_eq_2 power2_eq_square)

lemma scale_dim_range_length: "length (scale_dim_range (lo, hi)) = nat (hi - lo + 1)"
  by (simp add: scale_dim_range_def)


lemma scale_dim_range_nth:
  assumes "lo < hi" "r < nat (hi - lo + 1)"
  shows "scale_dim_range (lo, hi) ! r = Fin (grid_point lo hi r)"
proof -
  have "lo + int r \<le> hi" using assms by linarith
  then have "[lo..hi] ! r = lo + int r" by simp
  moreover have "r < length [lo..hi]" using assms by simp
  ultimately show ?thesis using assms(1)
    by (simp add: scale_dim_range_def np_add_def np_div_def grid_point_def)
qed

lemma add_legendre_columns_ok:
  assumes "shape (legendre_coefficients s) = [d, c]"
    and "length (scaled_dim_range s) = d"
    and "\<forall>j \<in> set js. j < c"
  shows "\<exists>a. add_legendre_columns s js = Inr (s\<lparr>legendre_coefficients := a\<rparr>)
           \<and> shape a = [d, c]
           \<and> (\<forall>r k. cells a [r, k] =
                 (if k \<in> set js \<and> r < d
                  then np_mul (legendre k (scaled_dim_range s ! r)) (np_sqrt (Fin (real k + 1 / 2)))
                  else cells (legendre_coefficients s) [r, k]))"
  using assms
proof (induction js arbitrary: s)
  case Nil
  then show ?case by (intro exI[of _ "legendre_coefficients s"]) simp
next
  case (Cons i js)
  let ?vec = "map (\<lambda>x. np_mul (legendre i x) (np_sqrt (Fin (real i + 1 / 2)))) (scaled_dim_range s)"
  let ?a1 = "(legendre_coefficients s)\<lparr>cells := (\<lambda>idx. case idx of
                     [r, k'] \<Rightarrow> if k' = i \<and> r < d then ?vec ! r else cells (legendre_coefficients s) idx
                   | _ \<Rightarrow> cells (legendre_coefficients s) idx)\<rparr>"
  have i: "i < c" using Cons.prems by simp
  have step: "set_column (legendre_coefficients s) (int i) ?vec = Inr ?a1"
    using Cons.prems i by (simp add: set_column_def np_index_def broadcast_def)
  let ?s1 = "s\<lparr>legendre_coefficients := ?a1\<rparr>"
  have "\<exists>a. add_legendre_columns ?s1 js = Inr (?s1\<lparr>legendre_coefficients := a\<rparr>)
           \<and> shape a = [d, c]
           \<and> (\<forall>r k. cells a [r, k] =
                 (if k \<in> set js \<and> r < d
                  then np_mul (legendre k (scaled_dim_range ?s1 ! r)) (np_sqrt (Fin (real k + 1 / 2)))
                  else cells (legendre_coefficients ?s1) [r, k]))"
    using Cons.prems by (intro Cons.IH) simp_all
  then obtain a where a: "add_legendre_columns ?s1 js = Inr (?s1\<lparr>legendre_coefficients := a\<rparr>)"
     "shape a = [d, c]"
     "\<And>r k. cells a [r, k] =
                 (if k \<in> set js \<and> r < d
                  then np_mul (legendre k (scaled_dim_range s ! r)) (np_sqrt (Fin (real k + 1 / 2)))
                  else cells ?a1 [r, k])"
    by auto
  show ?case
  proof (intro exI[of _ a] conjI allI)
    show "add_legendre_columns s (i # js) = Inr (s\<lparr>legendre_coefficients := a\<rparr>)"
      using step a(1) by (simp add: ebind_def)
    show "shape a = [d, c]" by (rule a(2))
    fix r k
    show "cells a [r, k] =
           (if k \<in> set (i # js) \<and> r < d
            then np_mul (legendre k (scaled_dim_range s ! r)) (np_sqrt (Fin (real k + 1 / 2)))
            else cells (legendre_coefficients s) [r, k])"
      using Cons.prems(2) by (simp add: a(3))
  qed
qed

lemma running_sum_length: "length (running_sum acc xs) = length xs"
  by (induction xs arbitrary: acc) simp_all

lemma running_sum_Fin:
  "r < length ys \<Longrightarrow>
   running_sum (Fin a) (map Fin ys) ! r = Fin (a + sum_list (take (Suc r) ys))"
proof (induction ys arbitrary: a r)
  case Nil
  then show ?case by simp
next
  case (Cons y ys)
  show ?case
  proof (cases r)
    case 0
    then show ?thesis by (simp add: np_add_def)
  next
    case (Suc r')
    then have "r' < length ys" using Cons.prems by simp
    from Cons.IH[OF this, of "a + y"] show ?thesis using Suc
      by (simp add: np_add_def add.assoc)
  qed
qed


lemma cumsum_axis0_Fin:
  assumes "shape a = [d, c]" "r < d" "\<forall>i<d. cells a [i, k] = Fin (f i)"
  shows "cells (cumsum_axis0 a) [r, k] = Fin (\<Sum>i\<le>r. f i)"
proof -
  have m: "map (\<lambda>i. cells a [i, k]) [0..<d] = map Fin (map f [0..<d])"
    using assms(3) by simp
  have "cells (cumsum_axis0 a) [r, k] = running_sum (Fin 0) (map Fin (map f [0..<d])) ! r"
    using assms(1) by (simp add: cumsum_axis0_def m del: map_map)
  also have "\<dots> = Fin (0 + sum_list (take (Suc r) (map f [0..<d])))"
    using assms(2) by (intro running_sum_Fin) simp
  also have "take (Suc r) (map f [0..<d]) = map f [0..<Suc r]"
    using assms(2) by (simp add: take_map min_def del: upt_Suc)
  also have "sum_list (map f [0..<Suc r]) = (\<Sum>i\<le>r. f i)"
    by (simp add: interv_sum_list_conv_sum_set_nat atLeast0AtMost atLeastLessThanSuc_atLeastAtMost del: upt_Suc)
  finally show ?thesis by simp
qed

lemma grid_point_mono:
  assumes "lo < hi" "r < r'"
  shows "grid_point lo hi r < grid_point lo hi r'"
  using assms by (simp add: grid_point_def divide_strict_right_mono)

lemma grid_point_ends:
  assumes "lo < hi"
  shows "grid_point lo hi 0 = - 1" "grid_point lo hi (nat (hi - lo)) = 1"
proof -
  show "grid_point lo hi 0 = - 1" by (simp add: grid_point_def)
  have "real (nat (hi - lo)) = real_of_int (hi - lo)" using assms by simp
  moreover have "real_of_int (hi - lo) \<noteq> 0" using assms by simp
  ultimately show "grid_point lo hi (nat (hi - lo)) = 1"
    unfolding grid_point_def by (simp del: of_int_diff)
qed

text \<open>
  C4. For a DIM range \<open>lo < hi\<close> and any degree, the basis builder succeeds; the scaled
  grid has \<open>hi - lo + 1\<close> points, point \<open>r\<close> being the image of \<open>lo + r\<close> under the
  strictly increasing linear map onto [-1, 1] (first point -1, last point 1); column \<open>k\<close>
  of the Legendre table, for every \<open>k\<close> up to the degree, is the Legendre polynomial of
  degree \<open>k\<close> at the grid points times \<open>sqrt (k + 0.5)\<close>; the cumulative table is the
  running sum down each column. The tables are the value of a function of the
  configuration, so they are determined by the range and the degree.
\<close>

theorem basis_builder_tables:
  assumes dr: "dim_range cfg = (lo, hi)" and lt: "lo < hi"
  shows "\<exists>s. build_basis cfg = Inr s
     \<and> length (scaled_dim_range s) = nat (hi - lo + 1)
     \<and> (\<forall>r < nat (hi - lo + 1). scaled_dim_range s ! r = Fin (grid_point lo hi r))
     \<and> grid_point lo hi 0 = - 1 \<and> grid_point lo hi (nat (hi - lo)) = 1
     \<and> (\<forall>r r'. r < r' \<longrightarrow> grid_point lo hi r < grid_point lo hi r')
     \<and> shape (legendre_coefficients s) = [nat (hi - lo + 1), degree cfg + 1]
     \<and> (\<forall>r < nat (hi - lo + 1). \<forall>k \<le> degree cfg.
           cells (legendre_coefficients s) [r, k] =
             Fin (legendre_poly k (grid_point lo hi r) * sqrt (real k + 1 / 2)))
     \<and> (\<forall>r < nat (hi - lo + 1). \<forall>k \<le> degree cfg.
           cells (legendre_partial_sums s) [r, k] =
             Fin (\<Sum>i\<le>r. legendre_poly k (grid_point lo hi i) * sqrt (real k + 1 / 2)))"
proof -
  let ?D = "nat (hi - lo + 1)"
  let ?s0 = "allocate cfg"
  have dc: "dim_count cfg = hi - lo + 1" by (simp add: dim_count_def dr)
  have sc0: "scaled_dim_range ?s0 = scale_dim_range (lo, hi)"
    by (simp add: allocate_def Let_def dr)
  have sh0: "shape (legendre_coefficients ?s0) = [?D, degree cfg + 1]"
    by (simp add: allocate_def Let_def np_zeros_def dc)
  have len0: "length (scaled_dim_range ?s0) = ?D"
    by (simp add: sc0 scale_dim_range_length)
  have "\<forall>j \<in> set [0..<degree cfg + 1]. j < degree cfg + 1" by simp
  from add_legendre_columns_ok[OF sh0 len0 this]
  obtain a where a: "add_legendre_coefficients cfg ?s0 = Inr (?s0\<lparr>legendre_coefficients := a\<rparr>)"
    "shape a = [?D, degree cfg + 1]"
    "\<And>r k. cells a [r, k] =
        (if k \<in> set [0..<degree cfg + 1] \<and> r < ?D
         then np_mul (legendre k (scaled_dim_range ?s0 ! r)) (np_sqrt (Fin (real k + 1 / 2)))
         else cells (legendre_coefficients ?s0) [r, k])"
    unfolding add_legendre_coefficients_def by blast
  have cell: "cells a [r, k] = Fin (legendre_poly k (grid_point lo hi r) * sqrt (real k + 1 / 2))"
    if "r < ?D" "k \<le> degree cfg" for r k
    using that lt
    by (simp add: a(3) sc0 scale_dim_range_nth legendre_def np_mul_def np_sqrt_def)
  let ?ps = "cumsum_axis0 a"
  have shps: "shape ?ps = [?D, degree cfg + 1]" using a(2) by (simp add: cumsum_axis0_def)
  have rdle: "random_degree cfg + 1 \<le> degree cfg + 1" by (simp add: degree_def)
  obtain rc where rc: "take_columns a (Suc (random_degree cfg)) = Inr rc"
    using a(2) rdle by (simp add: take_columns_def)
  obtain rs where rs: "take_columns ?ps (Suc (random_degree cfg)) = Inr rs"
    using shps rdle by (simp add: take_columns_def)
  let ?s = "?s0\<lparr>legendre_coefficients := a, legendre_random_coefficients := rc,
               legendre_partial_sums := ?ps, legendre_random_sums := rs\<rparr>"
  have bb: "build_basis cfg = Inr ?s"
    using lt by (simp add: build_basis_def dc a(1) rc rs ebind_def Let_def)
  have psum: "cells ?ps [r, k] =
                Fin (\<Sum>i\<le>r. legendre_poly k (grid_point lo hi i) * sqrt (real k + 1 / 2))"
    if "r < ?D" "k \<le> degree cfg" for r k
    using a(2) that(1) by (rule cumsum_axis0_Fin) (simp add: cell that(2))
  show ?thesis
  proof (intro exI[of _ ?s] conjI allI impI)
    show "build_basis cfg = Inr ?s" by (rule bb)
    show "length (scaled_dim_range ?s) = ?D" using len0 by simp
    show "scaled_dim_range ?s ! r = Fin (grid_point lo hi r)" if "r < ?D" for r
      using that lt by (simp add: sc0 scale_dim_range_nth)
    show "grid_point lo hi 0 = - 1" "grid_point lo hi (nat (hi - lo)) = 1"
      using grid_point_ends[OF lt] by simp_all
    show "grid_point lo hi r < grid_point lo hi r'" if "r < r'" for r r'
      using lt that by (rule grid_point_mono)
    show "shape (legendre_coefficients ?s) = [?D, degree cfg + 1]" using a(2) by simp
    show "cells (legendre_coefficients ?s) [r, k] =
            Fin (legendre_poly k (grid_point lo hi r) * sqrt (real k + 1 / 2))"
      if "r < ?D" "k \<le> degree cfg" for r k
      using cell[OF that] by simp
    show "cells (legendre_partial_sums ?s) [r, k] =
            Fin (\<Sum>i\<le>r. legendre_poly k (grid_point lo hi i) * sqrt (real k + 1 / 2))"
      if "r < ?D" "k \<le> degree cfg" for r k
      using psum[OF that] by simp
  qed
qed

text \<open>The scenario of the specification: degree 0 and range (5, 6) give the grid [-1, 1],
  the Legendre column [sqrt 0.5, sqrt 0.5] and its running sum.\<close>

theorem basis_builder_scenario:
  "\<exists>s. build_basis tiny_config = Inr s
     \<and> scaled_dim_range s = [Fin (- 1), Fin 1]
     \<and> shape (legendre_coefficients s) = [2, 1]
     \<and> cells (legendre_coefficients s) [0, 0] = Fin (sqrt (1 / 2))
     \<and> cells (legendre_coefficients s) [1, 0] = Fin (sqrt (1 / 2))
     \<and> cells (legendre_partial_sums s) [0, 0] = Fin (sqrt (1 / 2))
     \<and> cells (legendre_partial_sums s) [1, 0] = Fin (2 * sqrt (1 / 2))"
proof -
  have dr: "dim_range tiny_config = (5, 6)" by (simp add: tiny_config_def)
  have dg: "degree tiny_config = 0" by (simp add: tiny_config_def degree_def)
  from basis_builder_tables[OF dr] obtain s where s:
    "build_basis tiny_config = Inr s"
    "length (scaled_dim_range s) = 2"
    "\<forall>r < 2. scaled_dim_range s ! r = Fin (grid_point 5 6 r)"
    "shape (legendre_coefficients s) = [2, 1]"
    "\<forall>r < 2. \<forall>k \<le> 0. cells (legendre_coefficients s) [r, k] =
             Fin (legendre_poly k (grid_point 5 6 r) * sqrt (real k + 1 / 2))"
    "\<forall>r < 2. \<forall>k \<le> 0. cells (legendre_partial_sums s) [r, k] =
             Fin (\<Sum>i\<le>r. legendre_poly k (grid_point 5 6 i) * sqrt (real k + 1 / 2))"
    by (auto simp add: dg)
  have g: "scaled_dim_range s ! 0 = Fin (- 1)" "scaled_dim_range s ! 1 = Fin 1"
    using s(3) by (simp_all add: grid_point_def)
  obtain x y where xy: "scaled_dim_range s = [x, y]"
    using s(2) by (cases "scaled_dim_range s"; cases "tl (scaled_dim_range s)") auto
  have "scaled_dim_range s = [Fin (- 1), Fin 1]" using g xy by simp
  moreover have "cells (legendre_coefficients s) [0, 0] = Fin (sqrt (1 / 2))"
      "cells (legendre_coefficients s) [1, 0] = Fin (sqrt (1 / 2))"
    using s(5) by simp_all
  moreover have "cells (legendre_partial_sums s) [0, 0] = Fin (sqrt (1 / 2))"
      "cells (legendre_partial_sums s) [1, 0] = Fin (2 * sqrt (1 / 2))"
    using s(6) by (simp_all add: atMost_Suc)
  ultimately show ?thesis using s(1,4) by blast
qed

subsection \<open>PEV-PEC reader\<close>

lemma packed_index_Suc: "packed_index (Suc i) 0 = packed_index i i + 1"
proof -
  have "Suc i * (Suc i + 1) = 2 * (i + 1) + i * (i + 1)" by simp
  then have "Suc i * (Suc i + 1) div 2 = (i + 1) + i * (i + 1) div 2"
    by (simp only: div_mult_self4[of 2 "i + 1" "i * (i + 1)"])
  then show ?thesis by (simp add: packed_index_def)
qed

lemma packed_index_col: "packed_index i j = packed_index i 0 + j"
  by (simp add: packed_index_def)

lemma packed_index_row_mono: "i \<le> i' \<Longrightarrow> packed_index i 0 \<le> packed_index i' 0"
proof (induction i' arbitrary: i)
  case 0
  then show ?case by simp
next
  case (Suc i')
  show ?case
  proof (cases "i = Suc i'")
    case True
    then show ?thesis by simp
  next
    case False
    then have "i \<le> i'" using Suc.prems by simp
    from Suc.IH[OF this] show ?thesis
      by (simp add: packed_index_Suc packed_index_col[of i' i'])
  qed
qed

lemma packed_index_row_less:
  assumes "j \<le> i" "i < i'"
  shows "packed_index i j < packed_index i' 0"
proof -
  have "packed_index i j \<le> packed_index i i" using assms(1) by (simp add: packed_index_def)
  also have "\<dots> < packed_index (Suc i) 0" by (simp add: packed_index_Suc)
  also have "\<dots> \<le> packed_index i' 0" using assms(2) by (intro packed_index_row_mono) simp
  finally show ?thesis .
qed

lemma packed_index_inj:
  assumes "j \<le> i" "j' \<le> i'" "packed_index i j = packed_index i' j'"
  shows "i = i' \<and> j = j'"
proof -
  have "\<not> i < i'"
  proof
    assume "i < i'"
    from packed_index_row_less[OF assms(1) this] show False
      using assms(3) by (simp add: packed_index_col[of i' j'])
  qed
  moreover have "\<not> i' < i"
  proof
    assume "i' < i"
    from packed_index_row_less[OF assms(2) this] show False
      using assms(3) by (simp add: packed_index_col[of i j])
  qed
  ultimately have "i = i'" by simp
  then show ?thesis using assms(3) by (simp add: packed_index_def)
qed

lemma stored_Nil: "stored a k row col [] = cells a"
proof (rule ext)
  fix idx
  have aux: "\<And>p q::nat. (q \<le> p \<and> p < q) = False" by auto
  show "stored a k row col [] idx = cells a idx"
    by (simp add: stored_def aux split: list.splits)
qed

lemma stored_step:
  assumes cr: "col \<le> row" and c': "col' \<le> row'"
    and nxt: "packed_index row' col' = packed_index row col + 1"
    and a1: "cells a1 = (cells a)([k, row, col] := e)"
  shows "stored a1 k row' col' es = stored a k row col (e # es)"
proof (rule ext)
  fix idx
  have upd: "cells a1 idx = (if idx = [k, row, col] then e else cells a idx)"
    by (simp add: a1)
  consider (tri) i j where "idx = [k, i, j]" "j \<le> i"
    | (other) "\<forall>i j. j \<le> i \<longrightarrow> idx \<noteq> [k, i, j]" by blast
  then show "stored a1 k row' col' es idx = stored a k row col (e # es) idx"
  proof cases
    case tri
    let ?p = "packed_index i j" and ?q = "packed_index row col"
    have L: "stored a1 k row' col' es idx =
             (if ?q + 1 \<le> ?p \<and> ?p < ?q + 1 + length es then es ! (?p - (?q + 1))
              else cells a1 idx)"
      using tri by (simp add: stored_def nxt)
    have R: "stored a k row col (e # es) idx =
             (if ?q \<le> ?p \<and> ?p < ?q + 1 + length es then (e # es) ! (?p - ?q)
              else cells a idx)"
      using tri by (simp add: stored_def)
    consider "?p < ?q" | "?p = ?q" | "?q < ?p" by linarith
    then show ?thesis
    proof cases
      case 1
      then have "idx \<noteq> [k, row, col]" using tri(1) by auto
      then show ?thesis unfolding L R upd using 1 by simp
    next
      case 2
      then have "i = row \<and> j = col" using packed_index_inj[OF tri(2) cr] by simp
      then have "idx = [k, row, col]" using tri(1) by simp
      then show ?thesis unfolding L R upd using 2 by simp
    next
      case 3
      then have ne: "idx \<noteq> [k, row, col]" using tri(1) by auto
      have "(e # es) ! (?p - ?q) = es ! (?p - (?q + 1))" using 3 by (simp add: nth_Cons')
      then show ?thesis unfolding L R upd using 3 ne by simp
    qed
  next
    case other
    then have ne: "idx \<noteq> [k, row, col]" using cr by blast
    have "stored a1 k row' col' es idx = cells a1 idx"
      using other by (simp add: stored_def split: list.splits)
    moreover have "stored a k row col (e # es) idx = cells a idx"
      using other by (simp add: stored_def split: list.splits)
    ultimately show ?thesis using ne by (simp add: upd)
  qed
qed

lemma store_triangle_ok:
  assumes "shape a = [n, m, m]" "np_index n animal = Some k" "col \<le> row"
    and "packed_index row col + length elems \<le> packed_index m 0"
  shows "store_triangle a animal row col elems = Inr (a\<lparr>cells := stored a k row col elems\<rparr>)"
  using assms
proof (induction elems arbitrary: a row col)
  case Nil
  then show ?case by (simp add: stored_Nil)
next
  case (Cons e es)
  have row: "row < m"
  proof (rule ccontr)
    assume "\<not> row < m"
    then have "packed_index m 0 \<le> packed_index row 0" by (intro packed_index_row_mono) simp
    then show False using Cons.prems(4) by (simp add: packed_index_col[of row col])
  qed
  let ?a1 = "a\<lparr>cells := (cells a)([k, row, col] := e)\<rparr>"
  have set: "setitem a [animal, int row, int col] e = Inr ?a1"
    using Cons.prems(1-3) row by (simp add: setitem_def np_index_nat)
  have sh1: "shape ?a1 = [n, m, m]" using Cons.prems(1) by simp
  show ?case
  proof (cases "col = row")
    case True
    have nxt: "packed_index (row + 1) 0 = packed_index row col + 1"
      using True by (simp add: packed_index_Suc)
    have "store_triangle ?a1 animal (row + 1) 0 es = Inr (?a1\<lparr>cells := stored ?a1 k (row + 1) 0 es\<rparr>)"
      using Cons.prems(4) nxt by (intro Cons.IH[OF sh1 Cons.prems(2)]) simp_all
    moreover have "stored ?a1 k (row + 1) 0 es = stored a k row col (e # es)"
      using Cons.prems(3) nxt by (intro stored_step) simp_all
    ultimately show ?thesis using set True by (simp add: ebind_def)
  next
    case False
    then have lt: "col + 1 \<le> row" using Cons.prems(3) by simp
    have nxt: "packed_index row (col + 1) = packed_index row col + 1"
      by (simp add: packed_index_def)
    have "store_triangle ?a1 animal row (col + 1) es = Inr (?a1\<lparr>cells := stored ?a1 k row (col + 1) es\<rparr>)"
      using Cons.prems(4) nxt lt by (intro Cons.IH[OF sh1 Cons.prems(2)]) simp_all
    moreover have "stored ?a1 k row (col + 1) es = stored a k row col (e # es)"
      using Cons.prems(3) nxt lt by (intro stored_step) simp_all
    ultimately show ?thesis using set False by (simp add: ebind_def)
  qed
qed

lemma np_add_commute: "np_add a b = np_add b a"
  by (cases a; cases b) (simp_all add: np_add_def)

lemma np_add_zero_right: "np_add a (Fin 0) = a"
  by (cases a) (simp_all add: np_add_def)

lemma np_add_zero_left: "np_add (Fin 0) a = a"
  by (cases a) (simp_all add: np_add_def)

lemma np_halve_double: "np_div (np_add a a) (Fin 2) = a"
  by (cases a) (simp_all add: np_add_def np_div_def is_pos_def)

lemma not_triple_case:
  assumes "\<And>a b c. idx \<noteq> [a, b, c]"
  shows "(case idx of [] \<Rightarrow> g | [a] \<Rightarrow> g | [a, b] \<Rightarrow> g | [a, b, c] \<Rightarrow> f a b c | _ \<Rightarrow> g) = g"
  using assms by (simp split: list.splits)

lemma triple_or_not:
  obtains (triple) a b c where "idx = [a, b, c]" | (other) "\<And>a b c. idx \<noteq> [a, b, c]"
  by blast

lemma add_transpose_cells_other:
  "(\<And>a b c. idx \<noteq> [a, b, c]) \<Longrightarrow> add_transpose_cells f k m idx = f idx"
  unfolding add_transpose_cells_def by (rule not_triple_case)

lemma halve_diagonal_cells_other:
  "(\<And>a b c. idx \<noteq> [a, b, c]) \<Longrightarrow> halve_diagonal_cells f k m idx = f idx"
  unfolding halve_diagonal_cells_def by (rule not_triple_case)

lemma symmetrized_other:
  "(\<And>a b c. idx \<noteq> [a, b, c]) \<Longrightarrow> symmetrized old f k m idx = old idx"
  unfolding symmetrized_def by (rule not_triple_case)

lemma stored_other:
  "(\<And>a b c. idx \<noteq> [a, b, c]) \<Longrightarrow> stored a k row col elems idx = cells a idx"
  unfolding stored_def by (rule not_triple_case)

lemma add_transpose_cells_triple:
  "add_transpose_cells f k m [k', i, j] =
     (if k' = k \<and> i < m \<and> j < m then np_add (f [k, i, j]) (f [k, j, i]) else f [k', i, j])"
  by (simp add: add_transpose_cells_def)

lemma halve_diagonal_cells_triple:
  "halve_diagonal_cells f k m [k', i, j] =
     (if k' = k \<and> i = j \<and> i < m then np_div (f [k, i, i]) (Fin 2) else f [k', i, j])"
  by (simp add: halve_diagonal_cells_def)

lemma symmetrized_triple:
  "symmetrized old f k m [k', i, j] =
     (if k' = k \<and> i < m \<and> j < m
      then (if i = j then f [k, i, i] else np_add (f [k, i, j]) (f [k, j, i]))
      else old [k', i, j])"
  by (simp add: symmetrized_def)

lemma stored_triple:
  "stored a k row col elems [k', i, j] =
     (if k' = k \<and> j \<le> i \<and> packed_index row col \<le> packed_index i j
         \<and> packed_index i j < packed_index row col + length elems
      then elems ! (packed_index i j - packed_index row col)
      else cells a [k', i, j])"
  by (simp add: stored_def)

lemma symmetrize_ok:
  assumes sh: "shape a = [n, m, m]" and k: "np_index n animal = Some k"
  shows "ebind (add_transpose a animal) (\<lambda>a2. halve_diagonal a2 animal)
         = Inr (a\<lparr>cells := symmetrized (cells a) (cells a) k m\<rparr>)"
proof -
  have "halve_diagonal_cells (add_transpose_cells (cells a) k m) k m
        = symmetrized (cells a) (cells a) k m"
  proof (rule ext)
    fix idx
    show "halve_diagonal_cells (add_transpose_cells (cells a) k m) k m idx
          = symmetrized (cells a) (cells a) k m idx"
    proof (cases idx rule: triple_or_not)
      case (triple k' i j)
      then show ?thesis
        by (simp add: halve_diagonal_cells_triple add_transpose_cells_triple symmetrized_triple
              np_halve_double)
    next
      case other
      then show ?thesis
        by (simp add: halve_diagonal_cells_other add_transpose_cells_other symmetrized_other)
    qed
  qed
  then show ?thesis using sh k
    by (simp add: add_transpose_def halve_diagonal_def ebind_def)
qed

lemma stored_outside:
  assumes "\<And>i j. idx = [k, i, j] \<Longrightarrow> j \<le> i \<Longrightarrow> m \<le> i"
    and "packed_index row col + length elems \<le> packed_index m 0"
  shows "stored a k row col elems idx = cells a idx"
proof (cases idx rule: triple_or_not)
  case (triple k' i j)
  show ?thesis
  proof (cases "k' = k \<and> j \<le> i")
    case True
    then have "m \<le> i" using assms(1) triple by simp
    then have "packed_index m 0 \<le> packed_index i 0" by (rule packed_index_row_mono)
    then have "\<not> packed_index i j < packed_index row col + length elems"
      using assms(2) by (simp add: packed_index_col[of i j])
    then show ?thesis unfolding triple stored_triple by simp
  next
    case False
    then show ?thesis unfolding triple stored_triple by auto
  qed
next
  case other
  then show ?thesis by (rule stored_other)
qed

lemma symmetrized_old_cong:
  assumes "(\<And>i j. idx = [k, i, j] \<Longrightarrow> i < m \<Longrightarrow> j < m \<Longrightarrow> False) \<Longrightarrow> old idx = old' idx"
  shows "symmetrized old f k m idx = symmetrized old' f k m idx"
proof (cases idx rule: triple_or_not)
  case (triple k' i j)
  show ?thesis
  proof (cases "k' = k \<and> i < m \<and> j < m")
    case True
    then show ?thesis unfolding triple symmetrized_triple by simp
  next
    case False
    then have "old idx = old' idx" using triple by (intro assms) auto
    then show ?thesis using False unfolding triple symmetrized_triple by auto
  qed
next
  case other
  have "old idx = old' idx"
  proof (rule assms)
    fix i j
    assume "idx = [k, i, j]"
    then show False using other[of k i j] by simp
  qed
  then show ?thesis using other by (simp add: symmetrized_other)
qed

lemma read_pev_pec_line_ok:
  assumes sh: "shape a = [n, m, m]" and wf: "well_formed_line n m (number, elems)"
  shows "read_pev_pec_line a (number, elems)
         = Inr (a\<lparr>cells := symmetrized (cells a) (stored a (nat (number - 1)) 0 0 elems)
                              (nat (number - 1)) m\<rparr>)"
proof -
  let ?k = "nat (number - 1)"
  have k: "np_index n (number - 1) = Some ?k"
    using wf by (simp add: well_formed_line_def np_index_def)
  have len: "packed_index 0 0 + length elems \<le> packed_index m 0"
    using wf by (simp add: well_formed_line_def packed_index_def)
  let ?a1 = "a\<lparr>cells := stored a ?k 0 0 elems\<rparr>"
  have st: "store_triangle a (number - 1) 0 0 elems = Inr ?a1"
    using sh k _ len by (rule store_triangle_ok) simp
  have sh1: "shape ?a1 = [n, m, m]" using sh by simp
  have "ebind (add_transpose ?a1 (number - 1)) (\<lambda>a2. halve_diagonal a2 (number - 1))
        = Inr (?a1\<lparr>cells := symmetrized (cells ?a1) (cells ?a1) ?k m\<rparr>)"
    using sh1 k by (rule symmetrize_ok)
  moreover have "symmetrized (stored a ?k 0 0 elems) (stored a ?k 0 0 elems) ?k m
               = symmetrized (cells a) (stored a ?k 0 0 elems) ?k m"
  proof (rule ext)
    fix idx
    show "symmetrized (stored a ?k 0 0 elems) (stored a ?k 0 0 elems) ?k m idx
        = symmetrized (cells a) (stored a ?k 0 0 elems) ?k m idx"
    proof (rule symmetrized_old_cong)
      assume out: "\<And>i j. idx = [?k, i, j] \<Longrightarrow> i < m \<Longrightarrow> j < m \<Longrightarrow> False"
      show "stored a ?k 0 0 elems idx = cells a idx"
      proof (rule stored_outside[OF _ len])
        fix i j
        assume "idx = [?k, i, j]" "j \<le> i"
        then show "m \<le> i" using out[of i j] by (cases "i < m") simp_all
      qed
    qed
  qed
  ultimately show ?thesis using st by (simp add: read_pev_pec_line_def ebind_def Let_def)
qed

lemma store_triangle_frame:
  assumes "store_triangle a animal row col elems = Inr a1" "shape a = [n, m, m]"
  shows "shape a1 = [n, m, m]
       \<and> (\<forall>k. np_index n animal = Some k \<longrightarrow>
             (\<forall>k' i j. k' \<noteq> k \<longrightarrow> cells a1 [k', i, j] = cells a [k', i, j]))"
  using assms
proof (induction elems arbitrary: a row col)
  case Nil
  then show ?case by simp
next
  case (Cons e es)
  from Cons.prems(1) obtain a' where a': "setitem a [animal, int row, int col] e = Inr a'"
    by (cases "setitem a [animal, int row, int col] e") (simp_all add: ebind_def)
  then obtain k r c where krc: "np_index n animal = Some k"
      "a' = a\<lparr>cells := (cells a)([k, r, c] := e)\<rparr>"
    using Cons.prems(2) by (auto simp add: setitem_def split: option.splits)
  have sh': "shape a' = [n, m, m]" using krc(2) Cons.prems(2) by simp
  have rest: "store_triangle a' animal (if col = row then row + 1 else row)
                (if col = row then 0 else col + 1) es = Inr a1"
    using Cons.prems(1) a' by (simp add: ebind_def split: if_splits)
  from Cons.IH[OF rest sh'] have ih: "shape a1 = [n, m, m]"
    "\<And>k' i j. k' \<noteq> k \<Longrightarrow> cells a1 [k', i, j] = cells a' [k', i, j]"
    using krc(1) by simp_all
  show ?case using ih krc by simp
qed

lemma read_pev_pec_line_symmetric:
  assumes "read_pev_pec_line a line = Inr a'" "all_symmetric a"
  shows "all_symmetric a'"
proof -
  obtain number elems where line: "line = (number, elems)" by (cases line)
  obtain n m where sh: "shape a = [n, m, m]"
    and sym: "\<And>k i j. k < n \<Longrightarrow> i < m \<Longrightarrow> j < m \<Longrightarrow> cells a [k, i, j] = cells a [k, j, i]"
    using assms(2) by (auto simp add: all_symmetric_def split: list.splits)
  from assms(1) obtain a1 where a1: "store_triangle a (number - 1) 0 0 elems = Inr a1"
    and rest: "ebind (add_transpose a1 (number - 1)) (\<lambda>a2. halve_diagonal a2 (number - 1)) = Inr a'"
    unfolding line read_pev_pec_line_def
    by (cases "store_triangle a (number - 1) 0 0 elems") (simp_all add: ebind_def Let_def)
  note fr = store_triangle_frame[OF a1 sh]
  have sh1: "shape a1 = [n, m, m]" using fr by simp
  obtain k where k: "np_index n (number - 1) = Some k"
    using rest sh1 by (cases "np_index n (number - 1)") (simp_all add: add_transpose_def ebind_def)
  have a': "a' = a1\<lparr>cells := symmetrized (cells a1) (cells a1) k m\<rparr>"
    using rest symmetrize_ok[OF sh1 k] by simp
  have "cells a' [k', i, j] = cells a' [k', j, i]" if "k' < n" "i < m" "j < m" for k' i j
  proof (cases "k' = k")
    case True
    then show ?thesis using that
      by (simp add: a' symmetrized_triple np_add_commute[of "cells a1 [k, i, j]"])
  next
    case False
    then have "cells a1 [k', i, j] = cells a [k', i, j]" "cells a1 [k', j, i] = cells a [k', j, i]"
      using fr k by simp_all
    then show ?thesis using False that sym by (simp add: a' symmetrized_triple)
  qed
  then show ?thesis using sh1 by (simp add: all_symmetric_def a')
qed

lemma read_pev_pec_lines_symmetric:
  assumes "read_pev_pec_lines a lines = Inr a'" "all_symmetric a"
  shows "all_symmetric a'"
  using assms
proof (induction lines arbitrary: a)
  case Nil
  then show ?case by simp
next
  case (Cons line lines)
  from Cons.prems(1) obtain a1 where a1: "read_pev_pec_line a line = Inr a1"
      and rest: "read_pev_pec_lines a1 lines = Inr a'"
    by (cases "read_pev_pec_line a line") (simp_all add: ebind_def)
  from read_pev_pec_line_symmetric[OF a1 Cons.prems(2)] have "all_symmetric a1" .
  from Cons.IH[OF rest this] show ?case .
qed

lemma read_pev_pec_lines_ok:
  assumes "shape a = [n, m, m]" "\<forall>line \<in> set lines. well_formed_line n m line"
  shows "\<exists>a'. read_pev_pec_lines a lines = Inr a' \<and> shape a' = [n, m, m]"
  using assms
proof (induction lines arbitrary: a)
  case Nil
  then show ?case by simp
next
  case (Cons line lines)
  obtain number elems where line: "line = (number, elems)" by (cases line)
  have wf: "well_formed_line n m (number, elems)" using Cons.prems(2) line by simp
  note ok = read_pev_pec_line_ok[OF Cons.prems(1) wf]
  let ?a1 = "a\<lparr>cells := symmetrized (cells a) (stored a (nat (number - 1)) 0 0 elems)
                              (nat (number - 1)) m\<rparr>"
  have "shape ?a1 = [n, m, m]" using Cons.prems(1) by simp
  from Cons.IH[OF this] Cons.prems(2) obtain a' where
    "read_pev_pec_lines ?a1 lines = Inr a'" "shape a' = [n, m, m]" by auto
  then show ?case using ok line by (simp add: ebind_def)
qed

lemma all_symmetric_zeros: "all_symmetric (np_zeros [n, m, m])"
  by (simp add: all_symmetric_def np_zeros_def)

text \<open>
  C5. After the PEV-PEC file is read (each line stored into the lower triangle of its
  animal's matrix, the transpose added, the diagonal halved), every animal's matrix equals
  its own transpose, whatever the lines hold; and the read does succeed when every line
  names an animal of the model and has no more values than the packed triangle.
\<close>

theorem pev_pec_symmetric_after_read:
  assumes "all_symmetric (PEV_PECs s)"
  shows "(\<forall>s'. read_pev_pec s lines = Inr s' \<longrightarrow> all_symmetric (PEV_PECs s'))
       \<and> (\<forall>n m. shape (PEV_PECs s) = [n, m, m] \<and> (\<forall>line \<in> set lines. well_formed_line n m line)
             \<longrightarrow> (\<exists>s'. read_pev_pec s lines = Inr s'))"
proof (intro conjI allI impI)
  fix s'
  assume "read_pev_pec s lines = Inr s'"
  then obtain a' where a': "read_pev_pec_lines (PEV_PECs s) lines = Inr a'" "s' = s\<lparr>PEV_PECs := a'\<rparr>"
    unfolding read_pev_pec_def
    by (cases "read_pev_pec_lines (PEV_PECs s) lines") (auto simp add: ebind_def)
  from read_pev_pec_lines_symmetric[OF a'(1) assms] show "all_symmetric (PEV_PECs s')"
    by (simp add: a'(2))
next
  fix n m
  assume "shape (PEV_PECs s) = [n, m, m] \<and> (\<forall>line \<in> set lines. well_formed_line n m line)"
  then obtain a' where "read_pev_pec_lines (PEV_PECs s) lines = Inr a'"
    using read_pev_pec_lines_ok by blast
  then show "\<exists>s'. read_pev_pec s lines = Inr s'" by (simp add: read_pev_pec_def ebind_def)
qed

theorem pev_pec_symmetric_witness:
  "all_symmetric (PEV_PECs (allocate linear_config))
   \<and> (\<exists>s'. read_pev_pec (allocate linear_config) [(1, [Fin 1, Fin 2, Fin 3])] = Inr s'
          \<and> all_symmetric (PEV_PECs s'))"
proof -
  have sh: "PEV_PECs (allocate linear_config) = np_zeros [1, 2, 2]"
    by (simp add: allocate_def linear_config_def Let_def numeral_2_eq_2)
  have sym: "all_symmetric (PEV_PECs (allocate linear_config))"
    unfolding sh by (rule all_symmetric_zeros)
  have wf: "\<forall>line \<in> set [(1, [Fin 1, Fin 2, Fin 3])]. well_formed_line 1 2 line"
    by (simp add: well_formed_line_def packed_index_def)
  have "shape (PEV_PECs (allocate linear_config)) = [1, 2, 2]" by (simp add: sh np_zeros_def)
  with pev_pec_symmetric_after_read[OF sym, of "[(1, [Fin 1, Fin 2, Fin 3])]"] wf sym
  show ?thesis by blast
qed

text \<open>
  C10. Reading one line for an animal leaves each diagonal entry of that animal's matrix
  equal to the raw diagonal value of the line (adding the transpose doubles it, halving
  restores it); a diagonal entry the line does not reach keeps its value. When the strict
  upper triangle is zero before the addition, as it is in the freshly allocated tensor,
  every off-diagonal value read is found at its place and mirrored above the diagonal.
  The matrices of the other animals are untouched.
\<close>

theorem symmetrization_keeps_diagonal:
  fixes number :: int
  assumes sh: "shape a = [n, m, m]" and wf: "well_formed_line n m (number, elems)"
  defines "k \<equiv> nat (number - 1)"
  shows "\<exists>a'. read_pev_pec_line a (number, elems) = Inr a'
     \<and> (\<forall>i<m. cells a' [k, i, i] =
           (if packed_index i i < length elems then elems ! packed_index i i else cells a [k, i, i]))
     \<and> ((\<forall>i<m. \<forall>j<i. cells a [k, j, i] = Fin 0) \<longrightarrow>
          (\<forall>i<m. \<forall>j<i. packed_index i j < length elems \<longrightarrow>
             cells a' [k, i, j] = elems ! packed_index i j
           \<and> cells a' [k, j, i] = elems ! packed_index i j))
     \<and> (\<forall>k' i j. k' \<noteq> k \<longrightarrow> cells a' [k', i, j] = cells a [k', i, j])"
proof -
  let ?f = "stored a k 0 0 elems"
  let ?a' = "a\<lparr>cells := symmetrized (cells a) ?f k m\<rparr>"
  have ok: "read_pev_pec_line a (number, elems) = Inr ?a'"
    unfolding k_def by (rule read_pev_pec_line_ok[OF sh wf])
  have p0: "packed_index 0 0 = 0" by (simp add: packed_index_def)
  have low: "?f [k, i, j] = (if packed_index i j < length elems then elems ! packed_index i j
                             else cells a [k, i, j])" if "j \<le> i" for i j
    using that by (simp add: stored_triple p0)
  have up: "?f [k, j, i] = cells a [k, j, i]" if "j < i" for i j
    using that by (simp add: stored_triple)
  have diag: "cells ?a' [k, i, i] =
           (if packed_index i i < length elems then elems ! packed_index i i else cells a [k, i, i])"
    if "i < m" for i
    using that by (simp add: symmetrized_triple low)
  have mirror: "cells ?a' [k, i, j] = elems ! packed_index i j
              \<and> cells ?a' [k, j, i] = elems ! packed_index i j"
    if z: "\<forall>i<m. \<forall>j<i. cells a [k, j, i] = Fin 0"
      and ij: "i < m" "j < i" "packed_index i j < length elems" for i j
  proof -
    have "j < m" using ij by simp
    have l: "?f [k, i, j] = elems ! packed_index i j" using ij low[of j i] by simp
    have u: "?f [k, j, i] = Fin 0" using up[OF ij(2)] z ij by simp
    show ?thesis using ij \<open>j < m\<close>
      by (simp add: symmetrized_triple l u np_add_zero_right np_add_zero_left)
  qed
  have frame: "cells ?a' [k', i, j] = cells a [k', i, j]" if "k' \<noteq> k" for k' i j
    using that by (simp add: symmetrized_triple)
  show ?thesis
    using ok diag mirror frame by (intro exI[of _ ?a']) blast
qed

theorem symmetrization_keeps_diagonal_witness:
  "\<exists>a'. read_pev_pec_line (np_zeros [1, 2, 2]) (1, [Fin 1, Fin 2, Fin 3]) = Inr a'
     \<and> cells a' [0, 0, 0] = Fin 1 \<and> cells a' [0, 1, 1] = Fin 3
     \<and> cells a' [0, 1, 0] = Fin 2 \<and> cells a' [0, 0, 1] = Fin 2"
proof -
  have sh: "shape (np_zeros [1, 2, 2]) = [1, 2, 2]" by (simp add: np_zeros_def)
  have wf: "well_formed_line 1 2 (1, [Fin 1, Fin 2, Fin 3])"
    by (simp add: well_formed_line_def packed_index_def)
  have z: "\<forall>i<2. \<forall>j<i. cells (np_zeros [1, 2, 2]) [nat (1 - 1), j, i] = Fin 0"
    by (simp add: np_zeros_def)
  from symmetrization_keeps_diagonal[OF sh wf] z obtain a' where a':
    "read_pev_pec_line (np_zeros [1, 2, 2]) (1, [Fin 1, Fin 2, Fin 3]) = Inr a'"
    "\<forall>i<2. cells a' [nat (1 - 1), i, i] =
           (if packed_index i i < length [Fin 1, Fin 2, Fin 3] then [Fin 1, Fin 2, Fin 3] ! packed_index i i
            else cells (np_zeros [1, 2, 2]) [nat (1 - 1), i, i])"
    "\<forall>i<2. \<forall>j<i. packed_index i j < length [Fin 1, Fin 2, Fin 3] \<longrightarrow>
             cells a' [nat (1 - 1), i, j] = [Fin 1, Fin 2, Fin 3] ! packed_index i j
           \<and> cells a' [nat (1 - 1), j, i] = [Fin 1, Fin 2, Fin 3] ! packed_index i j"
    by blast
  have "cells a' [0, 0, 0] = Fin 1" using a'(2)[rule_format, of 0] by (simp add: packed_index_def)
  moreover have "cells a' [0, 1, 1] = Fin 3" using a'(2)[rule_format, of 1] by (simp add: packed_index_def)
  moreover have "cells a' [0, 1, 0] = Fin 2 \<and> cells a' [0, 0, 1] = Fin 2"
    using a'(3)[rule_format, of 1 0] by (simp add: packed_index_def)
  ultimately show ?thesis using a'(1) by blast
qed

subsection \<open>Variance and heritability engine\<close>

lemma sandwich_ok:
  assumes B: "shape B = [D, K]" and M: "shape M = [K, K]"
  shows "\<exists>X. sandwich B M = Inr X \<and> shape X = [D, D]
           \<and> (\<forall>d d'. cells X [d, d'] =
                 np_sum (map (\<lambda>b. np_mul (np_sum (map (\<lambda>a. np_mul (cells B [d, a]) (cells M [a, b])) [0..<K]))
                                          (cells B [d', b])) [0..<K]))"
proof -
  let ?BM = "\<lparr>shape = [D, K], cells = matmul_cells (cells B) (cells M) K\<rparr>"
  have m1: "matmul B M = Inr ?BM" using B M by (simp add: matmul_def)
  have tr: "transpose2 B = \<lparr>shape = [K, D], cells = transpose_cells (cells B)\<rparr>"
    using B by (simp add: transpose2_def)
  let ?X = "\<lparr>shape = [D, D], cells = matmul_cells (cells ?BM) (transpose_cells (cells B)) K\<rparr>"
  have m2: "matmul ?BM (transpose2 B) = Inr ?X" by (simp add: matmul_def tr)
  have "cells ?X [d, d'] =
          np_sum (map (\<lambda>b. np_mul (np_sum (map (\<lambda>a. np_mul (cells B [d, a]) (cells M [a, b])) [0..<K]))
                                   (cells B [d', b])) [0..<K])" for d d'
    by (simp add: matmul_cells_def transpose_cells_def)
  then show ?thesis using m1 m2 by (simp add: sandwich_def ebind_def)
qed

lemma slice2_ok:
  assumes M: "shape M = [n, n]" and le: "(i + 1) * K \<le> n"
  shows "slice2 M (i * K) ((i + 1) * K) = Inr \<lparr>shape = [K, K], cells = slice2_cells (cells M) (i * K)\<rparr>"
proof -
  have "i * K \<le> n" using le by simp
  then show ?thesis using M le by (simp add: slice2_def min_def)
qed

lemma project_block_ok:
  assumes B: "shape B = [D, K]" and M: "shape M = [n, n]" and le: "(i + 1) * K \<le> n"
  shows "\<exists>X. project_block B M (i * K) ((i + 1) * K) = Inr X \<and> shape X = [D, D]
           \<and> (\<forall>d d'. cells X [d, d'] = quad_form B M K (i * K) d d')"
proof -
  let ?blk = "\<lparr>shape = [K, K], cells = slice2_cells (cells M) (i * K)\<rparr>"
  have "shape ?blk = [K, K]" by simp
  from sandwich_ok[OF B this] obtain X where X: "sandwich B ?blk = Inr X" "shape X = [D, D]"
    "\<And>d d'. cells X [d, d'] =
        np_sum (map (\<lambda>b. np_mul (np_sum (map (\<lambda>a. np_mul (cells B [d, a]) (cells ?blk [a, b])) [0..<K]))
                                 (cells B [d', b])) [0..<K])" by blast
  have "cells X [d, d'] = quad_form B M K (i * K) d d'" for d d'
    by (simp add: X(3) quad_form_def slice2_cells_def)
  then show ?thesis using X(1,2) slice2_ok[OF M le]
    by (simp add: project_block_def ebind_def)
qed

lemma diagonal_square:
  "shape X = [D, D] \<Longrightarrow> diagonal X = map (\<lambda>d. cells X [d, d]) [0..<D]"
  by (simp add: diagonal_def)

lemma np_indices2:
  "l < L \<Longrightarrow> t < T \<Longrightarrow> np_indices [L, T] [int l, int t] = Some [l, t]"
  by (simp add: np_index_def)

lemma set_lane3_ok:
  assumes "shape a = [L, T, D]" "l < L" "t < T" "length w = D"
  shows "set_lane a [int l, int t] w = Inr (a\<lparr>cells := lane_update (cells a) [l, t] w\<rparr>)"
  using assms by (simp add: set_lane_def np_index_def broadcast_def)

lemma get_lane3_ok:
  assumes "shape a = [L, T, D]" "l < L" "t < T"
  shows "get_lane a [int l, int t] = Inr (map (\<lambda>d. cells a [l, t, d]) [0..<D])"
  using assms by (simp add: get_lane_def np_index_def)

lemma lane_update_cell3:
  "lane_update f [l, t] w [l', t', d] =
     (if l' = l \<and> t' = t \<and> d < length w then w ! d else f [l', t', d])"
  by (simp add: lane_update_def)

lemma lane_update_read_back:
  "map (\<lambda>d. lane_update f [l, t] w [l, t, d]) [0..<length w] = w"
  by (rule nth_equalityI) (simp_all add: lane_update_cell3)

lemma div_mod_pair:
  fixes i T L :: nat
  assumes "i < T * L"
  shows "i div T < L" "i mod T < T"
proof -
  have T: "0 < T" using assms by (cases T) auto
  show "i div T < L" using assms T by (simp add: less_mult_imp_div_less mult.commute)
  show "i mod T < T" using T by simp
qed

lemma row_lengths:
  "length (var_G_row cfg s i) = nat (dim_count cfg)"
  "length (var_P_row cfg s i) = nat (dim_count cfg)"
  "length (pheno_row cfg s i) = nat (dim_count cfg)"
  "length (heritability_row cfg s i) = nat (dim_count cfg)"
  "length (repeatability_row cfg s i) = nat (dim_count cfg)"
  by (simp_all add: var_G_row_def var_P_row_def pheno_row_def heritability_row_def
        repeatability_row_def)

lemma variance_step_ok:
  assumes ws: "well_shaped cfg s" and i: "i < number_of_traits cfg * lactation_dim cfg"
  shows "variance_step cfg s i = Inr (variance_update cfg s i)"
proof -
  let ?T = "number_of_traits cfg" and ?L = "lactation_dim cfg" and ?K = "random_degree cfg + 1"
  let ?D = "nat (dim_count cfg)"
  let ?l = "i div ?T" and ?t = "i mod ?T"
  let ?B = "legendre_random_coefficients s"
  note lt = div_mod_pair[OF i]
  have shB: "shape ?B = [?D, ?K]" and shG: "shape (mat_G cfg) = [?K * ?T * ?L, ?K * ?T * ?L]"
    and shP: "shape (mat_P cfg) = [?K * ?T * ?L, ?K * ?T * ?L]"
    and shR: "shape (mat_R cfg) = [?T * ?L, ?T * ?L]"
    and shvG: "shape (var_G s) = [?L, ?T, ?D]" and shvP: "shape (var_P s) = [?L, ?T, ?D]"
    and shvR: "shape (var_R s) = [?L, ?T]"
    and shH: "shape (heritabilities s) = [?L, ?T, ?D]"
    and shRp: "shape (repeatabilities s) = [?L, ?T, ?D]"
    using ws by (simp_all add: well_shaped_def Let_def)
  have "(i + 1) \<le> ?T * ?L" using i by simp
  then have "(i + 1) * ?K \<le> (?T * ?L) * ?K" by (rule mult_le_mono1)
  moreover have "(?T * ?L) * ?K = ?K * ?T * ?L" by (simp add: algebra_simps)
  ultimately have le: "(i + 1) * ?K \<le> ?K * ?T * ?L" by (simp only:)
  from project_block_ok[OF shB shG le] obtain XG where XG:
    "project_block ?B (mat_G cfg) (i * ?K) ((i + 1) * ?K) = Inr XG" "shape XG = [?D, ?D]"
    "\<And>d d'. cells XG [d, d'] = quad_form ?B (mat_G cfg) ?K (i * ?K) d d'" by blast
  from project_block_ok[OF shB shP le] obtain XP where XP:
    "project_block ?B (mat_P cfg) (i * ?K) ((i + 1) * ?K) = Inr XP" "shape XP = [?D, ?D]"
    "\<And>d d'. cells XP [d, d'] = quad_form ?B (mat_P cfg) ?K (i * ?K) d d'" by blast
  have dG: "diagonal XG = var_G_row cfg s i"
    by (simp add: diagonal_square[OF XG(2)] XG(3) var_G_row_def)
  have dP: "diagonal XP = var_P_row cfg s i"
    by (simp add: diagonal_square[OF XP(2)] XP(3) var_P_row_def)
  let ?vG = "(var_G s)\<lparr>cells := lane_update (cells (var_G s)) [?l, ?t] (var_G_row cfg s i)\<rparr>"
  let ?vP = "(var_P s)\<lparr>cells := lane_update (cells (var_P s)) [?l, ?t] (var_P_row cfg s i)\<rparr>"
  let ?vR = "(var_R s)\<lparr>cells := (cells (var_R s))([?l, ?t] := cells (mat_R cfg) [i, i])\<rparr>"
  have s1: "set_lane (var_G s) [int ?l, int ?t] (var_G_row cfg s i) = Inr ?vG"
    using shvG lt by (rule set_lane3_ok) (simp add: row_lengths)
  have s2: "set_lane (var_P s) [int ?l, int ?t] (var_P_row cfg s i) = Inr ?vP"
    using shvP lt by (rule set_lane3_ok) (simp add: row_lengths)
  have ii: "int i < int (?T * ?L)" using i by (simp only: of_nat_less_iff)
  have g1: "getitem (mat_R cfg) [int i, int i] = Inr (cells (mat_R cfg) [i, i])"
    using shR ii by (simp add: getitem_def np_index_def del: of_nat_mult)
  have s3: "setitem (var_R s) [int ?l, int ?t] (cells (mat_R cfg) [i, i]) = Inr ?vR"
    using shvR lt by (simp add: setitem_def np_index_def)
  have "get_lane ?vG [int ?l, int ?t] = Inr (map (\<lambda>d. cells ?vG [?l, ?t, d]) [0..<?D])"
    using lt by (intro get_lane3_ok[where L = ?L and T = ?T]) (simp_all add: shvG)
  also have "map (\<lambda>d. cells ?vG [?l, ?t, d]) [0..<?D] = var_G_row cfg s i"
    using lane_update_read_back[of "cells (var_G s)" ?l ?t "var_G_row cfg s i"]
    by (simp add: row_lengths)
  finally have g2: "get_lane ?vG [int ?l, int ?t] = Inr (var_G_row cfg s i)" .
  have "get_lane ?vP [int ?l, int ?t] = Inr (map (\<lambda>d. cells ?vP [?l, ?t, d]) [0..<?D])"
    using lt by (intro get_lane3_ok[where L = ?L and T = ?T]) (simp_all add: shvP)
  also have "map (\<lambda>d. cells ?vP [?l, ?t, d]) [0..<?D] = var_P_row cfg s i"
    using lane_update_read_back[of "cells (var_P s)" ?l ?t "var_P_row cfg s i"]
    by (simp add: row_lengths)
  finally have g3: "get_lane ?vP [int ?l, int ?t] = Inr (var_P_row cfg s i)" .
  let ?rv = "map2 np_add (var_G_row cfg s i) (var_P_row cfg s i)"
  have b1: "vec_binop np_add (var_G_row cfg s i) (var_P_row cfg s i) = Inr ?rv"
    by (simp add: vec_binop_def row_lengths)
  have g4: "getitem ?vR [int ?l, int ?t] = Inr (cells (mat_R cfg) [i, i])"
    using shvR lt by (simp add: getitem_def np_index_def)
  have ph: "map (\<lambda>x. np_add x (cells (mat_R cfg) [i, i])) ?rv = pheno_row cfg s i"
    by (simp add: pheno_row_def)
  have b2: "vec_binop np_div (var_G_row cfg s i) (pheno_row cfg s i) = Inr (heritability_row cfg s i)"
    by (simp add: vec_binop_def row_lengths heritability_row_def)
  have b3: "vec_binop np_div ?rv (pheno_row cfg s i) = Inr (repeatability_row cfg s i)"
    by (simp add: vec_binop_def row_lengths repeatability_row_def)
  let ?hs = "(heritabilities s)\<lparr>cells := lane_update (cells (heritabilities s)) [?l, ?t]
                                             (heritability_row cfg s i)\<rparr>"
  let ?rps = "(repeatabilities s)\<lparr>cells := lane_update (cells (repeatabilities s)) [?l, ?t]
                                              (repeatability_row cfg s i)\<rparr>"
  have s4: "set_lane (heritabilities s) [int ?l, int ?t] (heritability_row cfg s i) = Inr ?hs"
    using shH lt by (rule set_lane3_ok) (simp add: row_lengths)
  have s5: "set_lane (repeatabilities s) [int ?l, int ?t] (repeatability_row cfg s i) = Inr ?rps"
    using shRp lt by (rule set_lane3_ok) (simp add: row_lengths)
  show ?thesis
    unfolding variance_step_def variance_update_def Let_def
    by (simp only: XG(1) XP(1) dG dP s1 s2 g1 s3 g2 g3 b1 g4 ph b2 b3 s4 s5 ebind_def sum.case)
qed

lemma well_shaped_variance_update:
  "well_shaped cfg s \<Longrightarrow> well_shaped cfg (variance_update cfg s i)"
  by (simp add: well_shaped_def variance_update_def Let_def mean_last_def)

lemma variance_update_basis [simp]:
  "legendre_random_coefficients (variance_update cfg s i) = legendre_random_coefficients s"
  by (simp add: variance_update_def Let_def)

lemma rows_basis_cong:
  assumes "legendre_random_coefficients s' = legendre_random_coefficients s"
  shows "var_G_row cfg s' i = var_G_row cfg s i" "var_P_row cfg s' i = var_P_row cfg s i"
    "pheno_row cfg s' i = pheno_row cfg s i"
    "heritability_row cfg s' i = heritability_row cfg s i"
    "repeatability_row cfg s' i = repeatability_row cfg s i"
  using assms
  by (simp_all add: var_G_row_def var_P_row_def pheno_row_def heritability_row_def
        repeatability_row_def)

lemma variance_loop_fold:
  assumes "well_shaped cfg s" "\<forall>i \<in> set js. i < number_of_traits cfg * lactation_dim cfg"
  shows "variance_loop cfg s js = Inr (foldl (variance_update cfg) s js)"
  using assms
proof (induction js arbitrary: s)
  case Nil
  then show ?case by simp
next
  case (Cons i js)
  have "variance_step cfg s i = Inr (variance_update cfg s i)"
    using Cons.prems by (intro variance_step_ok) simp_all
  moreover have "variance_loop cfg (variance_update cfg s i) js
                 = Inr (foldl (variance_update cfg) (variance_update cfg s i) js)"
    using Cons.prems by (intro Cons.IH well_shaped_variance_update) simp_all
  ultimately show ?case by (simp add: ebind_def)
qed

lemma fold_basis [simp]:
  "legendre_random_coefficients (foldl (variance_update cfg) s js) = legendre_random_coefficients s"
  by (induction js arbitrary: s) simp_all

lemma well_shaped_fold:
  "well_shaped cfg s \<Longrightarrow> well_shaped cfg (foldl (variance_update cfg) s js)"
  by (induction js arbitrary: s) (simp_all add: well_shaped_variance_update)

lemma flat_index_iff:
  fixes T :: nat
  assumes "0 < T"
  shows "(l = i div T \<and> t = i mod T) = (t < T \<and> l * T + t = i)"
proof
  assume "l = i div T \<and> t = i mod T"
  then show "t < T \<and> l * T + t = i" using assms by simp
next
  assume "t < T \<and> l * T + t = i"
  then show "l = i div T \<and> t = i mod T" by auto
qed

lemma fold_var_G:
  assumes "0 < number_of_traits cfg"
  shows "cells (var_G (foldl (variance_update cfg) s js)) [l, t, d] =
          (if t < number_of_traits cfg \<and> l * number_of_traits cfg + t \<in> set js
              \<and> d < nat (dim_count cfg)
           then var_G_row cfg s (l * number_of_traits cfg + t) ! d
           else cells (var_G s) [l, t, d])"
proof (induction js arbitrary: s)
  case Nil
  then show ?case by simp
next
  case (Cons i js)
  have step: "cells (var_G (variance_update cfg s i)) [l, t, d] =
        (if t < number_of_traits cfg \<and> l * number_of_traits cfg + t = i \<and> d < nat (dim_count cfg)
         then var_G_row cfg s i ! d else cells (var_G s) [l, t, d])"
    using flat_index_iff[OF assms, of l i t]
    by (auto simp add: variance_update_def Let_def lane_update_cell3 row_lengths)
  show ?case
    unfolding foldl_Cons Cons.IH step rows_basis_cong[OF variance_update_basis]
    by auto
qed

lemma fold_var_P:
  assumes "0 < number_of_traits cfg"
  shows "cells (var_P (foldl (variance_update cfg) s js)) [l, t, d] =
          (if t < number_of_traits cfg \<and> l * number_of_traits cfg + t \<in> set js
              \<and> d < nat (dim_count cfg)
           then var_P_row cfg s (l * number_of_traits cfg + t) ! d
           else cells (var_P s) [l, t, d])"
proof (induction js arbitrary: s)
  case Nil
  then show ?case by simp
next
  case (Cons i js)
  have step: "cells (var_P (variance_update cfg s i)) [l, t, d] =
        (if t < number_of_traits cfg \<and> l * number_of_traits cfg + t = i \<and> d < nat (dim_count cfg)
         then var_P_row cfg s i ! d else cells (var_P s) [l, t, d])"
    using flat_index_iff[OF assms, of l i t]
    by (auto simp add: variance_update_def Let_def lane_update_cell3 row_lengths)
  show ?case
    unfolding foldl_Cons Cons.IH step rows_basis_cong[OF variance_update_basis]
    by auto
qed

lemma fold_heritabilities:
  assumes "0 < number_of_traits cfg"
  shows "cells (heritabilities (foldl (variance_update cfg) s js)) [l, t, d] =
          (if t < number_of_traits cfg \<and> l * number_of_traits cfg + t \<in> set js
              \<and> d < nat (dim_count cfg)
           then heritability_row cfg s (l * number_of_traits cfg + t) ! d
           else cells (heritabilities s) [l, t, d])"
proof (induction js arbitrary: s)
  case Nil
  then show ?case by simp
next
  case (Cons i js)
  have step: "cells (heritabilities (variance_update cfg s i)) [l, t, d] =
        (if t < number_of_traits cfg \<and> l * number_of_traits cfg + t = i \<and> d < nat (dim_count cfg)
         then heritability_row cfg s i ! d else cells (heritabilities s) [l, t, d])"
    using flat_index_iff[OF assms, of l i t]
    by (auto simp add: variance_update_def Let_def lane_update_cell3 row_lengths)
  show ?case
    unfolding foldl_Cons Cons.IH step rows_basis_cong[OF variance_update_basis]
    by auto
qed

lemma fold_repeatabilities:
  assumes "0 < number_of_traits cfg"
  shows "cells (repeatabilities (foldl (variance_update cfg) s js)) [l, t, d] =
          (if t < number_of_traits cfg \<and> l * number_of_traits cfg + t \<in> set js
              \<and> d < nat (dim_count cfg)
           then repeatability_row cfg s (l * number_of_traits cfg + t) ! d
           else cells (repeatabilities s) [l, t, d])"
proof (induction js arbitrary: s)
  case Nil
  then show ?case by simp
next
  case (Cons i js)
  have step: "cells (repeatabilities (variance_update cfg s i)) [l, t, d] =
        (if t < number_of_traits cfg \<and> l * number_of_traits cfg + t = i \<and> d < nat (dim_count cfg)
         then repeatability_row cfg s i ! d else cells (repeatabilities s) [l, t, d])"
    using flat_index_iff[OF assms, of l i t]
    by (auto simp add: variance_update_def Let_def lane_update_cell3 row_lengths)
  show ?case
    unfolding foldl_Cons Cons.IH step rows_basis_cong[OF variance_update_basis]
    by auto
qed

lemma fold_var_R:
  assumes "0 < number_of_traits cfg"
  shows "cells (var_R (foldl (variance_update cfg) s js)) [l, t] =
          (if t < number_of_traits cfg \<and> l * number_of_traits cfg + t \<in> set js
           then cells (mat_R cfg) [l * number_of_traits cfg + t, l * number_of_traits cfg + t]
           else cells (var_R s) [l, t])"
proof (induction js arbitrary: s)
  case Nil
  then show ?case by simp
next
  case (Cons i js)
  have step: "cells (var_R (variance_update cfg s i)) [l, t] =
        (if t < number_of_traits cfg \<and> l * number_of_traits cfg + t = i
         then cells (mat_R cfg) [i, i] else cells (var_R s) [l, t])"
    using flat_index_iff[OF assms, of l i t]
    by (auto simp add: variance_update_def Let_def)
  show ?case
    unfolding foldl_Cons Cons.IH step
    by auto
qed

lemma fold_averages:
  assumes "js \<noteq> []"
  shows "avg_var_G (foldl (variance_update cfg) s js) = mean_last (var_G (foldl (variance_update cfg) s js))
       \<and> avg_var_P (foldl (variance_update cfg) s js) = mean_last (var_P (foldl (variance_update cfg) s js))
       \<and> avg_heritabilities (foldl (variance_update cfg) s js)
           = mean_last (heritabilities (foldl (variance_update cfg) s js))
       \<and> avg_repeatabilities (foldl (variance_update cfg) s js)
           = mean_last (repeatabilities (foldl (variance_update cfg) s js))"
  using assms
proof (induction js arbitrary: s rule: rev_induct)
  case Nil
  then show ?case by simp
next
  case (snoc i js)
  show ?case by (simp add: variance_update_def Let_def)
qed

lemma flat_index_less:
  fixes l t L T :: nat
  assumes "l < L" "t < T"
  shows "l * T + t < T * L"
proof -
  have "l * T + t < l * T + T" using assms(2) by simp
  also have "\<dots> = (l + 1) * T" by simp
  also have "\<dots> \<le> L * T" using assms(1) by (intro mult_le_mono1) simp
  finally show ?thesis by (simp add: mult.commute)
qed

lemma row_nth:
  assumes "d < nat (dim_count cfg)"
  shows "var_G_row cfg s i ! d =
           quad_form (legendre_random_coefficients s) (mat_G cfg) (random_degree cfg + 1)
             (i * (random_degree cfg + 1)) d d"
    and "var_P_row cfg s i ! d =
           quad_form (legendre_random_coefficients s) (mat_P cfg) (random_degree cfg + 1)
             (i * (random_degree cfg + 1)) d d"
    and "pheno_row cfg s i ! d =
           np_add (np_add (var_G_row cfg s i ! d) (var_P_row cfg s i ! d)) (cells (mat_R cfg) [i, i])"
    and "heritability_row cfg s i ! d = np_div (var_G_row cfg s i ! d) (pheno_row cfg s i ! d)"
    and "repeatability_row cfg s i ! d =
           np_div (np_add (var_G_row cfg s i ! d) (var_P_row cfg s i ! d)) (pheno_row cfg s i ! d)"
proof -
  show "var_G_row cfg s i ! d =
           quad_form (legendre_random_coefficients s) (mat_G cfg) (random_degree cfg + 1)
             (i * (random_degree cfg + 1)) d d"
    using assms by (simp add: var_G_row_def)
  show "var_P_row cfg s i ! d =
           quad_form (legendre_random_coefficients s) (mat_P cfg) (random_degree cfg + 1)
             (i * (random_degree cfg + 1)) d d"
    using assms by (simp add: var_P_row_def)
  show ph: "pheno_row cfg s i ! d =
           np_add (np_add (var_G_row cfg s i ! d) (var_P_row cfg s i ! d)) (cells (mat_R cfg) [i, i])"
    using assms by (simp add: pheno_row_def row_lengths)
  show "heritability_row cfg s i ! d = np_div (var_G_row cfg s i ! d) (pheno_row cfg s i ! d)"
    using assms by (simp add: heritability_row_def row_lengths)
  show "repeatability_row cfg s i ! d =
           np_div (np_add (var_G_row cfg s i ! d) (var_P_row cfg s i ! d)) (pheno_row cfg s i ! d)"
    using assms by (simp add: repeatability_row_def row_lengths)
qed

lemma mean_last_cell3:
  assumes "shape a = [L, T, D]"
  shows "cells (mean_last a) [l, t] =
           np_div (np_sum (map (\<lambda>d. cells a [l, t, d]) [0..<D])) (Fin (real D))"
  using assms by (simp add: mean_last_def)

text \<open>The engine on a well-shaped model: it returns, and every cell of its outputs is
  given by the rows above.\<close>

lemma variance_engine_cells:
  assumes ws: "well_shaped cfg s"
    and l: "l < lactation_dim cfg" and t: "t < number_of_traits cfg"
  defines "i \<equiv> l * number_of_traits cfg + t"
  shows "\<exists>s'. compute_variances_and_heritabilities cfg s = Inr s' \<and> well_shaped cfg s'
     \<and> legendre_random_coefficients s' = legendre_random_coefficients s
     \<and> (\<forall>d < nat (dim_count cfg).
           cells (var_G s') [l, t, d] = var_G_row cfg s i ! d
         \<and> cells (var_P s') [l, t, d] = var_P_row cfg s i ! d
         \<and> cells (heritabilities s') [l, t, d] = heritability_row cfg s i ! d
         \<and> cells (repeatabilities s') [l, t, d] = repeatability_row cfg s i ! d)
     \<and> cells (var_R s') [l, t] = cells (mat_R cfg) [i, i]
     \<and> avg_var_G s' = mean_last (var_G s') \<and> avg_var_P s' = mean_last (var_P s')
     \<and> avg_heritabilities s' = mean_last (heritabilities s')
     \<and> avg_repeatabilities s' = mean_last (repeatabilities s')"
proof -
  let ?T = "number_of_traits cfg" and ?L = "lactation_dim cfg"
  let ?js = "[0..<?T * ?L]"
  let ?s' = "foldl (variance_update cfg) s ?js"
  have T: "0 < ?T" using t by simp
  have i: "i < ?T * ?L" unfolding i_def using l t by (rule flat_index_less)
  then have mem: "i \<in> set ?js" by simp
  have ne: "?js \<noteq> []" using T l by simp
  have run: "compute_variances_and_heritabilities cfg s = Inr ?s'"
    unfolding compute_variances_and_heritabilities_def
    using ws by (intro variance_loop_fold) simp_all
  have cellsd: "cells (var_G ?s') [l, t, d] = var_G_row cfg s i ! d
         \<and> cells (var_P ?s') [l, t, d] = var_P_row cfg s i ! d
         \<and> cells (heritabilities ?s') [l, t, d] = heritability_row cfg s i ! d
         \<and> cells (repeatabilities ?s') [l, t, d] = repeatability_row cfg s i ! d"
    if "d < nat (dim_count cfg)" for d
    using that t mem unfolding i_def
    by (simp add: fold_var_G[OF T] fold_var_P[OF T] fold_heritabilities[OF T]
          fold_repeatabilities[OF T] del: set_upt)
  have r: "cells (var_R ?s') [l, t] = cells (mat_R cfg) [i, i]"
    using t mem unfolding i_def by (simp add: fold_var_R[OF T] del: set_upt)
  show ?thesis
    using run well_shaped_fold[OF ws, of ?js] cellsd r fold_averages[OF ne, of cfg s]
    by (intro exI[of _ ?s']) simp
qed

text \<open>
  C2. For every pair (lactation, trait), with flat index \<open>i = lactation * T + trait\<close> and
  \<open>K = random_degree + 1\<close>, the variance engine returns and, at every DIM offset: var_G is
  the diagonal of \<open>B G' B\<^sup>T\<close> for the \<open>K \<times> K\<close> diagonal block \<open>G'\<close> of G at offset
  \<open>i * K\<close> and the random basis \<open>B\<close>, var_P likewise from P; var_R is \<open>R[i, i]\<close>;
  heritability is var_G over var_G + var_P + var_R and repeatability is var_G + var_P over
  the same sum; the four averages are the arithmetic means over the DIM axis.
\<close>

theorem variance_engine_formulas:
  assumes ws: "well_shaped cfg s"
    and l: "l < lactation_dim cfg" and t: "t < number_of_traits cfg"
  defines "i \<equiv> l * number_of_traits cfg + t"
    and "K \<equiv> random_degree cfg + 1"
    and "D \<equiv> nat (dim_count cfg)"
  shows "\<exists>s'. compute_variances_and_heritabilities cfg s = Inr s'
     \<and> (\<forall>d < D.
           cells (var_G s') [l, t, d] =
             quad_form (legendre_random_coefficients s) (mat_G cfg) K (i * K) d d
         \<and> cells (var_P s') [l, t, d] =
             quad_form (legendre_random_coefficients s) (mat_P cfg) K (i * K) d d
         \<and> cells (heritabilities s') [l, t, d] =
             np_div (cells (var_G s') [l, t, d])
               (np_add (np_add (cells (var_G s') [l, t, d]) (cells (var_P s') [l, t, d]))
                  (cells (var_R s') [l, t]))
         \<and> cells (repeatabilities s') [l, t, d] =
             np_div (np_add (cells (var_G s') [l, t, d]) (cells (var_P s') [l, t, d]))
               (np_add (np_add (cells (var_G s') [l, t, d]) (cells (var_P s') [l, t, d]))
                  (cells (var_R s') [l, t])))
     \<and> cells (var_R s') [l, t] = cells (mat_R cfg) [i, i]
     \<and> cells (avg_var_G s') [l, t] =
         np_div (np_sum (map (\<lambda>d. cells (var_G s') [l, t, d]) [0..<D])) (Fin (real D))
     \<and> cells (avg_var_P s') [l, t] =
         np_div (np_sum (map (\<lambda>d. cells (var_P s') [l, t, d]) [0..<D])) (Fin (real D))
     \<and> cells (avg_heritabilities s') [l, t] =
         np_div (np_sum (map (\<lambda>d. cells (heritabilities s') [l, t, d]) [0..<D])) (Fin (real D))
     \<and> cells (avg_repeatabilities s') [l, t] =
         np_div (np_sum (map (\<lambda>d. cells (repeatabilities s') [l, t, d]) [0..<D])) (Fin (real D))"
proof -
  from variance_engine_cells[OF ws l t] obtain s' where s':
    "compute_variances_and_heritabilities cfg s = Inr s'" "well_shaped cfg s'"
    "\<And>d. d < D \<Longrightarrow> cells (var_G s') [l, t, d] = var_G_row cfg s i ! d"
    "\<And>d. d < D \<Longrightarrow> cells (var_P s') [l, t, d] = var_P_row cfg s i ! d"
    "\<And>d. d < D \<Longrightarrow> cells (heritabilities s') [l, t, d] = heritability_row cfg s i ! d"
    "\<And>d. d < D \<Longrightarrow> cells (repeatabilities s') [l, t, d] = repeatability_row cfg s i ! d"
    "cells (var_R s') [l, t] = cells (mat_R cfg) [i, i]"
    "avg_var_G s' = mean_last (var_G s')" "avg_var_P s' = mean_last (var_P s')"
    "avg_heritabilities s' = mean_last (heritabilities s')"
    "avg_repeatabilities s' = mean_last (repeatabilities s')"
    unfolding i_def D_def by blast
  have sh: "shape (var_G s') = [lactation_dim cfg, number_of_traits cfg, D]"
    "shape (var_P s') = [lactation_dim cfg, number_of_traits cfg, D]"
    "shape (heritabilities s') = [lactation_dim cfg, number_of_traits cfg, D]"
    "shape (repeatabilities s') = [lactation_dim cfg, number_of_traits cfg, D]"
    using s'(2) by (simp_all add: well_shaped_def Let_def D_def)
  have per_d: "cells (var_G s') [l, t, d] =
             quad_form (legendre_random_coefficients s) (mat_G cfg) K (i * K) d d
         \<and> cells (var_P s') [l, t, d] =
             quad_form (legendre_random_coefficients s) (mat_P cfg) K (i * K) d d
         \<and> cells (heritabilities s') [l, t, d] =
             np_div (cells (var_G s') [l, t, d])
               (np_add (np_add (cells (var_G s') [l, t, d]) (cells (var_P s') [l, t, d]))
                  (cells (var_R s') [l, t]))
         \<and> cells (repeatabilities s') [l, t, d] =
             np_div (np_add (cells (var_G s') [l, t, d]) (cells (var_P s') [l, t, d]))
               (np_add (np_add (cells (var_G s') [l, t, d]) (cells (var_P s') [l, t, d]))
                  (cells (var_R s') [l, t]))" if d: "d < D" for d
  proof -
    have d': "d < nat (dim_count cfg)" using d by (simp add: D_def)
    note rn = row_nth[OF d', where s = s and i = i]
    show ?thesis
      unfolding s'(3)[OF d] s'(4)[OF d] s'(5)[OF d] s'(6)[OF d] s'(7) rn(4) rn(5) rn(3)
      unfolding rn(1) rn(2) K_def by simp
  qed
  show ?thesis
    using s'(1) per_d s'(7)
    by (intro exI[of _ s']) (simp add: s'(8-11) mean_last_cell3[OF sh(1)] mean_last_cell3[OF sh(2)]
          mean_last_cell3[OF sh(3)] mean_last_cell3[OF sh(4)])
qed

lemma take_columns_ok:
  assumes "shape a = [d, c]" "n \<le> c"
  shows "\<exists>b. take_columns a n = Inr b \<and> shape b = [d, n] \<and> (\<forall>r k. cells b [r, k] = cells a [r, k])"
  using assms by (simp add: take_columns_def)

text \<open>The state the constructor reaches: the allocated tensors and the basis tables.\<close>

lemma build_basis_state:
  assumes dr: "dim_range cfg = (lo, hi)" and lt: "lo < hi"
  shows "\<exists>s. build_basis cfg = Inr s
     \<and> s = (allocate cfg)\<lparr>legendre_coefficients := legendre_coefficients s,
                          legendre_random_coefficients := legendre_random_coefficients s,
                          legendre_partial_sums := legendre_partial_sums s,
                          legendre_random_sums := legendre_random_sums s\<rparr>
     \<and> shape (legendre_random_coefficients s) = [nat (hi - lo + 1), random_degree cfg + 1]
     \<and> (\<forall>r < nat (hi - lo + 1). \<forall>k \<le> random_degree cfg.
           cells (legendre_random_coefficients s) [r, k] =
             Fin (legendre_poly k (grid_point lo hi r) * sqrt (real k + 1 / 2)))"
proof -
  let ?D = "nat (hi - lo + 1)"
  let ?s0 = "allocate cfg"
  have dc: "dim_count cfg = hi - lo + 1" by (simp add: dim_count_def dr)
  have sc0: "scaled_dim_range ?s0 = scale_dim_range (lo, hi)"
    by (simp add: allocate_def Let_def dr)
  have sh0: "shape (legendre_coefficients ?s0) = [?D, degree cfg + 1]"
    by (simp add: allocate_def Let_def np_zeros_def dc)
  have len0: "length (scaled_dim_range ?s0) = ?D"
    by (simp add: sc0 scale_dim_range_length)
  have "\<forall>j \<in> set [0..<degree cfg + 1]. j < degree cfg + 1" by simp
  from add_legendre_columns_ok[OF sh0 len0 this]
  obtain a where a: "add_legendre_coefficients cfg ?s0 = Inr (?s0\<lparr>legendre_coefficients := a\<rparr>)"
    "shape a = [?D, degree cfg + 1]"
    "\<And>r k. cells a [r, k] =
        (if k \<in> set [0..<degree cfg + 1] \<and> r < ?D
         then np_mul (legendre k (scaled_dim_range ?s0 ! r)) (np_sqrt (Fin (real k + 1 / 2)))
         else cells (legendre_coefficients ?s0) [r, k])"
    unfolding add_legendre_coefficients_def by blast
  have rdle: "random_degree cfg + 1 \<le> degree cfg + 1" by (simp add: degree_def)
  have cell: "cells a [r, k] = Fin (legendre_poly k (grid_point lo hi r) * sqrt (real k + 1 / 2))"
    if "r < ?D" "k \<le> random_degree cfg" for r k
  proof -
    have "k \<le> degree cfg" using that(2) by (simp add: degree_def)
    then show ?thesis using that(1) lt
      by (simp add: a(3) sc0 scale_dim_range_nth legendre_def np_mul_def np_sqrt_def)
  qed
  let ?ps = "cumsum_axis0 a"
  have shps: "shape ?ps = [?D, degree cfg + 1]" using a(2) by (simp add: cumsum_axis0_def)
  from take_columns_ok[OF a(2) rdle] obtain rc where rc:
    "take_columns a (random_degree cfg + 1) = Inr rc" "shape rc = [?D, random_degree cfg + 1]"
    "\<And>r k. cells rc [r, k] = cells a [r, k]" by blast
  from take_columns_ok[OF shps rdle] obtain rs where rs:
    "take_columns ?ps (random_degree cfg + 1) = Inr rs" by blast
  let ?s = "?s0\<lparr>legendre_coefficients := a, legendre_random_coefficients := rc,
               legendre_partial_sums := ?ps, legendre_random_sums := rs\<rparr>"
  have bb: "build_basis cfg = Inr ?s"
    using lt rc(1) rs by (simp add: build_basis_def dc a(1) ebind_def Let_def)
  show ?thesis
    using bb rc(2) by (intro exI[of _ ?s]) (simp add: rc(3) cell)
qed

lemma well_shaped_after_build:
  assumes "s = (allocate cfg)\<lparr>legendre_coefficients := a, legendre_random_coefficients := rc,
                          legendre_partial_sums := ps, legendre_random_sums := rs\<rparr>"
    and "shape rc = [nat (dim_count cfg), random_degree cfg + 1]"
    and "shape (mat_G cfg) = [(random_degree cfg + 1) * number_of_traits cfg * lactation_dim cfg,
                             (random_degree cfg + 1) * number_of_traits cfg * lactation_dim cfg]"
    and "shape (mat_P cfg) = [(random_degree cfg + 1) * number_of_traits cfg * lactation_dim cfg,
                             (random_degree cfg + 1) * number_of_traits cfg * lactation_dim cfg]"
    and "shape (mat_R cfg) = [number_of_traits cfg * lactation_dim cfg,
                             number_of_traits cfg * lactation_dim cfg]"
  shows "well_shaped cfg s"
  unfolding well_shaped_def Let_def assms(1)
  using assms(2-5) by (simp add: allocate_def Let_def np_zeros_def)

text \<open>A model of random degree 0 on the DIM range (5, 6) after construction.\<close>

lemma degree0_model:
  assumes dr: "dim_range cfg = (5, 6)" and rd: "random_degree cfg = 0"
    and G: "shape (mat_G cfg) = [number_of_traits cfg * lactation_dim cfg,
                                number_of_traits cfg * lactation_dim cfg]"
    and P: "shape (mat_P cfg) = [number_of_traits cfg * lactation_dim cfg,
                                number_of_traits cfg * lactation_dim cfg]"
    and R: "shape (mat_R cfg) = [number_of_traits cfg * lactation_dim cfg,
                                number_of_traits cfg * lactation_dim cfg]"
  shows "\<exists>s. build_basis cfg = Inr s \<and> well_shaped cfg s
     \<and> s = (allocate cfg)\<lparr>legendre_coefficients := legendre_coefficients s,
                          legendre_random_coefficients := legendre_random_coefficients s,
                          legendre_partial_sums := legendre_partial_sums s,
                          legendre_random_sums := legendre_random_sums s\<rparr>
     \<and> cells (legendre_random_coefficients s) [0, 0] = Fin (sqrt (1 / 2))
     \<and> cells (legendre_random_coefficients s) [1, 0] = Fin (sqrt (1 / 2))"
proof -
  from build_basis_state[OF dr] obtain s where s:
    "build_basis cfg = Inr s"
    "s = (allocate cfg)\<lparr>legendre_coefficients := legendre_coefficients s,
                          legendre_random_coefficients := legendre_random_coefficients s,
                          legendre_partial_sums := legendre_partial_sums s,
                          legendre_random_sums := legendre_random_sums s\<rparr>"
    "shape (legendre_random_coefficients s) = [nat (6 - 5 + 1), random_degree cfg + 1]"
    "\<forall>r < nat (6 - 5 + 1). \<forall>k \<le> random_degree cfg.
           cells (legendre_random_coefficients s) [r, k] =
             Fin (legendre_poly k (grid_point 5 6 r) * sqrt (real k + 1 / 2))"
    by auto
  have ws: "well_shaped cfg s"
    using s(2) by (rule well_shaped_after_build)
      (use s(3) G P R in \<open>simp_all add: rd dr dim_count_def\<close>)
  have c: "cells (legendre_random_coefficients s) [0, 0] = Fin (sqrt (1 / 2))"
    "cells (legendre_random_coefficients s) [1, 0] = Fin (sqrt (1 / 2))"
    using s(4) by (simp_all add: rd)
  show ?thesis using s(1,2) ws c by blast
qed

lemma tiny_model:
  "\<exists>s. build_basis tiny_config = Inr s \<and> well_shaped tiny_config s
     \<and> cells (legendre_random_coefficients s) [0, 0] = Fin (sqrt (1 / 2))
     \<and> cells (legendre_random_coefficients s) [1, 0] = Fin (sqrt (1 / 2))"
  using degree0_model[of tiny_config] by (simp add: tiny_config_def) blast

lemma quad_form_1:
  "quad_form B M (Suc 0) lo d d' = np_mul (np_mul (cells B [d, 0]) (cells M [lo, lo])) (cells B [d', 0])"
  by (simp add: quad_form_def np_sum_def np_add_zero_left)

theorem variance_engine_formulas_witness:
  "\<exists>s s'. build_basis tiny_config = Inr s \<and> well_shaped tiny_config s
     \<and> compute_variances_and_heritabilities tiny_config s = Inr s'
     \<and> cells (var_G s') [0, 0, 0] = Fin (1 / 2) \<and> cells (var_P s') [0, 0, 0] = Fin (1 / 2)
     \<and> cells (var_R s') [0, 0] = Fin 1
     \<and> cells (heritabilities s') [0, 0, 0] = Fin (1 / 4)
     \<and> cells (repeatabilities s') [0, 0, 0] = Fin (1 / 2)"
proof -
  from tiny_model obtain s where s: "build_basis tiny_config = Inr s" "well_shaped tiny_config s"
     "cells (legendre_random_coefficients s) [0, 0] = Fin (sqrt (1 / 2))"
     "cells (legendre_random_coefficients s) [1, 0] = Fin (sqrt (1 / 2))" by blast
  have l: "0 < lactation_dim tiny_config" and t: "0 < number_of_traits tiny_config"
    by (simp_all add: tiny_config_def)
  from variance_engine_formulas[OF s(2) l t] obtain s' where s':
    "compute_variances_and_heritabilities tiny_config s = Inr s'"
    "\<forall>d < nat (dim_count tiny_config).
           cells (var_G s') [0, 0, d] =
             quad_form (legendre_random_coefficients s) (mat_G tiny_config) (random_degree tiny_config + 1)
               ((0 * number_of_traits tiny_config + 0) * (random_degree tiny_config + 1)) d d
         \<and> cells (var_P s') [0, 0, d] =
             quad_form (legendre_random_coefficients s) (mat_P tiny_config) (random_degree tiny_config + 1)
               ((0 * number_of_traits tiny_config + 0) * (random_degree tiny_config + 1)) d d
         \<and> cells (heritabilities s') [0, 0, d] =
             np_div (cells (var_G s') [0, 0, d])
               (np_add (np_add (cells (var_G s') [0, 0, d]) (cells (var_P s') [0, 0, d]))
                  (cells (var_R s') [0, 0]))
         \<and> cells (repeatabilities s') [0, 0, d] =
             np_div (np_add (cells (var_G s') [0, 0, d]) (cells (var_P s') [0, 0, d]))
               (np_add (np_add (cells (var_G s') [0, 0, d]) (cells (var_P s') [0, 0, d]))
                  (cells (var_R s') [0, 0]))"
    "cells (var_R s') [0, 0] = cells (mat_R tiny_config)
        [0 * number_of_traits tiny_config + 0, 0 * number_of_traits tiny_config + 0]"
    by blast
  have d0: "0 < nat (dim_count tiny_config)" by (simp add: tiny_config_def dim_count_def)
  have r: "cells (var_R s') [0, 0] = Fin 1" using s'(3) by (simp add: tiny_config_def)
  have g: "cells (var_G s') [0, 0, 0] = Fin (1 / 2)"
    using s'(2)[rule_format, OF d0]
    by (simp add: tiny_config_def quad_form_1 s(3) np_mul_def)
  have p: "cells (var_P s') [0, 0, 0] = Fin (1 / 2)"
    using s'(2)[rule_format, OF d0]
    by (simp add: tiny_config_def quad_form_1 s(3) np_mul_def)
  have h: "cells (heritabilities s') [0, 0, 0] = Fin (1 / 4)"
    "cells (repeatabilities s') [0, 0, 0] = Fin (1 / 2)"
    using s'(2)[rule_format, OF d0] by (simp_all add: g p r np_add_def np_div_def)
  show ?thesis using s(1,2) s'(1) g p r h by blast
qed

lemma np_div_Fin: "y \<noteq> 0 \<Longrightarrow> np_div (Fin x) (Fin y) = Fin (x / y)"
  by (simp add: np_div_def)

lemma np_add_Fin: "np_add (Fin x) (Fin y) = Fin (x + y)"
  by (simp add: np_add_def)

lemma np_mul_Fin: "np_mul (Fin x) (Fin y) = Fin (x * y)"
  by (simp add: np_mul_def)

lemma np_div_Fin_zero: "np_div (Fin x) (Fin 0) \<in> {PInf, NInf, NaN}"
  by (simp add: np_div_def)

text \<open>
  C8. Where var_G, var_P and var_R are finite and strictly positive at a DIM point, the
  heritability and the repeatability computed there are finite and lie in [0, 1], and the
  heritability is at most the repeatability.
\<close>

theorem heritability_bounds:
  assumes ws: "well_shaped cfg s"
    and l: "l < lactation_dim cfg" and t: "t < number_of_traits cfg"
    and d: "d < nat (dim_count cfg)"
    and run: "compute_variances_and_heritabilities cfg s = Inr s'"
    and g: "cells (var_G s') [l, t, d] = Fin g" "0 < g"
    and p: "cells (var_P s') [l, t, d] = Fin p" "0 < p"
    and r: "cells (var_R s') [l, t] = Fin r" "0 < r"
  shows "\<exists>h rp. cells (heritabilities s') [l, t, d] = Fin h
             \<and> cells (repeatabilities s') [l, t, d] = Fin rp
             \<and> 0 \<le> h \<and> h \<le> 1 \<and> 0 \<le> rp \<and> rp \<le> 1 \<and> h \<le> rp"
proof -
  let ?i = "l * number_of_traits cfg + t"
  from variance_engine_cells[OF ws l t] run d have c:
    "cells (var_G s') [l, t, d] = var_G_row cfg s ?i ! d"
    "cells (var_P s') [l, t, d] = var_P_row cfg s ?i ! d"
    "cells (heritabilities s') [l, t, d] = heritability_row cfg s ?i ! d"
    "cells (repeatabilities s') [l, t, d] = repeatability_row cfg s ?i ! d"
    "cells (var_R s') [l, t] = cells (mat_R cfg) [?i, ?i]"
    by auto
  note rn = row_nth[OF d, where s = s and i = ?i]
  have vg: "var_G_row cfg s ?i ! d = Fin g" using c(1) g(1) by simp
  have vp: "var_P_row cfg s ?i ! d = Fin p" using c(2) p(1) by simp
  have vr: "cells (mat_R cfg) [?i, ?i] = Fin r" using c(5) r(1) by simp
  have ph: "pheno_row cfg s ?i ! d = Fin (g + p + r)"
    by (simp add: rn(3) vg vp vr np_add_Fin)
  have pos: "g + p + r \<noteq> 0" using g p r by simp
  have h: "cells (heritabilities s') [l, t, d] = Fin (g / (g + p + r))"
    unfolding c(3) rn(4) ph vg using pos by (rule np_div_Fin)
  have rp: "cells (repeatabilities s') [l, t, d] = Fin ((g + p) / (g + p + r))"
    unfolding c(4) rn(5) ph vg vp np_add_Fin using pos by (rule np_div_Fin)
  have "0 \<le> g / (g + p + r)" "g / (g + p + r) \<le> 1"
    "0 \<le> (g + p) / (g + p + r)" "(g + p) / (g + p + r) \<le> 1"
    "g / (g + p + r) \<le> (g + p) / (g + p + r)"
    using g p r by (simp_all add: divide_right_mono)
  then show ?thesis using h rp by blast
qed

theorem heritability_bounds_witness:
  "\<exists>s s'. well_shaped tiny_config s
     \<and> compute_variances_and_heritabilities tiny_config s = Inr s'
     \<and> cells (var_G s') [0, 0, 0] = Fin (1 / 2) \<and> cells (var_P s') [0, 0, 0] = Fin (1 / 2)
     \<and> cells (var_R s') [0, 0] = Fin 1
     \<and> (\<exists>h rp. cells (heritabilities s') [0, 0, 0] = Fin h
             \<and> cells (repeatabilities s') [0, 0, 0] = Fin rp
             \<and> 0 \<le> h \<and> h \<le> 1 \<and> 0 \<le> rp \<and> rp \<le> 1 \<and> h \<le> rp)"
proof -
  from tiny_model obtain s where s: "well_shaped tiny_config s"
     "cells (legendre_random_coefficients s) [0, 0] = Fin (sqrt (1 / 2))" by blast
  have l: "0 < lactation_dim tiny_config" and t: "0 < number_of_traits tiny_config"
    and d: "0 < nat (dim_count tiny_config)"
    by (simp_all add: tiny_config_def dim_count_def)
  from variance_engine_cells[OF s(1) l t] d obtain s' where s':
    "compute_variances_and_heritabilities tiny_config s = Inr s'"
    "cells (var_G s') [0, 0, 0] = var_G_row tiny_config s (0 * number_of_traits tiny_config + 0) ! 0"
    "cells (var_P s') [0, 0, 0] = var_P_row tiny_config s (0 * number_of_traits tiny_config + 0) ! 0"
    "cells (var_R s') [0, 0] = cells (mat_R tiny_config)
        [0 * number_of_traits tiny_config + 0, 0 * number_of_traits tiny_config + 0]"
    by blast
  note rn = row_nth[OF d, where s = s and i = 0]
  have "cells (var_G s') [0, 0, 0] = var_G_row tiny_config s 0 ! 0" using s'(2) by simp
  also have "\<dots> = Fin (1 / 2)"
    unfolding rn(1) by (simp add: tiny_config_def quad_form_1 s(2) np_mul_Fin)
  finally have g: "cells (var_G s') [0, 0, 0] = Fin (1 / 2)" .
  have "cells (var_P s') [0, 0, 0] = var_P_row tiny_config s 0 ! 0" using s'(3) by simp
  also have "\<dots> = Fin (1 / 2)"
    unfolding rn(2) by (simp add: tiny_config_def quad_form_1 s(2) np_mul_Fin)
  finally have p: "cells (var_P s') [0, 0, 0] = Fin (1 / 2)" .
  have r: "cells (var_R s') [0, 0] = Fin 1" using s'(4) by (simp add: tiny_config_def)
  from heritability_bounds[OF s(1) l t d s'(1) g _ p _ r]
  show ?thesis using s(1) s'(1) g p r by auto
qed

lemma residual_config_fields:
  "dim_range (residual_config r) = (5, 6)" "random_degree (residual_config r) = 0"
  "number_of_traits (residual_config r) = 1" "lactation_dim (residual_config r) = 1"
  "shape (mat_G (residual_config r)) = [1, 1]" "shape (mat_P (residual_config r)) = [1, 1]"
  "shape (mat_R (residual_config r)) = [1, 1]"
  "cells (mat_G (residual_config r)) idx = Fin 1" "cells (mat_P (residual_config r)) idx = Fin 1"
  "cells (mat_R (residual_config r)) idx = Fin r" "dim_count (residual_config r) = 2"
  by (simp_all add: residual_config_def tiny_config_def dim_count_def)

text \<open>The variance engine on the tiny model with residual variance \<open>r\<close>.\<close>

lemma residual_model_variances:
  "\<exists>s s'. build_basis (residual_config r) = Inr s \<and> well_shaped (residual_config r) s
      \<and> compute_variances_and_heritabilities (residual_config r) s = Inr s'
      \<and> cells (var_G s') [0, 0, 0] = Fin (1 / 2) \<and> cells (var_P s') [0, 0, 0] = Fin (1 / 2)
      \<and> cells (var_R s') [0, 0] = Fin r
      \<and> cells (heritabilities s') [0, 0, 0] = np_div (Fin (1 / 2)) (Fin (1 + r))
      \<and> cells (repeatabilities s') [0, 0, 0] = np_div (Fin 1) (Fin (1 + r))"
proof -
  let ?cfg = "residual_config r"
  note f = residual_config_fields[of r]
  from degree0_model[of ?cfg] obtain s where s: "build_basis ?cfg = Inr s" "well_shaped ?cfg s"
     "cells (legendre_random_coefficients s) [0, 0] = Fin (sqrt (1 / 2))"
    by (simp add: f) blast
  have l: "0 < lactation_dim ?cfg" and t: "0 < number_of_traits ?cfg"
    and d: "0 < nat (dim_count ?cfg)"
    by (simp_all add: f)
  from variance_engine_cells[OF s(2) l t] d obtain s' where s':
    "compute_variances_and_heritabilities ?cfg s = Inr s'"
    "cells (var_G s') [0, 0, 0] = var_G_row ?cfg s (0 * number_of_traits ?cfg + 0) ! 0"
    "cells (var_P s') [0, 0, 0] = var_P_row ?cfg s (0 * number_of_traits ?cfg + 0) ! 0"
    "cells (heritabilities s') [0, 0, 0] = heritability_row ?cfg s (0 * number_of_traits ?cfg + 0) ! 0"
    "cells (repeatabilities s') [0, 0, 0] = repeatability_row ?cfg s (0 * number_of_traits ?cfg + 0) ! 0"
    "cells (var_R s') [0, 0] = cells (mat_R ?cfg)
        [0 * number_of_traits ?cfg + 0, 0 * number_of_traits ?cfg + 0]"
    by blast
  note rn = row_nth[OF d, where s = s and i = 0]
  have vg: "var_G_row ?cfg s 0 ! 0 = Fin (1 / 2)"
    unfolding rn(1) by (simp add: f quad_form_1 s(3) np_mul_Fin)
  have vp: "var_P_row ?cfg s 0 ! 0 = Fin (1 / 2)"
    unfolding rn(2) by (simp add: f quad_form_1 s(3) np_mul_Fin)
  have ph: "pheno_row ?cfg s 0 ! 0 = Fin (1 + r)"
    unfolding rn(3) vg vp by (simp add: f np_add_Fin)
  have "cells (var_G s') [0, 0, 0] = Fin (1 / 2)" using s'(2) vg by simp
  moreover have "cells (var_P s') [0, 0, 0] = Fin (1 / 2)" using s'(3) vp by simp
  moreover have "cells (var_R s') [0, 0] = Fin r" using s'(6) by (simp add: f)
  moreover have "cells (heritabilities s') [0, 0, 0] = np_div (Fin (1 / 2)) (Fin (1 + r))"
    using s'(4) by (simp add: rn(4) vg ph)
  moreover have "cells (repeatabilities s') [0, 0, 0] = np_div (Fin 1) (Fin (1 + r))"
    using s'(5) by (simp add: rn(5) vg vp ph np_add_Fin)
  ultimately show ?thesis using s(1,2) s'(1) by blast
qed

text \<open>
  C7 claims that a zero or negative phenotypic variance makes the engine fail. The engine
  has no such check. With var_G = var_P = 0.5 and residual variance -3 the phenotypic
  variance is -2, and the engine returns heritability -0.25 and repeatability -0.5.
\<close>

theorem negative_phenotypic_variance_counterexample:
  "read_cell var_G [0, 0, 0] (variance_run (residual_config (- 3))) = Inr (Fin (1 / 2))
 \<and> read_cell var_P [0, 0, 0] (variance_run (residual_config (- 3))) = Inr (Fin (1 / 2))
 \<and> read_cell var_R [0, 0] (variance_run (residual_config (- 3))) = Inr (Fin (- 3))
 \<and> read_cell heritabilities [0, 0, 0] (variance_run (residual_config (- 3))) = Inr (Fin (- 1 / 4))
 \<and> read_cell repeatabilities [0, 0, 0] (variance_run (residual_config (- 3))) = Inr (Fin (- 1 / 2))"
proof -
  from residual_model_variances[of "- 3"] obtain s s' where
    "build_basis (residual_config (- 3)) = Inr s"
    "compute_variances_and_heritabilities (residual_config (- 3)) s = Inr s'"
    "cells (var_G s') [0, 0, 0] = Fin (1 / 2)" "cells (var_P s') [0, 0, 0] = Fin (1 / 2)"
    "cells (var_R s') [0, 0] = Fin (- 3)"
    "cells (heritabilities s') [0, 0, 0] = np_div (Fin (1 / 2)) (Fin (1 + - 3))"
    "cells (repeatabilities s') [0, 0, 0] = np_div (Fin 1) (Fin (1 + - 3))"
    by blast
  then show ?thesis
    by (simp add: read_cell_def variance_run_def ebind_def np_div_def)
qed

text \<open>
  C7, amended. On a well-shaped model the variance engine always returns, whatever the
  sign of the phenotypic variance var_G + var_P + var_R: where that sum is not zero
  (negative included) heritability and repeatability are the plain ratios; where it is
  zero they are the infinities or NaN of numpy's division, and no error is raised.
\<close>

theorem variance_engine_never_raises:
  assumes ws: "well_shaped cfg s"
    and l: "l < lactation_dim cfg" and t: "t < number_of_traits cfg"
  shows "\<exists>s'. compute_variances_and_heritabilities cfg s = Inr s'
     \<and> (\<forall>d < nat (dim_count cfg). \<forall>g p r.
           cells (var_G s') [l, t, d] = Fin g \<and> cells (var_P s') [l, t, d] = Fin p
           \<and> cells (var_R s') [l, t] = Fin r \<longrightarrow>
             (g + p + r \<noteq> 0 \<longrightarrow>
                cells (heritabilities s') [l, t, d] = Fin (g / (g + p + r))
              \<and> cells (repeatabilities s') [l, t, d] = Fin ((g + p) / (g + p + r)))
           \<and> (g + p + r = 0 \<longrightarrow>
                cells (heritabilities s') [l, t, d] \<in> {PInf, NInf, NaN}
              \<and> cells (repeatabilities s') [l, t, d] \<in> {PInf, NInf, NaN}))"
proof -
  let ?i = "l * number_of_traits cfg + t"
  from variance_engine_cells[OF ws l t] obtain s' where s':
    "compute_variances_and_heritabilities cfg s = Inr s'"
    "\<And>d. d < nat (dim_count cfg) \<Longrightarrow> cells (var_G s') [l, t, d] = var_G_row cfg s ?i ! d"
    "\<And>d. d < nat (dim_count cfg) \<Longrightarrow> cells (var_P s') [l, t, d] = var_P_row cfg s ?i ! d"
    "\<And>d. d < nat (dim_count cfg) \<Longrightarrow>
        cells (heritabilities s') [l, t, d] = heritability_row cfg s ?i ! d"
    "\<And>d. d < nat (dim_count cfg) \<Longrightarrow>
        cells (repeatabilities s') [l, t, d] = repeatability_row cfg s ?i ! d"
    "cells (var_R s') [l, t] = cells (mat_R cfg) [?i, ?i]"
    by blast
  have pt: "(g + p + r \<noteq> 0 \<longrightarrow>
                cells (heritabilities s') [l, t, d] = Fin (g / (g + p + r))
              \<and> cells (repeatabilities s') [l, t, d] = Fin ((g + p) / (g + p + r)))
           \<and> (g + p + r = 0 \<longrightarrow>
                cells (heritabilities s') [l, t, d] \<in> {PInf, NInf, NaN}
              \<and> cells (repeatabilities s') [l, t, d] \<in> {PInf, NInf, NaN})"
    if d: "d < nat (dim_count cfg)"
      and v: "cells (var_G s') [l, t, d] = Fin g" "cells (var_P s') [l, t, d] = Fin p"
             "cells (var_R s') [l, t] = Fin r"
    for d g p r
  proof -
    note rn = row_nth[OF d, where s = s and i = ?i]
    have vg: "var_G_row cfg s ?i ! d = Fin g" using s'(2)[OF d] v(1) by simp
    have vp: "var_P_row cfg s ?i ! d = Fin p" using s'(3)[OF d] v(2) by simp
    have vr: "cells (mat_R cfg) [?i, ?i] = Fin r" using s'(6) v(3) by simp
    have ph: "pheno_row cfg s ?i ! d = Fin (g + p + r)"
      by (simp add: rn(3) vg vp vr np_add_Fin)
    have h: "cells (heritabilities s') [l, t, d] = np_div (Fin g) (Fin (g + p + r))"
      unfolding s'(4)[OF d] rn(4) ph vg by simp
    have rp: "cells (repeatabilities s') [l, t, d] = np_div (Fin (g + p)) (Fin (g + p + r))"
      unfolding s'(5)[OF d] rn(5) ph vg vp np_add_Fin by simp
    show ?thesis unfolding h rp using np_div_Fin_zero by (simp add: np_div_Fin)
  qed
  show ?thesis using s'(1) pt by (intro exI[of _ s']) blast
qed

theorem variance_engine_never_raises_witness:
  "\<exists>s s'. well_shaped (residual_config (- 1)) s
     \<and> compute_variances_and_heritabilities (residual_config (- 1)) s = Inr s'
     \<and> cells (var_G s') [0, 0, 0] = Fin (1 / 2) \<and> cells (var_P s') [0, 0, 0] = Fin (1 / 2)
     \<and> cells (var_R s') [0, 0] = Fin (- 1)
     \<and> cells (heritabilities s') [0, 0, 0] \<in> {PInf, NInf, NaN}
     \<and> cells (repeatabilities s') [0, 0, 0] \<in> {PInf, NInf, NaN}"
proof -
  let ?cfg = "residual_config (- 1)"
  from residual_model_variances[of "- 1"] obtain s s0 where s:
    "well_shaped ?cfg s" "compute_variances_and_heritabilities ?cfg s = Inr s0"
    "cells (var_G s0) [0, 0, 0] = Fin (1 / 2)" "cells (var_P s0) [0, 0, 0] = Fin (1 / 2)"
    "cells (var_R s0) [0, 0] = Fin (- 1)"
    by blast
  have l: "0 < lactation_dim ?cfg" and t: "0 < number_of_traits ?cfg"
    and d: "0 < nat (dim_count ?cfg)"
    by (simp_all add: residual_config_fields)
  from variance_engine_never_raises[OF s(1) l t] obtain s' where s':
    "compute_variances_and_heritabilities ?cfg s = Inr s'"
    "\<forall>d < nat (dim_count ?cfg). \<forall>g p r.
           cells (var_G s') [0, 0, d] = Fin g \<and> cells (var_P s') [0, 0, d] = Fin p
           \<and> cells (var_R s') [0, 0] = Fin r \<longrightarrow>
             (g + p + r = 0 \<longrightarrow>
                cells (heritabilities s') [0, 0, d] \<in> {PInf, NInf, NaN}
              \<and> cells (repeatabilities s') [0, 0, d] \<in> {PInf, NInf, NaN})"
    by blast
  have eq: "s' = s0" using s(2) s'(1) by simp
  have "cells (heritabilities s') [0, 0, 0] \<in> {PInf, NInf, NaN}
      \<and> cells (repeatabilities s') [0, 0, 0] \<in> {PInf, NInf, NaN}"
    using s'(2)[rule_format, OF d, of "1 / 2" "1 / 2" "- 1"] s(3-5) unfolding eq by simp
  then show ?thesis using s(1) s'(1) s(3-5) unfolding eq by blast
qed

subsection \<open>PEV and reliability engine\<close>

lemma select_first_ok:
  assumes "shape a = n # rest" "j < n"
  shows "select_first a (int j) = Inr (animal_matrix a j)"
  using assms by (simp add: select_first_def np_index_def animal_matrix_def)

lemma mean_axis0_square:
  "shape X = [D, D] \<Longrightarrow>
   mean_axis0 X = map (\<lambda>d. np_div (np_sum (map (\<lambda>r. cells X [r, d]) [0..<D])) (Fin (real D))) [0..<D]"
  by (simp add: mean_axis0_def)

lemma set_lane4_ok:
  assumes "shape a = [L, T, N, D]" "l < L" "t < T" "j < N" "length w = D"
  shows "set_lane a [int l, int t, int j] w = Inr (a\<lparr>cells := lane_update (cells a) [l, t, j] w\<rparr>)"
  using assms by (simp add: set_lane_def np_index_def broadcast_def)

lemma get_lane4_ok:
  assumes "shape a = [L, T, N, D]" "l < L" "t < T" "j < N"
  shows "get_lane a [int l, int t, int j] = Inr (map (\<lambda>d. cells a [l, t, j, d]) [0..<D])"
  using assms by (simp add: get_lane_def np_index_def)

lemma lane_update_cell4:
  "lane_update f [l, t, j] w [l', t', j', d] =
     (if l' = l \<and> t' = t \<and> j' = j \<and> d < length w then w ! d else f [l', t', j', d])"
  by (simp add: lane_update_def)

lemma lane_update_read_back4:
  "map (\<lambda>d. lane_update f [l, t, j] w [l, t, j, d]) [0..<length w] = w"
  by (rule nth_equalityI) (simp_all add: lane_update_cell4)

lemma pev_rel_row_lengths:
  "length (pev_row cfg s i j) = nat (dim_count cfg)"
  "length (rel_row cfg s i j) = nat (dim_count cfg)"
  by (simp_all add: pev_row_def rel_row_def)

lemma pev_rel_step_ok:
  assumes ws: "well_shaped cfg s"
    and i: "i < lactation_dim cfg * number_of_traits cfg" and j: "j < animal_count cfg"
    and inb: "inbreeding cfg \<longrightarrow> animal_count cfg \<le> length (inbreeding_coefficients cfg)"
  shows "pev_rel_step cfg s (i, j) = Inr (pev_rel_update cfg s (i, j))"
proof -
  let ?T = "number_of_traits cfg" and ?L = "lactation_dim cfg" and ?K = "random_degree cfg + 1"
  let ?N = "animal_count cfg"
  let ?D = "nat (dim_count cfg)"
  let ?l = "i div ?T" and ?t = "i mod ?T"
  let ?B = "legendre_random_coefficients s"
  have i': "i < ?T * ?L" using i by (simp add: mult.commute)
  note lt = div_mod_pair[OF i']
  have shB: "shape ?B = [?D, ?K]"
    and shC: "shape (PEV_PECs s) = [?N, ?K * ?T * ?L, ?K * ?T * ?L]"
    and shvG: "shape (var_G s) = [?L, ?T, ?D]"
    and shPEV: "shape (PEVs s) = [?L, ?T, ?N, ?D]"
    and shREL: "shape (RELs s) = [?L, ?T, ?N, ?D]"
    using ws by (simp_all add: well_shaped_def Let_def)
  have sel: "select_first (PEV_PECs s) (int j) = Inr (animal_matrix (PEV_PECs s) j)"
    using shC j by (rule select_first_ok)
  have shM: "shape (animal_matrix (PEV_PECs s) j) = [?K * ?T * ?L, ?K * ?T * ?L]"
    by (simp add: animal_matrix_def shC)
  have "(i + 1) \<le> ?T * ?L" using i' by simp
  then have "(i + 1) * ?K \<le> (?T * ?L) * ?K" by (rule mult_le_mono1)
  moreover have "(?T * ?L) * ?K = ?K * ?T * ?L" by (simp add: algebra_simps)
  ultimately have le: "(i + 1) * ?K \<le> ?K * ?T * ?L" by (simp only:)
  from project_block_ok[OF shB shM le] obtain X where X:
    "project_block ?B (animal_matrix (PEV_PECs s) j) (i * ?K) ((i + 1) * ?K) = Inr X"
    "shape X = [?D, ?D]"
    "\<And>d d'. cells X [d, d'] = quad_form ?B (animal_matrix (PEV_PECs s) j) ?K (i * ?K) d d'"
    by blast
  have mX: "mean_axis0 X = pev_row cfg s i j"
    by (simp add: mean_axis0_square[OF X(2)] X(3) pev_row_def)
  let ?pevs = "(PEVs s)\<lparr>cells := lane_update (cells (PEVs s)) [?l, ?t, j] (pev_row cfg s i j)\<rparr>"
  have s1: "set_lane (PEVs s) [int ?l, int ?t, int j] (pev_row cfg s i j) = Inr ?pevs"
    using shPEV lt j by (rule set_lane4_ok) (simp add: pev_rel_row_lengths)
  have "get_lane ?pevs [int ?l, int ?t, int j] = Inr (map (\<lambda>d. cells ?pevs [?l, ?t, j, d]) [0..<?D])"
    using lt j by (intro get_lane4_ok[where L = ?L and T = ?T and N = ?N]) (simp_all add: shPEV)
  also have "map (\<lambda>d. cells ?pevs [?l, ?t, j, d]) [0..<?D] = pev_row cfg s i j"
    using lane_update_read_back4[of "cells (PEVs s)" ?l ?t j "pev_row cfg s i j"]
    by (simp add: pev_rel_row_lengths)
  finally have g1: "get_lane ?pevs [int ?l, int ?t, int j] = Inr (pev_row cfg s i j)" .
  let ?vg = "map (\<lambda>d. cells (var_G s) [?l, ?t, d]) [0..<?D]"
  have g2: "get_lane (var_G s) [int ?l, int ?t] = Inr ?vg"
    using shvG lt by (rule get_lane3_ok)
  let ?den = "map (\<lambda>d. scaled_var_G cfg s ?l ?t j d) [0..<?D]"
  have den: "(if inbreeding cfg
             then (if j < length (inbreeding_coefficients cfg)
                   then Inr (map (\<lambda>x. np_mul x (np_add (Fin 1) (inbreeding_coefficients cfg ! j))) ?vg)
                   else Inl IndexError)
             else Inr ?vg) = (Inr ?den :: error + npf list)"
    using inb j by (auto simp add: scaled_var_G_def)
  have rat: "vec_binop np_div (pev_row cfg s i j) ?den
             = Inr (map2 np_div (pev_row cfg s i j) ?den)"
    by (simp add: vec_binop_def pev_rel_row_lengths)
  have rr: "map (np_sub (Fin 1)) (map2 np_div (pev_row cfg s i j) ?den) = rel_row cfg s i j"
    by (rule nth_equalityI) (simp_all add: pev_rel_row_lengths rel_row_def)
  let ?rels = "(RELs s)\<lparr>cells := lane_update (cells (RELs s)) [?l, ?t, j] (rel_row cfg s i j)\<rparr>"
  have s2: "set_lane (RELs s) [int ?l, int ?t, int j] (rel_row cfg s i j) = Inr ?rels"
    using shREL lt j by (rule set_lane4_ok) (simp add: pev_rel_row_lengths)
  show ?thesis
    unfolding pev_rel_step_def pev_rel_update_def Let_def prod.case
    by (simp only: sel X(1) mX s1 g1 g2 den rat rr s2 ebind_def sum.case)
qed

lemma well_shaped_pev_rel_update:
  "well_shaped cfg s \<Longrightarrow> well_shaped cfg (pev_rel_update cfg s ij)"
  by (cases ij) (simp add: well_shaped_def pev_rel_update_def Let_def)

lemma pev_rel_update_frame [simp]:
  "legendre_random_coefficients (pev_rel_update cfg s ij) = legendre_random_coefficients s"
  "PEV_PECs (pev_rel_update cfg s ij) = PEV_PECs s"
  "var_G (pev_rel_update cfg s ij) = var_G s"
  by (cases ij; simp add: pev_rel_update_def Let_def)+

lemma pev_rel_rows_cong:
  assumes "legendre_random_coefficients s' = legendre_random_coefficients s"
    "PEV_PECs s' = PEV_PECs s" "var_G s' = var_G s"
  shows "pev_row cfg s' i j = pev_row cfg s i j" "rel_row cfg s' i j = rel_row cfg s i j"
  using assms by (simp_all add: pev_row_def rel_row_def scaled_var_G_def)

lemma pev_rel_loop_fold:
  assumes "well_shaped cfg s"
    and "\<forall>(i, j) \<in> set ps. i < lactation_dim cfg * number_of_traits cfg \<and> j < animal_count cfg"
    and "inbreeding cfg \<longrightarrow> animal_count cfg \<le> length (inbreeding_coefficients cfg)"
  shows "pev_rel_loop cfg s ps = Inr (foldl (pev_rel_update cfg) s ps)"
  using assms
proof (induction ps arbitrary: s)
  case Nil
  then show ?case by simp
next
  case (Cons ij ps)
  obtain i j where ij: "ij = (i, j)" by (cases ij)
  have "pev_rel_step cfg s (i, j) = Inr (pev_rel_update cfg s (i, j))"
    using Cons.prems ij by (intro pev_rel_step_ok) simp_all
  moreover have "pev_rel_loop cfg (pev_rel_update cfg s ij) ps
                 = Inr (foldl (pev_rel_update cfg) (pev_rel_update cfg s ij) ps)"
    using Cons.prems by (intro Cons.IH well_shaped_pev_rel_update) simp_all
  ultimately show ?case by (simp add: ebind_def ij)
qed

lemma pev_rel_fold_frame [simp]:
  "legendre_random_coefficients (foldl (pev_rel_update cfg) s ps) = legendre_random_coefficients s"
  "PEV_PECs (foldl (pev_rel_update cfg) s ps) = PEV_PECs s"
  "var_G (foldl (pev_rel_update cfg) s ps) = var_G s"
  by (induction ps arbitrary: s) simp_all

lemma well_shaped_pev_rel_fold:
  "well_shaped cfg s \<Longrightarrow> well_shaped cfg (foldl (pev_rel_update cfg) s ps)"
  by (induction ps arbitrary: s) (simp_all add: well_shaped_pev_rel_update)

lemma fold_PEVs:
  assumes "0 < number_of_traits cfg"
  shows "cells (PEVs (foldl (pev_rel_update cfg) s ps)) [l, t, j, d] =
          (if t < number_of_traits cfg \<and> (l * number_of_traits cfg + t, j) \<in> set ps
              \<and> d < nat (dim_count cfg)
           then pev_row cfg s (l * number_of_traits cfg + t) j ! d
           else cells (PEVs s) [l, t, j, d])"
proof (induction ps arbitrary: s)
  case Nil
  then show ?case by simp
next
  case (Cons ij ps)
  obtain i j' where ij: "ij = (i, j')" by (cases ij)
  have step: "cells (PEVs (pev_rel_update cfg s ij)) [l, t, j, d] =
        (if t < number_of_traits cfg \<and> (l * number_of_traits cfg + t, j) = ij
            \<and> d < nat (dim_count cfg)
         then pev_row cfg s i j' ! d else cells (PEVs s) [l, t, j, d])"
    using flat_index_iff[OF assms, of l i t]
    by (auto simp add: ij pev_rel_update_def Let_def lane_update_cell4 pev_rel_row_lengths)
  have rows: "pev_row cfg (pev_rel_update cfg s ij) = pev_row cfg s"
    by (intro ext pev_rel_rows_cong) simp_all
  show ?case
    unfolding foldl_Cons Cons.IH step rows
    by (auto simp add: ij)
qed

lemma fold_RELs:
  assumes "0 < number_of_traits cfg"
  shows "cells (RELs (foldl (pev_rel_update cfg) s ps)) [l, t, j, d] =
          (if t < number_of_traits cfg \<and> (l * number_of_traits cfg + t, j) \<in> set ps
              \<and> d < nat (dim_count cfg)
           then rel_row cfg s (l * number_of_traits cfg + t) j ! d
           else cells (RELs s) [l, t, j, d])"
proof (induction ps arbitrary: s)
  case Nil
  then show ?case by simp
next
  case (Cons ij ps)
  obtain i j' where ij: "ij = (i, j')" by (cases ij)
  have step: "cells (RELs (pev_rel_update cfg s ij)) [l, t, j, d] =
        (if t < number_of_traits cfg \<and> (l * number_of_traits cfg + t, j) = ij
            \<and> d < nat (dim_count cfg)
         then rel_row cfg s i j' ! d else cells (RELs s) [l, t, j, d])"
    using flat_index_iff[OF assms, of l i t]
    by (auto simp add: ij pev_rel_update_def Let_def lane_update_cell4 pev_rel_row_lengths)
  have rows: "rel_row cfg (pev_rel_update cfg s ij) = rel_row cfg s"
    by (intro ext pev_rel_rows_cong) simp_all
  show ?case
    unfolding foldl_Cons Cons.IH step rows
    by (auto simp add: ij)
qed

lemma mean_last_cell4:
  assumes "shape a = [L, T, N, D]"
  shows "cells (mean_last a) [l, t, j] =
           np_div (np_sum (map (\<lambda>d. cells a [l, t, j, d]) [0..<D])) (Fin (real D))"
  using assms by (simp add: mean_last_def)

lemma pev_rel_update_frame2 [simp]:
  "EBVs (pev_rel_update cfg s ij) = EBVs s"
  "avg_heritabilities (pev_rel_update cfg s ij) = avg_heritabilities s"
  by (cases ij; simp add: pev_rel_update_def Let_def)+

lemma pev_rel_fold_frame2 [simp]:
  "EBVs (foldl (pev_rel_update cfg) s ps) = EBVs s"
  "avg_heritabilities (foldl (pev_rel_update cfg) s ps) = avg_heritabilities s"
  by (induction ps arbitrary: s) simp_all

text \<open>The engine on a well-shaped model: it returns, and the curves of every animal are
  the rows above.\<close>

lemma pev_rel_engine_cells:
  assumes ws: "well_shaped cfg s"
    and inb: "inbreeding cfg \<longrightarrow> animal_count cfg \<le> length (inbreeding_coefficients cfg)"
  shows "\<exists>s'. compute_pevs_rels cfg s = Inr s' \<and> well_shaped cfg s'
     \<and> var_G s' = var_G s \<and> PEV_PECs s' = PEV_PECs s \<and> EBVs s' = EBVs s
     \<and> avg_heritabilities s' = avg_heritabilities s
     \<and> (\<forall>l < lactation_dim cfg. \<forall>t < number_of_traits cfg. \<forall>j < animal_count cfg.
          \<forall>d < nat (dim_count cfg).
           cells (PEVs s') [l, t, j, d] = pev_row cfg s (l * number_of_traits cfg + t) j ! d
         \<and> cells (RELs s') [l, t, j, d] = rel_row cfg s (l * number_of_traits cfg + t) j ! d)
     \<and> avg_PEVs s' = mean_last (PEVs s') \<and> avg_RELs s' = mean_last (RELs s')
     \<and> shape (PEVs s') = [lactation_dim cfg, number_of_traits cfg, animal_count cfg, nat (dim_count cfg)]
     \<and> shape (RELs s') = [lactation_dim cfg, number_of_traits cfg, animal_count cfg, nat (dim_count cfg)]"
proof -
  let ?T = "number_of_traits cfg" and ?L = "lactation_dim cfg" and ?N = "animal_count cfg"
  let ?ps = "List.product [0..<?L * ?T] [0..<?N]"
  let ?s1 = "foldl (pev_rel_update cfg) s ?ps"
  let ?s' = "?s1\<lparr>avg_PEVs := mean_last (PEVs ?s1), avg_RELs := mean_last (RELs ?s1)\<rparr>"
  have loop: "pev_rel_loop cfg s ?ps = Inr ?s1"
    using ws _ inb by (rule pev_rel_loop_fold) auto
  then have run: "compute_pevs_rels cfg s = Inr ?s'"
    by (simp add: compute_pevs_rels_def ebind_def)
  have ws1: "well_shaped cfg ?s1" using ws by (rule well_shaped_pev_rel_fold)
  then have ws': "well_shaped cfg ?s'" by (simp add: well_shaped_def Let_def mean_last_def)
  have frame: "EBVs ?s1 = EBVs s \<and> avg_heritabilities ?s1 = avg_heritabilities s"
    by simp
  have cell: "cells (PEVs ?s') [l, t, j, d] = pev_row cfg s (l * ?T + t) j ! d
         \<and> cells (RELs ?s') [l, t, j, d] = rel_row cfg s (l * ?T + t) j ! d"
    if "l < ?L" "t < ?T" "j < ?N" "d < nat (dim_count cfg)" for l t j d
  proof -
    have T: "0 < ?T" using that(2) by simp
    have "l * ?T + t < ?T * ?L" using that(1,2) by (rule flat_index_less)
    then have "(l * ?T + t, j) \<in> set ?ps" using that(3) by (simp add: mult.commute)
    then show ?thesis using that(2,4)
      by (simp add: fold_PEVs[OF T] fold_RELs[OF T] del: set_product)
  qed
  have shp: "shape (PEVs ?s') = [?L, ?T, ?N, nat (dim_count cfg)]"
       "shape (RELs ?s') = [?L, ?T, ?N, nat (dim_count cfg)]"
    using ws1 by (simp_all add: well_shaped_def Let_def)
  show ?thesis
    using run ws' cell shp frame by (intro exI[of _ ?s']) simp
qed

lemma variance_update_frame [simp]:
  "PEV_PECs (variance_update cfg s i) = PEV_PECs s"
  "EBVs (variance_update cfg s i) = EBVs s"
  by (simp_all add: variance_update_def Let_def)

lemma variance_fold_frame [simp]:
  "PEV_PECs (foldl (variance_update cfg) s js) = PEV_PECs s"
  "EBVs (foldl (variance_update cfg) s js) = EBVs s"
  by (induction js arbitrary: s) simp_all

lemma variance_engine_frame:
  assumes "well_shaped cfg s" "compute_variances_and_heritabilities cfg s = Inr s'"
  shows "PEV_PECs s' = PEV_PECs s" "EBVs s' = EBVs s"
proof -
  have "compute_variances_and_heritabilities cfg s
        = Inr (foldl (variance_update cfg) s [0..<number_of_traits cfg * lactation_dim cfg])"
    unfolding compute_variances_and_heritabilities_def
    using assms(1) by (intro variance_loop_fold) simp_all
  then have "s' = foldl (variance_update cfg) s [0..<number_of_traits cfg * lactation_dim cfg]"
    using assms(2) by simp
  then show "PEV_PECs s' = PEV_PECs s" "EBVs s' = EBVs s" by simp_all
qed

lemma well_shaped_PEV_PECs_update:
  "well_shaped cfg s \<Longrightarrow> shape a = shape (PEV_PECs s) \<Longrightarrow> well_shaped cfg (s\<lparr>PEV_PECs := a\<rparr>)"
  by (simp add: well_shaped_def Let_def)

lemma two_animal_model_fields:
  assumes "two_animal_model cfg"
  shows "dim_range cfg = (5, 6)" "random_degree cfg = 0"
  "number_of_traits cfg = 1" "lactation_dim cfg = 1" "animal_count cfg = 2"
  "shape (mat_G cfg) = [1, 1]" "shape (mat_P cfg) = [1, 1]" "shape (mat_R cfg) = [1, 1]"
  "cells (mat_G cfg) idx = Fin 1" "cells (mat_P cfg) idx = Fin 1"
  "cells (mat_R cfg) idx = Fin 1" "dim_count cfg = 2"
  using assms by (simp_all add: two_animal_model_def dim_count_def)

lemma two_animal_models:
  "two_animal_model two_animal_config" "two_animal_model inbred_config"
  by (simp_all add: two_animal_model_def inbred_config_def two_animal_config_def tiny_config_def)

lemma upt_2: "[0..<2] = [0, Suc 0]"
  by (simp add: numeral_2_eq_2)

text \<open>A two-animal model before the reliability engine runs, for a PEV-PEC file that
  gives the first animal the value \<open>a\<close> and the second the value \<open>b\<close>.\<close>

lemma two_animal_state:
  fixes a b :: real
  assumes m: "two_animal_model cfg"
  defines "lines \<equiv> [(1, [Fin a]), (2, [Fin b])]"
  shows "\<exists>s. ebind (build_basis cfg) (\<lambda>s0.
              ebind (read_pev_pec s0 lines)
                (compute_variances_and_heritabilities cfg)) = Inr s
     \<and> well_shaped cfg s
     \<and> cells (legendre_random_coefficients s) [0, 0] = Fin (sqrt (1 / 2))
     \<and> cells (legendre_random_coefficients s) [1, 0] = Fin (sqrt (1 / 2))
     \<and> cells (PEV_PECs s) [0, 0, 0] = Fin a \<and> cells (PEV_PECs s) [1, 0, 0] = Fin b
     \<and> cells (var_G s) [0, 0, 0] = Fin (1 / 2) \<and> cells (var_G s) [0, 0, 1] = Fin (1 / 2)
     \<and> cells (avg_heritabilities s) [0, 0] = Fin (1 / 4)
     \<and> EBVs s = np_zeros [1, 1, 2, 2]"
proof -
  let ?cfg = "cfg"
  note f = two_animal_model_fields[OF m]
  from degree0_model[of ?cfg] obtain s0 where s0: "build_basis ?cfg = Inr s0" "well_shaped ?cfg s0"
     "s0 = (allocate ?cfg)\<lparr>legendre_coefficients := legendre_coefficients s0,
                          legendre_random_coefficients := legendre_random_coefficients s0,
                          legendre_partial_sums := legendre_partial_sums s0,
                          legendre_random_sums := legendre_random_sums s0\<rparr>"
     "cells (legendre_random_coefficients s0) [0, 0] = Fin (sqrt (1 / 2))"
     "cells (legendre_random_coefficients s0) [1, 0] = Fin (sqrt (1 / 2))"
    by (simp add: f) blast
  have "PEV_PECs s0 = PEV_PECs (allocate ?cfg)" "EBVs s0 = EBVs (allocate ?cfg)"
    by (subst s0(3), simp)+
  then have p0: "PEV_PECs s0 = np_zeros [2, 1, 1]" and e0: "EBVs s0 = np_zeros [1, 1, 2, 2]"
    by (simp_all add: allocate_def Let_def f numeral_2_eq_2)
  have sh0: "shape (PEV_PECs s0) = [2, 1, 1]" by (simp add: p0 np_zeros_def)
  have wf1: "well_formed_line 2 1 (1, [Fin a])" and wf2: "well_formed_line 2 1 (2, [Fin b])"
    by (simp_all add: well_formed_line_def packed_index_def)
  let ?a1 = "(PEV_PECs s0)\<lparr>cells := symmetrized (cells (PEV_PECs s0))
                 (stored (PEV_PECs s0) (nat (1 - 1)) 0 0 [Fin a]) (nat (1 - 1)) 1\<rparr>"
  have l1: "read_pev_pec_line (PEV_PECs s0) (1, [Fin a]) = Inr ?a1"
    by (rule read_pev_pec_line_ok[OF sh0 wf1])
  have sh1: "shape ?a1 = [2, 1, 1]" using sh0 by simp
  let ?a2 = "?a1\<lparr>cells := symmetrized (cells ?a1)
                 (stored ?a1 (nat (2 - 1)) 0 0 [Fin b]) (nat (2 - 1)) 1\<rparr>"
  have l2: "read_pev_pec_line ?a1 (2, [Fin b]) = Inr ?a2"
    by (rule read_pev_pec_line_ok[OF sh1 wf2])
  let ?s1 = "s0\<lparr>PEV_PECs := ?a2\<rparr>"
  have rd: "read_pev_pec s0 lines = Inr ?s1"
    unfolding lines_def read_pev_pec_def
    by (simp only: read_pev_pec_lines.simps l1 l2 ebind_def sum.case)
  have c1: "cells ?a2 [0, 0, 0] = Fin a" "cells ?a2 [1, 0, 0] = Fin b"
    by (simp_all add: symmetrized_triple stored_triple packed_index_def)
  have ws1: "well_shaped ?cfg ?s1"
    using s0(2) by (rule well_shaped_PEV_PECs_update) (simp add: sh0)
  have l: "0 < lactation_dim ?cfg" and t: "0 < number_of_traits ?cfg"
    by (simp_all add: f)
  from variance_engine_cells[OF ws1 l t] obtain s where s:
    "compute_variances_and_heritabilities ?cfg ?s1 = Inr s" "well_shaped ?cfg s"
    "legendre_random_coefficients s = legendre_random_coefficients ?s1"
    "\<forall>d < nat (dim_count ?cfg).
           cells (var_G s) [0, 0, d] = var_G_row ?cfg ?s1 (0 * number_of_traits ?cfg + 0) ! d
         \<and> cells (heritabilities s) [0, 0, d]
             = heritability_row ?cfg ?s1 (0 * number_of_traits ?cfg + 0) ! d"
    "avg_heritabilities s = mean_last (heritabilities s)"
    by blast
  have B: "cells (legendre_random_coefficients ?s1) [0, 0] = Fin (sqrt (1 / 2))"
      "cells (legendre_random_coefficients ?s1) [1, 0] = Fin (sqrt (1 / 2))"
    using s0(4,5) by simp_all
  have rows: "var_G_row ?cfg ?s1 0 ! d = Fin (1 / 2) \<and> heritability_row ?cfg ?s1 0 ! d = Fin (1 / 4)"
    if "d < 2" for d
  proof -
    have d: "d < nat (dim_count ?cfg)" using that by (simp add: f)
    have Bd: "cells (legendre_random_coefficients s0) [d, 0] = Fin (sqrt (1 / 2))"
      using that s0(4,5) by (cases d) (simp_all add: less_Suc_eq numeral_2_eq_2)
    note rn = row_nth[OF d, where s = ?s1 and i = 0]
    have vg: "var_G_row ?cfg ?s1 0 ! d = Fin (1 / 2)"
      unfolding rn(1) by (simp add: f quad_form_1 Bd np_mul_Fin)
    have vp: "var_P_row ?cfg ?s1 0 ! d = Fin (1 / 2)"
      unfolding rn(2) by (simp add: f quad_form_1 Bd np_mul_Fin)
    have ph: "pheno_row ?cfg ?s1 0 ! d = Fin 2"
      unfolding rn(3) vg vp by (simp add: f np_add_Fin)
    have "heritability_row ?cfg ?s1 0 ! d = Fin (1 / 4)"
      unfolding rn(4) vg ph by (simp add: np_div_Fin)
    then show ?thesis using vg by simp
  qed
  have vG: "cells (var_G s) [0, 0, 0] = Fin (1 / 2)" "cells (var_G s) [0, 0, 1] = Fin (1 / 2)"
    and h: "cells (heritabilities s) [0, 0, 0] = Fin (1 / 4)"
           "cells (heritabilities s) [0, 0, 1] = Fin (1 / 4)"
    using s(4) rows by (simp_all add: f)
  have shH: "shape (heritabilities s) = [1, 1, 2]"
    using s(2) by (simp add: well_shaped_def Let_def f)
  have h1: "cells (heritabilities s) [0, 0, Suc 0] = Fin (1 / 4)" using h(2) by simp
  have ah: "cells (avg_heritabilities s) [0, 0] = Fin (1 / 4)"
    unfolding s(5) mean_last_cell3[OF shH]
    by (simp add: upt_2 h(1) h1 np_sum_def np_add_Fin np_div_Fin)
  have fr: "PEV_PECs s = ?a2" "EBVs s = np_zeros [1, 1, 2, 2]"
    using variance_engine_frame[OF ws1 s(1)] e0 by simp_all
  have run: "ebind (build_basis ?cfg) (\<lambda>s0.
              ebind (read_pev_pec s0 lines) (compute_variances_and_heritabilities ?cfg)) = Inr s"
    by (simp only: s0(1) rd s(1) ebind_def sum.case)
  have Bs: "cells (legendre_random_coefficients s) [0, 0] = Fin (sqrt (1 / 2))"
      "cells (legendre_random_coefficients s) [1, 0] = Fin (sqrt (1 / 2))"
    using s(3) s0(4,5) by simp_all
  have Ps: "cells (PEV_PECs s) [0, 0, 0] = Fin a" "cells (PEV_PECs s) [1, 0, 0] = Fin b"
    unfolding fr(1) by (rule c1)+
  show ?thesis
    using run s(2) Bs Ps vG ah fr(2) by (intro exI[of _ s]) simp
qed

lemma flat_index_div_mod:
  fixes l t T :: nat
  assumes "t < T"
  shows "(l * T + t) div T = l" "(l * T + t) mod T = t"
  using assms by simp_all

lemma pev_rel_row_nth:
  assumes "d < nat (dim_count cfg)" "t < number_of_traits cfg"
  shows "pev_row cfg s i j ! d =
           np_div (np_sum (map (\<lambda>r. quad_form (legendre_random_coefficients s)
                                       (animal_matrix (PEV_PECs s) j) (random_degree cfg + 1)
                                       (i * (random_degree cfg + 1)) r d)
                            [0..<nat (dim_count cfg)]))
             (Fin (real (nat (dim_count cfg))))"
    and "rel_row cfg s (l * number_of_traits cfg + t) j ! d =
           np_sub (Fin 1) (np_div (pev_row cfg s (l * number_of_traits cfg + t) j ! d)
                                  (scaled_var_G cfg s l t j d))"
  using assms by (simp_all add: pev_row_def rel_row_def)

text \<open>
  C3. For every animal and every (lactation, trait), with the \<open>K \<times> K\<close> block at offset
  \<open>i * K\<close> of the animal's (symmetrized) PEV-PEC matrix, the prediction-error variance at
  DIM offset \<open>d\<close> is the mean over the basis rows \<open>r\<close> of \<open>(B block B\<^sup>T)[r, d]\<close>, and the
  reliability is \<open>1 - PEV / var_G\<close>, where var_G is multiplied by one plus the animal's
  inbreeding coefficient when inbreeding is enabled and is taken as it is otherwise.
\<close>

theorem pev_and_reliability_formulas:
  assumes ws: "well_shaped cfg s"
    and inb: "inbreeding cfg \<longrightarrow> animal_count cfg \<le> length (inbreeding_coefficients cfg)"
    and l: "l < lactation_dim cfg" and t: "t < number_of_traits cfg" and j: "j < animal_count cfg"
  defines "i \<equiv> l * number_of_traits cfg + t"
    and "K \<equiv> random_degree cfg + 1"
    and "D \<equiv> nat (dim_count cfg)"
  shows "\<exists>s'. compute_pevs_rels cfg s = Inr s'
     \<and> (\<forall>d < D.
           cells (PEVs s') [l, t, j, d] =
             np_div (np_sum (map (\<lambda>r. quad_form (legendre_random_coefficients s)
                                         (animal_matrix (PEV_PECs s) j) K (i * K) r d) [0..<D]))
               (Fin (real D))
         \<and> cells (RELs s') [l, t, j, d] =
             np_sub (Fin 1)
               (np_div (cells (PEVs s') [l, t, j, d])
                  (if inbreeding cfg
                   then np_mul (cells (var_G s) [l, t, d])
                          (np_add (Fin 1) (inbreeding_coefficients cfg ! j))
                   else cells (var_G s) [l, t, d])))"
proof -
  from pev_rel_engine_cells[OF ws inb] l t j obtain s' where s':
    "compute_pevs_rels cfg s = Inr s'"
    "\<And>d. d < D \<Longrightarrow> cells (PEVs s') [l, t, j, d] = pev_row cfg s i j ! d"
    "\<And>d. d < D \<Longrightarrow> cells (RELs s') [l, t, j, d] = rel_row cfg s i j ! d"
    unfolding i_def D_def by blast
  have "cells (PEVs s') [l, t, j, d] =
             np_div (np_sum (map (\<lambda>r. quad_form (legendre_random_coefficients s)
                                         (animal_matrix (PEV_PECs s) j) K (i * K) r d) [0..<D]))
               (Fin (real D))
         \<and> cells (RELs s') [l, t, j, d] =
             np_sub (Fin 1)
               (np_div (cells (PEVs s') [l, t, j, d])
                  (if inbreeding cfg
                   then np_mul (cells (var_G s) [l, t, d])
                          (np_add (Fin 1) (inbreeding_coefficients cfg ! j))
                   else cells (var_G s) [l, t, d]))" if d: "d < D" for d
  proof -
    have d': "d < nat (dim_count cfg)" using d by (simp add: D_def)
    note rn = pev_rel_row_nth[OF d' t, where s = s and j = j]
    show ?thesis
      unfolding s'(2)[OF d] s'(3)[OF d] i_def rn(2) rn(1) K_def D_def scaled_var_G_def
      by simp
  qed
  then show ?thesis using s'(1) by (intro exI[of _ s']) simp
qed

text \<open>The reliability engine on a two-animal model whose animals have the PEV-PEC values
  \<open>a\<close> and \<open>b\<close>.\<close>

lemma quad_form_animal_1:
  "quad_form B (animal_matrix M j) (Suc 0) 0 r d
     = np_mul (np_mul (cells B [r, 0]) (cells M [j, 0, 0])) (cells B [d, 0])"
  by (simp add: quad_form_1 animal_matrix_def)

lemma two_animal_pev:
  assumes m: "two_animal_model cfg"
    and B: "cells (legendre_random_coefficients s) [0, 0] = Fin (sqrt (1 / 2))"
           "cells (legendre_random_coefficients s) [1, 0] = Fin (sqrt (1 / 2))"
    and P: "cells (PEV_PECs s) [j, 0, 0] = Fin a"
    and d: "d < 2"
  shows "pev_row cfg s 0 j ! d = Fin (a / 2)"
proof -
  note f = two_animal_model_fields[OF m]
  have Bd: "cells (legendre_random_coefficients s) [d, 0] = Fin (sqrt (1 / 2))"
    using d B by (cases d) (simp_all add: less_Suc_eq numeral_2_eq_2)
  have B1: "cells (legendre_random_coefficients s) [Suc 0, 0] = Fin (sqrt (1 / 2))"
    using B(2) by simp
  have q: "quad_form (legendre_random_coefficients s) (animal_matrix (PEV_PECs s) j) (Suc 0) 0 r d
           = Fin (a / 2)" if "r < 2" for r
  proof -
    have Br: "cells (legendre_random_coefficients s) [r, 0] = Fin (sqrt (1 / 2))"
      using that B by (cases r) (simp_all add: less_Suc_eq numeral_2_eq_2)
    have h: "sqrt (1 / 2) * sqrt (1 / 2) = (1 / 2 :: real)" by simp
    have "sqrt (1 / 2) * a * sqrt (1 / 2) = a * (sqrt (1 / 2) * sqrt (1 / 2))"
      by (simp only: ac_simps)
    then have e: "sqrt (1 / 2) * a * sqrt (1 / 2) = a / 2" unfolding h by simp
    show ?thesis by (simp only: quad_form_animal_1 Br Bd P np_mul_Fin e)
  qed
  have d': "d < nat (dim_count cfg)" using d by (simp add: f)
  have "pev_row cfg s 0 j ! d =
          np_div (np_sum (map (\<lambda>r. quad_form (legendre_random_coefficients s)
                                       (animal_matrix (PEV_PECs s) j) (Suc 0) 0 r d) [0..<2]))
             (Fin 2)"
    using d' by (simp add: pev_row_def f)
  also have "\<dots> = Fin (a / 2)"
    by (simp add: upt_2 q np_sum_def np_add_Fin np_div_Fin)
  finally show ?thesis .
qed

lemma two_animal_rels:
  fixes a b :: real
  assumes m: "two_animal_model cfg" and inb: "\<not> inbreeding cfg"
    and ws: "well_shaped cfg s"
    and B: "cells (legendre_random_coefficients s) [0, 0] = Fin (sqrt (1 / 2))"
           "cells (legendre_random_coefficients s) [1, 0] = Fin (sqrt (1 / 2))"
    and P: "cells (PEV_PECs s) [0, 0, 0] = Fin a" "cells (PEV_PECs s) [1, 0, 0] = Fin b"
    and G: "cells (var_G s) [0, 0, 0] = Fin (1 / 2)" "cells (var_G s) [0, 0, 1] = Fin (1 / 2)"
  shows "\<exists>s'. compute_pevs_rels cfg s = Inr s' \<and> well_shaped cfg s'
     \<and> EBVs s' = EBVs s \<and> avg_heritabilities s' = avg_heritabilities s
     \<and> cells (RELs s') [0, 0, 0, 0] = Fin (1 - a) \<and> cells (RELs s') [0, 0, 0, 1] = Fin (1 - a)
     \<and> cells (RELs s') [0, 0, 1, 0] = Fin (1 - b) \<and> cells (RELs s') [0, 0, 1, 1] = Fin (1 - b)
     \<and> shape (avg_RELs s') = [1, 1, 2]
     \<and> cells (avg_RELs s') [0, 0, 0] = Fin (1 - a) \<and> cells (avg_RELs s') [0, 0, 1] = Fin (1 - b)"
proof -
  note f = two_animal_model_fields[OF m]
  have inb': "inbreeding cfg \<longrightarrow> animal_count cfg \<le> length (inbreeding_coefficients cfg)"
    using inb by simp
  from pev_rel_engine_cells[OF ws inb'] obtain s' where s':
    "compute_pevs_rels cfg s = Inr s'" "well_shaped cfg s'"
    "EBVs s' = EBVs s" "avg_heritabilities s' = avg_heritabilities s"
    "\<forall>l < lactation_dim cfg. \<forall>t < number_of_traits cfg. \<forall>j < animal_count cfg.
          \<forall>d < nat (dim_count cfg).
           cells (RELs s') [l, t, j, d] = rel_row cfg s (l * number_of_traits cfg + t) j ! d"
    "avg_RELs s' = mean_last (RELs s')"
    "shape (RELs s') = [lactation_dim cfg, number_of_traits cfg, animal_count cfg, nat (dim_count cfg)]"
    by blast
  have Gd: "cells (var_G s) [0, 0, d] = Fin (1 / 2)" if "d < 2" for d
    using that G by (cases d) (simp_all add: less_Suc_eq numeral_2_eq_2)
  have rel: "cells (RELs s') [0, 0, j, d] = Fin (1 - x)"
    if "j < 2" "d < 2" "cells (PEV_PECs s) [j, 0, 0] = Fin x" for j d x
  proof -
    have d': "d < nat (dim_count cfg)" and t: "0 < number_of_traits cfg" using that by (simp_all add: f)
    have "cells (RELs s') [0, 0, j, d] = rel_row cfg s 0 j ! d"
      using s'(5) that(1,2) by (simp add: f)
    also have "\<dots> = np_sub (Fin 1) (np_div (pev_row cfg s 0 j ! d) (scaled_var_G cfg s 0 0 j d))"
      using pev_rel_row_nth(2)[OF d' t, where l = 0 and s = s and j = j] by simp
    also have "pev_row cfg s 0 j ! d = Fin (x / 2)"
      using m B that(3,2) by (rule two_animal_pev)
    also have "scaled_var_G cfg s 0 0 j d = Fin (1 / 2)"
      using inb Gd[OF that(2)] by (simp add: scaled_var_G_def)
    finally show ?thesis by (simp add: np_div_Fin np_sub_def np_neg_def np_add_Fin)
  qed
  have r: "cells (RELs s') [0, 0, 0, 0] = Fin (1 - a)" "cells (RELs s') [0, 0, 0, Suc 0] = Fin (1 - a)"
     "cells (RELs s') [0, 0, Suc 0, 0] = Fin (1 - b)" "cells (RELs s') [0, 0, Suc 0, Suc 0] = Fin (1 - b)"
    using rel[of 0 0 a] rel[of 0 1 a] rel[of 1 0 b] rel[of 1 1 b] P by simp_all
  have shR: "shape (RELs s') = [1, 1, 2, 2]" using s'(7) by (simp add: f)
  have avg: "cells (avg_RELs s') [0, 0, 0] = Fin (1 - a)" "cells (avg_RELs s') [0, 0, Suc 0] = Fin (1 - b)"
    unfolding s'(6) mean_last_cell4[OF shR]
    by (simp_all add: upt_2 r np_sum_def np_add_Fin np_div_Fin)
  have sha: "shape (avg_RELs s') = [1, 1, 2]" unfolding s'(6) by (simp add: mean_last_def shR)
  show ?thesis using s'(1-4) r avg sha by (intro exI[of _ s']) simp
qed

text \<open>
  C9 claims one reliability average per (lactation, trait), over DIM and animals. With two
  animals of reliabilities 3/4 and 1/2 the output keeps the animal axis (shape (1, 1, 2))
  and holds 3/4 and 1/2; the mean over DIM and animals, 5/8, is not what it holds.
\<close>

theorem averaged_reliability_counterexample:
  "read_shape avg_RELs (reliability_run two_animal_config [(1, [Fin (1 / 4)]), (2, [Fin (1 / 2)])])
     = Inr [1, 1, 2]
 \<and> read_cell avg_RELs [0, 0, 0]
       (reliability_run two_animal_config [(1, [Fin (1 / 4)]), (2, [Fin (1 / 2)])]) = Inr (Fin (3 / 4))
 \<and> read_cell avg_RELs [0, 0, 1]
       (reliability_run two_animal_config [(1, [Fin (1 / 4)]), (2, [Fin (1 / 2)])]) = Inr (Fin (1 / 2))
 \<and> read_rel_mean two_animal_config 0 0
       (reliability_run two_animal_config [(1, [Fin (1 / 4)]), (2, [Fin (1 / 2)])]) = Inr (Fin (5 / 8))"
proof -
  let ?cfg = two_animal_config
  let ?lines = "[(1, [Fin (1 / 4)]), (2, [Fin (1 / 2)])]"
  note m = two_animal_models(1)
  have inb: "\<not> inbreeding ?cfg" by (simp add: two_animal_config_def tiny_config_def)
  from two_animal_state[OF m, of "1 / 4" "1 / 2"] obtain s where s:
    "ebind (build_basis ?cfg) (\<lambda>s0. ebind (read_pev_pec s0 ?lines)
        (compute_variances_and_heritabilities ?cfg)) = Inr s"
    "well_shaped ?cfg s"
    "cells (legendre_random_coefficients s) [0, 0] = Fin (sqrt (1 / 2))"
    "cells (legendre_random_coefficients s) [1, 0] = Fin (sqrt (1 / 2))"
    "cells (PEV_PECs s) [0, 0, 0] = Fin (1 / 4)" "cells (PEV_PECs s) [1, 0, 0] = Fin (1 / 2)"
    "cells (var_G s) [0, 0, 0] = Fin (1 / 2)" "cells (var_G s) [0, 0, 1] = Fin (1 / 2)"
    by blast
  from two_animal_rels[OF m inb s(2-8)] obtain s' where s':
    "compute_pevs_rels ?cfg s = Inr s'"
    "cells (RELs s') [0, 0, 0, 0] = Fin (1 - 1 / 4)" "cells (RELs s') [0, 0, 0, 1] = Fin (1 - 1 / 4)"
    "cells (RELs s') [0, 0, 1, 0] = Fin (1 - 1 / 2)" "cells (RELs s') [0, 0, 1, 1] = Fin (1 - 1 / 2)"
    "shape (avg_RELs s') = [1, 1, 2]"
    "cells (avg_RELs s') [0, 0, 0] = Fin (1 - 1 / 4)" "cells (avg_RELs s') [0, 0, 1] = Fin (1 - 1 / 2)"
    by blast
  have run: "reliability_run ?cfg ?lines = Inr s'"
  proof -
    obtain s0 where s0: "build_basis ?cfg = Inr s0"
      using s(1) by (cases "build_basis ?cfg") (simp_all add: ebind_def)
    obtain s1 where s1: "read_pev_pec s0 ?lines = Inr s1"
      using s(1) s0 by (cases "read_pev_pec s0 ?lines") (simp_all add: ebind_def)
    have "compute_variances_and_heritabilities ?cfg s1 = Inr s"
      using s(1) s0 s1 by (simp add: ebind_def)
    then show ?thesis
      unfolding reliability_run_def by (simp only: s0 s1 s'(1) ebind_def sum.case)
  qed
  have mean: "rel_mean_over_dim_and_animals ?cfg s' 0 0 = Fin (5 / 8)"
    using s'(2-5)
    by (simp add: rel_mean_over_dim_and_animals_def two_animal_model_fields[OF m] upt_2
          np_sum_def np_add_Fin np_div_Fin)
  show ?thesis
    using s'(6-8) mean by (simp add: run read_shape_def read_cell_def read_rel_mean_def)
qed

text \<open>
  C9, amended. The averaged-reliability output has one entry per (lactation, trait,
  animal): the arithmetic mean over the DIM axis of that animal's reliabilities. The animal
  axis is kept.
\<close>

theorem averaged_reliability_per_animal:
  assumes ws: "well_shaped cfg s"
    and inb: "inbreeding cfg \<longrightarrow> animal_count cfg \<le> length (inbreeding_coefficients cfg)"
    and l: "l < lactation_dim cfg" and t: "t < number_of_traits cfg" and j: "j < animal_count cfg"
  shows "\<exists>s'. compute_pevs_rels cfg s = Inr s'
     \<and> shape (avg_RELs s') = [lactation_dim cfg, number_of_traits cfg, animal_count cfg]
     \<and> cells (avg_RELs s') [l, t, j] =
         np_div (np_sum (map (\<lambda>d. cells (RELs s') [l, t, j, d]) [0..<nat (dim_count cfg)]))
           (Fin (real (nat (dim_count cfg))))"
proof -
  from pev_rel_engine_cells[OF ws inb] obtain s' where s':
    "compute_pevs_rels cfg s = Inr s'"
    "avg_RELs s' = mean_last (RELs s')"
    "shape (RELs s') = [lactation_dim cfg, number_of_traits cfg, animal_count cfg, nat (dim_count cfg)]"
    by blast
  have a: "cells (avg_RELs s') [l, t, j] =
         np_div (np_sum (map (\<lambda>d. cells (RELs s') [l, t, j, d]) [0..<nat (dim_count cfg)]))
           (Fin (real (nat (dim_count cfg))))"
    unfolding s'(2) by (rule mean_last_cell4[OF s'(3)])
  have b: "shape (avg_RELs s') = [lactation_dim cfg, number_of_traits cfg, animal_count cfg]"
    unfolding s'(2) by (simp add: mean_last_def s'(3))
  show ?thesis using s'(1) a b by blast
qed

theorem averaged_reliability_per_animal_witness:
  "\<exists>s s'. well_shaped two_animal_config s
     \<and> compute_pevs_rels two_animal_config s = Inr s'
     \<and> shape (avg_RELs s') = [1, 1, 2]
     \<and> cells (RELs s') [0, 0, 1, 0] = Fin (1 / 4) \<and> cells (RELs s') [0, 0, 1, 1] = Fin (1 / 4)
     \<and> cells (avg_RELs s') [0, 0, 1] = Fin (1 / 4)"
proof -
  let ?cfg = two_animal_config
  note m = two_animal_models(1)
  note f = two_animal_model_fields[OF m]
  have inb: "\<not> inbreeding ?cfg" by (simp add: two_animal_config_def tiny_config_def)
  from two_animal_state[OF m, of "1 / 2" "3 / 4"] obtain s where s:
    "well_shaped ?cfg s"
    "cells (legendre_random_coefficients s) [0, 0] = Fin (sqrt (1 / 2))"
    "cells (legendre_random_coefficients s) [1, 0] = Fin (sqrt (1 / 2))"
    "cells (PEV_PECs s) [0, 0, 0] = Fin (1 / 2)" "cells (PEV_PECs s) [1, 0, 0] = Fin (3 / 4)"
    "cells (var_G s) [0, 0, 0] = Fin (1 / 2)" "cells (var_G s) [0, 0, 1] = Fin (1 / 2)"
    by blast
  from two_animal_rels[OF m inb s] obtain s0 where s0:
    "compute_pevs_rels ?cfg s = Inr s0"
    "cells (RELs s0) [0, 0, 1, 0] = Fin (1 - 3 / 4)" "cells (RELs s0) [0, 0, 1, 1] = Fin (1 - 3 / 4)"
    by blast
  have h: "inbreeding ?cfg \<longrightarrow> animal_count ?cfg \<le> length (inbreeding_coefficients ?cfg)"
    using inb by simp
  have l: "0 < lactation_dim ?cfg" and t: "0 < number_of_traits ?cfg" and j: "1 < animal_count ?cfg"
    by (simp_all add: f)
  from averaged_reliability_per_animal[OF s(1) h l t j] obtain s' where s':
    "compute_pevs_rels ?cfg s = Inr s'"
    "shape (avg_RELs s') = [lactation_dim ?cfg, number_of_traits ?cfg, animal_count ?cfg]"
    "cells (avg_RELs s') [0, 0, 1] =
         np_div (np_sum (map (\<lambda>d. cells (RELs s') [0, 0, 1, d]) [0..<nat (dim_count ?cfg)]))
           (Fin (real (nat (dim_count ?cfg))))"
    by blast
  have eq: "s' = s0" using s0(1) s'(1) by simp
  have r: "cells (RELs s') [0, 0, 1, 0] = Fin (1 / 4)" "cells (RELs s') [0, 0, 1, 1] = Fin (1 / 4)"
    using s0(2,3) unfolding eq by simp_all
  have r': "cells (RELs s') [0, 0, Suc 0, 0] = Fin (1 / 4)"
      "cells (RELs s') [0, 0, Suc 0, Suc 0] = Fin (1 / 4)"
    using r by simp_all
  have "cells (avg_RELs s') [0, 0, 1] = Fin (1 / 4)"
    unfolding s'(3) by (simp add: f upt_2 r' np_sum_def np_add_Fin np_div_Fin)
  moreover have "shape (avg_RELs s') = [1, 1, 2]" using s'(2) by (simp add: f)
  ultimately show ?thesis using s(1) s'(1) r by (intro exI[of _ s] exI[of _ s']) simp
qed

theorem pev_and_reliability_formulas_witness:
  "\<exists>s s'. well_shaped inbred_config s
     \<and> cells (PEV_PECs s) [0, 0, 0] = Fin (1 / 4) \<and> cells (var_G s) [0, 0, 0] = Fin (1 / 2)
     \<and> inbreeding inbred_config \<and> inbreeding_coefficients inbred_config ! 0 = Fin 1
     \<and> compute_pevs_rels inbred_config s = Inr s'
     \<and> cells (PEVs s') [0, 0, 0, 0] = Fin (1 / 8)
     \<and> cells (RELs s') [0, 0, 0, 0] = Fin (7 / 8)"
proof -
  let ?cfg = inbred_config
  note m = two_animal_models(2)
  note f = two_animal_model_fields[OF m]
  have inb: "inbreeding ?cfg" "inbreeding_coefficients ?cfg = [Fin 1, Fin 0]"
    by (simp_all add: inbred_config_def)
  from two_animal_state[OF m, of "1 / 4" "1 / 2"] obtain s where s:
    "well_shaped ?cfg s"
    "cells (legendre_random_coefficients s) [0, 0] = Fin (sqrt (1 / 2))"
    "cells (legendre_random_coefficients s) [1, 0] = Fin (sqrt (1 / 2))"
    "cells (PEV_PECs s) [0, 0, 0] = Fin (1 / 4)"
    "cells (var_G s) [0, 0, 0] = Fin (1 / 2)"
    by blast
  have h: "inbreeding ?cfg \<longrightarrow> animal_count ?cfg \<le> length (inbreeding_coefficients ?cfg)"
    by (simp add: inb f)
  have l: "0 < lactation_dim ?cfg" and t: "0 < number_of_traits ?cfg" and j: "0 < animal_count ?cfg"
    and d: "0 < nat (dim_count ?cfg)"
    by (simp_all add: f)
  from pev_and_reliability_formulas[OF s(1) h l t j] obtain s' where s':
    "compute_pevs_rels ?cfg s = Inr s'"
    "\<forall>d < nat (dim_count ?cfg).
           cells (PEVs s') [0, 0, 0, d] =
             np_div (np_sum (map (\<lambda>r. quad_form (legendre_random_coefficients s)
                                         (animal_matrix (PEV_PECs s) 0) (random_degree ?cfg + 1)
                                         ((0 * number_of_traits ?cfg + 0) * (random_degree ?cfg + 1)) r d)
                                  [0..<nat (dim_count ?cfg)]))
               (Fin (real (nat (dim_count ?cfg))))
         \<and> cells (RELs s') [0, 0, 0, d] =
             np_sub (Fin 1)
               (np_div (cells (PEVs s') [0, 0, 0, d])
                  (if inbreeding ?cfg
                   then np_mul (cells (var_G s) [0, 0, d])
                          (np_add (Fin 1) (inbreeding_coefficients ?cfg ! 0))
                   else cells (var_G s) [0, 0, d]))"
    by blast
  have "cells (PEVs s') [0, 0, 0, 0] = pev_row ?cfg s 0 0 ! 0"
    using s'(2)[rule_format, OF d] pev_rel_row_nth(1)[OF d t, where s = s and i = 0 and j = 0]
    by simp
  also have "\<dots> = Fin ((1 / 4) / 2)"
    using m s(2,3,4) by (rule two_animal_pev) simp
  finally have pev: "cells (PEVs s') [0, 0, 0, 0] = Fin (1 / 8)" by simp
  have rel: "cells (RELs s') [0, 0, 0, 0] = Fin (7 / 8)"
    using s'(2)[rule_format, OF d]
    by (simp add: pev inb s(5) np_add_Fin np_mul_Fin np_div_Fin np_sub_def np_neg_def)
  show ?thesis
    using s(1,4,5) inb s'(1) pev rel by (intro exI[of _ s] exI[of _ s']) simp
qed

subsection \<open>DRP engine\<close>

lemma map2_same: "map2 f (map F xs) (map G xs) = map (\<lambda>x. f (F x) (G x)) xs"
  by (induction xs) simp_all

lemma map2_same_left: "map2 f xs (map G xs) = map (\<lambda>x. f x (G x)) xs"
  by (induction xs) simp_all

lemma vec_binop_map:
  "vec_binop f (map F [0..<n]) (map G [0..<n]) = Inr (map (\<lambda>k. f (F k) (G k)) [0..<n])"
  unfolding vec_binop_def by (simp add: map2_same del: map_map)

lemma where_gt0_map:
  "where_gt0 (map W [0..<n]) (map X [0..<n])
     = Inr (map (\<lambda>k. if np_gt (W k) (Fin 0) then X k else Fin 0) [0..<n])"
  unfolding where_gt0_def by (rule vec_binop_map)

lemma map_index:
  "length xs = n \<Longrightarrow> map F xs = map (\<lambda>k. F (xs ! k)) [0..<n]"
  by (rule nth_equalityI) simp_all

lemma get_each_ok:
  assumes "\<forall>ix \<in> set ixs. np_indices (shape a) ix = Some (nrm ix)"
  shows "get_each a ixs = Inr (map (\<lambda>ix. cells a (nrm ix)) ixs)"
  using assms by (induction ixs) (simp_all add: getitem_def ebind_def)

lemma parent_index:
  assumes "0 \<le> p" "p \<le> int N" "0 < N"
  shows "np_index N (p - 1) = Some (if 0 < p then nat (p - 1) else N - 1)"
  using assms by (auto simp add: np_index_def nat_diff_distrib)

lemma gather_parents3:
  assumes sh: "shape a = [L, T, N]" and l: "l < L" and t: "t < T"
    and ps: "\<forall>p \<in> set ps. 0 \<le> p \<and> p \<le> int N" and len: "length ps = N"
  shows "\<exists>vs. gather a [int l, int t] (map (\<lambda>p. p - 1) ps) [] = Inr vs
            \<and> where_pos ps vs = map (\<lambda>k. parent_value (\<lambda>x. cells a [l, t, x]) (ps ! k)) [0..<N]"
proof -
  let ?norm = "\<lambda>ix. case ix of [_, _, q] \<Rightarrow> [l, t, if 0 \<le> q then nat q else N - 1] | _ \<Rightarrow> []"
  have pre: "np_indices (take (length [int l, int t]) (shape a)) [int l, int t] = Some [l, t]"
    using sh l t by (simp add: np_index_def)
  have each: "\<forall>ix \<in> set (map (\<lambda>i. [int l, int t] @ [i] @ []) (map (\<lambda>p. p - 1) ps)).
               np_indices (shape a) ix = Some (?norm ix)"
  proof
    fix ix
    assume "ix \<in> set (map (\<lambda>i. [int l, int t] @ [i] @ []) (map (\<lambda>p. p - 1) ps))"
    then obtain p where p: "p \<in> set ps" "ix = [int l, int t, p - 1]" by auto
    then have "0 < N" using len by (cases ps) auto
    then have "np_index N (p - 1) = Some (if 0 < p then nat (p - 1) else N - 1)"
      using ps p(1) by (intro parent_index) auto
    then show "np_indices (shape a) ix = Some (?norm ix)"
      using sh l t p(2) by (auto simp add: np_index_def)
  qed
  let ?vs = "map (\<lambda>ix. cells a (?norm ix)) (map (\<lambda>i. [int l, int t] @ [i] @ []) (map (\<lambda>p. p - 1) ps))"
  have g: "gather a [int l, int t] (map (\<lambda>p. p - 1) ps) [] = Inr ?vs"
    unfolding gather_def pre by (simp only: option.case get_each_ok[OF each])
  have "where_pos ps ?vs = map (\<lambda>p. parent_value (\<lambda>x. cells a [l, t, x]) p) ps"
    unfolding where_pos_def map_map map2_same_left
    by (rule map_cong[OF refl]) (use ps in \<open>auto simp add: parent_value_def\<close>)
  also have "\<dots> = map (\<lambda>k. parent_value (\<lambda>x. cells a [l, t, x]) (ps ! k)) [0..<N]"
    using len by (rule map_index)
  finally show ?thesis using g by blast
qed

lemma gather_parents4:
  assumes sh: "shape a = [L, T, N, D]" and l: "l < L" and t: "t < T" and D: "0 < D"
    and ps: "\<forall>p \<in> set ps. 0 \<le> p \<and> p \<le> int N" and len: "length ps = N"
  shows "\<exists>vs. gather a [int l, int t] (map (\<lambda>p. p - 1) ps) [- 1] = Inr vs
            \<and> where_pos ps vs = map (\<lambda>k. parent_value (\<lambda>x. cells a [l, t, x, D - 1]) (ps ! k)) [0..<N]"
proof -
  let ?nrm = "\<lambda>ix. case ix of [_, _, q, _] \<Rightarrow> [l, t, if 0 \<le> q then nat q else N - 1, D - 1] | _ \<Rightarrow> []"
  have pre: "np_indices (take (length [int l, int t]) (shape a)) [int l, int t] = Some [l, t]"
    using sh l t by (simp add: np_index_def)
  have last: "np_index D (- 1) = Some (D - 1)"
    using D by (auto simp add: np_index_def nat_diff_distrib)
  have each: "\<forall>ix \<in> set (map (\<lambda>i. [int l, int t] @ [i] @ [- 1]) (map (\<lambda>p. p - 1) ps)).
               np_indices (shape a) ix = Some (?nrm ix)"
  proof
    fix ix
    assume "ix \<in> set (map (\<lambda>i. [int l, int t] @ [i] @ [- 1]) (map (\<lambda>p. p - 1) ps))"
    then obtain p where p: "p \<in> set ps" "ix = [int l, int t, p - 1, - 1]" by auto
    then have "0 < N" using len by (cases ps) auto
    then have "np_index N (p - 1) = Some (if 0 < p then nat (p - 1) else N - 1)"
      using ps p(1) by (intro parent_index) auto
    then show "np_indices (shape a) ix = Some (?nrm ix)"
      using sh l t p(2) last by (auto simp add: np_index_def)
  qed
  let ?vs = "map (\<lambda>ix. cells a (?nrm ix)) (map (\<lambda>i. [int l, int t] @ [i] @ [- 1]) (map (\<lambda>p. p - 1) ps))"
  have g: "gather a [int l, int t] (map (\<lambda>p. p - 1) ps) [- 1] = Inr ?vs"
    unfolding gather_def pre by (simp only: option.case get_each_ok[OF each])
  have "where_pos ps ?vs = map (\<lambda>p. parent_value (\<lambda>x. cells a [l, t, x, D - 1]) p) ps"
    unfolding where_pos_def map_map map2_same_left
    by (rule map_cong[OF refl]) (use ps in \<open>auto simp add: parent_value_def\<close>)
  also have "\<dots> = map (\<lambda>k. parent_value (\<lambda>x. cells a [l, t, x, D - 1]) (ps ! k)) [0..<N]"
    using len by (rule map_index)
  finally show ?thesis using g by blast
qed

lemma get_last_lane_ok:
  assumes "shape a = [L, T, N, D]" "l < L" "t < T" "0 < D"
  shows "get_last_lane a [int l, int t] = Inr (map (\<lambda>k. cells a [l, t, k, D - 1]) [0..<N])"
proof -
  have "np_index D (- 1) = Some (D - 1)"
    using assms(4) by (auto simp add: np_index_def nat_diff_distrib)
  then show ?thesis using assms by (simp add: get_last_lane_def np_index_def)
qed

lemma drp_outputs_components:
  "fst (drp_outputs cfg s l t k) =
     (if np_gt (snd (snd (garrick_animal cfg s l t k))) (Fin 0)
      then fst (garrick_animal cfg s l t k) else Fin 0)"
  "fst (snd (drp_outputs cfg s l t k)) =
     (if np_gt (snd (snd (garrick_animal cfg s l t k))) (Fin 0)
      then fst (snd (garrick_animal cfg s l t k)) else Fin 0)"
  "snd (snd (drp_outputs cfg s l t k)) =
     (if np_gt (snd (snd (garrick_animal cfg s l t k))) (Fin 0)
      then snd (snd (garrick_animal cfg s l t k)) else Fin 0)"
  by (cases "garrick_animal cfg s l t k"; simp add: drp_outputs_def)+

lemma compute_DRPs_ok:
  assumes ws: "well_shaped cfg s" and ped: "pedigree_ok cfg"
    and l: "l < lactation_dim cfg" and t: "t < number_of_traits cfg"
    and D: "0 < dim_count cfg"
  shows "compute_DRPs cfg s l t =
           Inr (s\<lparr>DRPs := (DRPs s)\<lparr>cells := lane_update (cells (DRPs s)) [l, t]
                               (map (\<lambda>k. fst (drp_outputs cfg s l t k)) [0..<animal_count cfg])\<rparr>,
                   DRP_RELs := (DRP_RELs s)\<lparr>cells := lane_update (cells (DRP_RELs s)) [l, t]
                               (map (\<lambda>k. fst (snd (drp_outputs cfg s l t k))) [0..<animal_count cfg])\<rparr>,
                   DRP_weights := (DRP_weights s)\<lparr>cells := lane_update (cells (DRP_weights s)) [l, t]
                               (map (\<lambda>k. snd (snd (drp_outputs cfg s l t k))) [0..<animal_count cfg])\<rparr>\<rparr>)"
proof -
  let ?L = "lactation_dim cfg" and ?T = "number_of_traits cfg" and ?N = "animal_count cfg"
  let ?D = "nat (dim_count cfg)"
  have shA: "shape (avg_RELs s) = [?L, ?T, ?N]" and shH: "shape (avg_heritabilities s) = [?L, ?T]"
    and shE: "shape (EBVs s) = [?L, ?T, ?N, ?D]"
    and sh1: "shape (DRPs s) = [?L, ?T, ?N]" and sh2: "shape (DRP_RELs s) = [?L, ?T, ?N]"
    and sh3: "shape (DRP_weights s) = [?L, ?T, ?N]"
    using ws by (simp_all add: well_shaped_def Let_def)
  have lenS: "length (sires cfg) = ?N" and lenD: "length (dams cfg) = ?N"
    and pS: "\<forall>p \<in> set (sires cfg). 0 \<le> p \<and> p \<le> int ?N"
    and pD: "\<forall>p \<in> set (dams cfg). 0 \<le> p \<and> p \<le> int ?N"
    using ped by (auto simp add: pedigree_ok_def)
  have D': "0 < ?D" using D by simp
  let ?rel = "\<lambda>x. cells (avg_RELs s) [l, t, x]"
  let ?ebv = "\<lambda>x. cells (EBVs s) [l, t, x, ?D - 1]"
  from gather_parents3[OF shA l t pS lenS] obtain rs where rs:
    "gather (avg_RELs s) [int l, int t] (map (\<lambda>p. p - 1) (sires cfg)) [] = Inr rs"
    "where_pos (sires cfg) rs = map (\<lambda>k. parent_value ?rel (sires cfg ! k)) [0..<?N]" by blast
  from gather_parents3[OF shA l t pD lenD] obtain rd where rd:
    "gather (avg_RELs s) [int l, int t] (map (\<lambda>p. p - 1) (dams cfg)) [] = Inr rd"
    "where_pos (dams cfg) rd = map (\<lambda>k. parent_value ?rel (dams cfg ! k)) [0..<?N]" by blast
  from gather_parents4[OF shE l t D' pS lenS] obtain es where es:
    "gather (EBVs s) [int l, int t] (map (\<lambda>p. p - 1) (sires cfg)) [- 1] = Inr es"
    "where_pos (sires cfg) es = map (\<lambda>k. parent_value ?ebv (sires cfg ! k)) [0..<?N]" by blast
  from gather_parents4[OF shE l t D' pD lenD] obtain ed where ed:
    "gather (EBVs s) [int l, int t] (map (\<lambda>p. p - 1) (dams cfg)) [- 1] = Inr ed"
    "where_pos (dams cfg) ed = map (\<lambda>k. parent_value ?ebv (dams cfg ! k)) [0..<?N]" by blast
  have gl: "get_lane (avg_RELs s) [int l, int t] = Inr (map ?rel [0..<?N])"
    using shA l t by (rule get_lane3_ok)
  have gh: "getitem (avg_heritabilities s) [int l, int t] = Inr (cells (avg_heritabilities s) [l, t])"
    using shH l t by (simp add: getitem_def np_index_def)
  have ll: "get_last_lane (EBVs s) [int l, int t] = Inr (map ?ebv [0..<?N])"
    using shE l t D' by (rule get_last_lane_ok)
  have sl: "\<And>a w. shape a = [?L, ?T, ?N] \<Longrightarrow> length w = ?N \<Longrightarrow>
               set_lane a [int l, int t] w = Inr (a\<lparr>cells := lane_update (cells a) [l, t] w\<rparr>)"
    using l t by (intro set_lane3_ok)
  show ?thesis
    unfolding compute_DRPs_def Let_def
    apply (simp only: rs rd es ed gl gh ll ebind_def sum.case vec_binop_map map_map o_def
             where_gt0_map)
    apply (subst sl[OF sh1], simp)
    apply (subst sl[OF sh2], simp)
    apply (subst sl[OF sh3], simp)
    apply (simp only: sum.case)
    apply (simp only: drp_outputs_components)
    apply (simp add: garrick_animal_def garrick_def Let_def cong: if_cong)
    done
qed

lemma np_sub_Fin: "np_sub (Fin x) (Fin y) = Fin (x - y)"
  by (simp add: np_sub_def np_neg_def np_add_def)

lemma np_sqrt_Fin: "0 \<le> x \<Longrightarrow> np_sqrt (Fin x) = Fin (sqrt x)"
  by (simp add: np_sqrt_def)

lemma np_div_zero_zero: "np_div (Fin 0) (Fin 0) = NaN"
  by (simp add: np_div_def)

lemma np_div_pos_zero: "0 < x \<Longrightarrow> np_div (Fin x) (Fin 0) = PInf"
  by (simp add: np_div_def)

lemma np_add_PInf: "np_add (Fin x) PInf = PInf"
  by (simp add: np_add_def)

lemma np_mul_PInf_pos: "0 < y \<Longrightarrow> np_mul PInf (Fin y) = PInf"
  by (simp add: np_mul_def is_pos_def is_zero_def)

lemma np_div_Fin_PInf: "np_div (Fin x) PInf = Fin 0"
  by (simp add: np_div_def)

lemma sqrt_16: "sqrt 16 = 4"
  by (rule real_sqrt_unique) simp_all

lemma sqrt_36: "sqrt 36 = 6"
  by (rule real_sqrt_unique) simp_all

lemma Let_npf:
  "Let (Fin r) f = f (Fin r)" "Let PInf f = f PInf" "Let NInf f = f NInf" "Let NaN f = f NaN"
  by (simp_all add: Let_def)

lemma garrick_informative:
  "garrick (Fin (1 / 4)) (Fin 0) (Fin 0) (Fin (5 / 8)) (Fin 0) (Fin 0) (Fin e)
     = (Fin (2 * e), Fin (2 / 3), Fin 3)"
  unfolding garrick_def
  by (simp add: Let_npf np_add_Fin np_sub_Fin np_mul_Fin np_div_Fin np_sqrt_Fin sqrt_16)

lemma garrick_no_information:
  "garrick (Fin (1 / 4)) (Fin 0) (Fin 0) (Fin 0) (Fin 0) (Fin 0) (Fin 0) = (NaN, Fin 0, Fin 0)"
  unfolding garrick_def
  by (simp add: Let_npf np_add_Fin np_sub_Fin np_mul_Fin np_div_Fin np_sqrt_Fin sqrt_36
        np_div_zero_zero np_div_pos_zero np_add_PInf np_mul_PInf_pos np_div_Fin_PInf)

lemma np_le_not_gt: "np_le a b \<Longrightarrow> \<not> np_gt a b"
  by (cases a; cases b) (simp_all add: np_le_def np_gt_def)

text \<open>
  C6. The output policy of the DRP engine.  In a model whose tensors have the shapes the
  constructor allocates and whose pedigree names only animals of the model, the DRP engine
  raises no error for any lactation and trait, and for every animal, with (DRP, r2i, wi) the
  triple Garrick's formulas give for it (DRP = y1 / Zli_Zi,
  wi = (1 - h2) / ((0.5 + (1 - r2i) / r2i) * h2)): when wi \<le> 0 the stored DRP, DRP
  reliability and DRP weight of the animal are all exactly zero; when wi > 0 they are DRP, r2i
  and wi.
\<close>

theorem drp_zeroing_policy:
  assumes ws: "well_shaped cfg s" and ped: "pedigree_ok cfg"
    and l: "l < lactation_dim cfg" and t: "t < number_of_traits cfg"
    and D: "0 < dim_count cfg" and k: "k < animal_count cfg"
  shows "\<exists>s'. compute_DRPs cfg s l t = Inr s'
     \<and> (\<forall>drp r2i wi. garrick_animal cfg s l t k = (drp, r2i, wi) \<longrightarrow>
           (np_le wi (Fin 0) \<longrightarrow>
              cells (DRPs s') [l, t, k] = Fin 0 \<and> cells (DRP_RELs s') [l, t, k] = Fin 0
            \<and> cells (DRP_weights s') [l, t, k] = Fin 0)
         \<and> (np_gt wi (Fin 0) \<longrightarrow>
              cells (DRPs s') [l, t, k] = drp \<and> cells (DRP_RELs s') [l, t, k] = r2i
            \<and> cells (DRP_weights s') [l, t, k] = wi))"
proof -
  let ?N = "animal_count cfg"
  let ?s' = "s\<lparr>DRPs := (DRPs s)\<lparr>cells := lane_update (cells (DRPs s)) [l, t]
                               (map (\<lambda>k. fst (drp_outputs cfg s l t k)) [0..<?N])\<rparr>,
                   DRP_RELs := (DRP_RELs s)\<lparr>cells := lane_update (cells (DRP_RELs s)) [l, t]
                               (map (\<lambda>k. fst (snd (drp_outputs cfg s l t k))) [0..<?N])\<rparr>,
                   DRP_weights := (DRP_weights s)\<lparr>cells := lane_update (cells (DRP_weights s)) [l, t]
                               (map (\<lambda>k. snd (snd (drp_outputs cfg s l t k))) [0..<?N])\<rparr>\<rparr>"
  have run: "compute_DRPs cfg s l t = Inr ?s'"
    by (rule compute_DRPs_ok[OF ws ped l t D])
  have c: "cells (DRPs ?s') [l, t, k] = fst (drp_outputs cfg s l t k)"
    "cells (DRP_RELs ?s') [l, t, k] = fst (snd (drp_outputs cfg s l t k))"
    "cells (DRP_weights ?s') [l, t, k] = snd (snd (drp_outputs cfg s l t k))"
    using k by (simp_all add: lane_update_cell3)
  have "(np_le wi (Fin 0) \<longrightarrow>
              cells (DRPs ?s') [l, t, k] = Fin 0 \<and> cells (DRP_RELs ?s') [l, t, k] = Fin 0
            \<and> cells (DRP_weights ?s') [l, t, k] = Fin 0)
         \<and> (np_gt wi (Fin 0) \<longrightarrow>
              cells (DRPs ?s') [l, t, k] = drp \<and> cells (DRP_RELs ?s') [l, t, k] = r2i
            \<and> cells (DRP_weights ?s') [l, t, k] = wi)"
    if "garrick_animal cfg s l t k = (drp, r2i, wi)" for drp r2i wi
    unfolding c using that np_le_not_gt[of wi "Fin 0"] by (auto simp add: drp_outputs_def)
  then show ?thesis using run by (intro exI[of _ ?s']) blast
qed

text \<open>Two founders with no inbreeding, averaged heritability 1/4 and breeding values 0.
  The first has reliability 0: Garrick's weight is 0, its DRP is not a number, and the three
  outputs are zeroed. The second has reliability 5/8: its weight is 3 and the outputs are
  Garrick's values 0, 2/3 and 3.\<close>

theorem drp_zeroing_policy_witness:
  "\<exists>s s'. well_shaped two_animal_config s \<and> pedigree_ok two_animal_config
     \<and> compute_DRPs two_animal_config s 0 0 = Inr s'
     \<and> garrick_animal two_animal_config s 0 0 0 = (NaN, Fin 0, Fin 0)
     \<and> np_le (Fin 0) (Fin 0)
     \<and> cells (DRPs s') [0, 0, 0] = Fin 0 \<and> cells (DRP_RELs s') [0, 0, 0] = Fin 0
     \<and> cells (DRP_weights s') [0, 0, 0] = Fin 0
     \<and> garrick_animal two_animal_config s 0 0 1 = (Fin 0, Fin (2 / 3), Fin 3)
     \<and> np_gt (Fin 3) (Fin 0)
     \<and> cells (DRPs s') [0, 0, 1] = Fin 0 \<and> cells (DRP_RELs s') [0, 0, 1] = Fin (2 / 3)
     \<and> cells (DRP_weights s') [0, 0, 1] = Fin 3"
proof -
  let ?cfg = two_animal_config
  note m = two_animal_models(1)
  note f = two_animal_model_fields[OF m]
  have inb: "\<not> inbreeding ?cfg" by (simp add: two_animal_config_def tiny_config_def)
  have ped: "pedigree_ok ?cfg"
    by (simp add: pedigree_ok_def two_animal_config_def tiny_config_def)
  have par: "sires ?cfg ! k = 0" "dams ?cfg ! k = 0" if "k < 2" for k
    using that by (cases k; simp add: two_animal_config_def tiny_config_def less_Suc_eq numeral_2_eq_2)+
  from two_animal_state[OF m, of 1 "3 / 8"] obtain s0 where s0:
    "well_shaped ?cfg s0"
    "cells (legendre_random_coefficients s0) [0, 0] = Fin (sqrt (1 / 2))"
    "cells (legendre_random_coefficients s0) [1, 0] = Fin (sqrt (1 / 2))"
    "cells (PEV_PECs s0) [0, 0, 0] = Fin 1" "cells (PEV_PECs s0) [1, 0, 0] = Fin (3 / 8)"
    "cells (var_G s0) [0, 0, 0] = Fin (1 / 2)" "cells (var_G s0) [0, 0, 1] = Fin (1 / 2)"
    and h0: "cells (avg_heritabilities s0) [0, 0] = Fin (1 / 4)"
    and e0: "EBVs s0 = np_zeros [1, 1, 2, 2]"
    by blast
  from two_animal_rels[OF m inb s0] obtain s where s:
    "well_shaped ?cfg s" "EBVs s = EBVs s0" "avg_heritabilities s = avg_heritabilities s0"
    "cells (avg_RELs s) [0, 0, 0] = Fin (1 - 1)" "cells (avg_RELs s) [0, 0, 1] = Fin (1 - 3 / 8)"
    by blast
  have h: "cells (avg_heritabilities s) [0, 0] = Fin (1 / 4)" using s(3) h0 by simp
  have e: "cells (EBVs s) idx = Fin 0" for idx using s(2) e0 by (simp add: np_zeros_def)
  have r0: "cells (avg_RELs s) [0, 0, 0] = Fin 0" and r1: "cells (avg_RELs s) [0, 0, Suc 0] = Fin (5 / 8)"
    using s(4,5) by simp_all
  have g0: "garrick_animal ?cfg s 0 0 0 = (NaN, Fin 0, Fin 0)"
    by (simp add: garrick_animal_def Let_def par parent_value_def h e r0 garrick_no_information)
  have g1: "garrick_animal ?cfg s 0 0 1 = (Fin 0, Fin (2 / 3), Fin 3)"
    using garrick_informative[of 0]
    by (simp add: garrick_animal_def Let_def par parent_value_def h e r1)
  have l: "0 < lactation_dim ?cfg" and t: "0 < number_of_traits ?cfg" and D: "0 < dim_count ?cfg"
    and k0: "0 < animal_count ?cfg" and k1: "1 < animal_count ?cfg"
    by (simp_all add: f)
  have le: "np_le (Fin 0) (Fin 0)" and gt: "np_gt (Fin 3) (Fin 0)"
    by (simp_all add: np_le_def np_gt_def)
  from drp_zeroing_policy[OF s(1) ped l t D k0] obtain s' where s':
    "compute_DRPs ?cfg s 0 0 = Inr s'"
    "\<forall>drp r2i wi. garrick_animal ?cfg s 0 0 0 = (drp, r2i, wi) \<longrightarrow>
           (np_le wi (Fin 0) \<longrightarrow>
              cells (DRPs s') [0, 0, 0] = Fin 0 \<and> cells (DRP_RELs s') [0, 0, 0] = Fin 0
            \<and> cells (DRP_weights s') [0, 0, 0] = Fin 0)"
    by blast
  from drp_zeroing_policy[OF s(1) ped l t D k1] obtain s'' where s'':
    "compute_DRPs ?cfg s 0 0 = Inr s''"
    "\<forall>drp r2i wi. garrick_animal ?cfg s 0 0 1 = (drp, r2i, wi) \<longrightarrow>
           (np_gt wi (Fin 0) \<longrightarrow>
              cells (DRPs s'') [0, 0, 1] = drp \<and> cells (DRP_RELs s'') [0, 0, 1] = r2i
            \<and> cells (DRP_weights s'') [0, 0, 1] = wi)"
    by blast
  have eq: "s'' = s'" using s'(1) s''(1) by simp
  have z: "cells (DRPs s') [0, 0, 0] = Fin 0 \<and> cells (DRP_RELs s') [0, 0, 0] = Fin 0
            \<and> cells (DRP_weights s') [0, 0, 0] = Fin 0"
    using s'(2) g0 le by blast
  have v: "cells (DRPs s') [0, 0, 1] = Fin 0 \<and> cells (DRP_RELs s') [0, 0, 1] = Fin (2 / 3)
            \<and> cells (DRP_weights s') [0, 0, 1] = Fin 3"
    using s''(2) g1 gt unfolding eq by blast
  show ?thesis
    using s(1) ped s'(1) g0 g1 le gt z v by (intro exI[of _ s] exI[of _ s']) simp
qed

end
